(* ===== verification/Prelude.thy ===== *)
theory Prelude
  imports Main "HOL-Library.Word" "HOL-Library.Char_ord" "HOL-Library.AList"
begin

text \<open>
  Shared vocabulary of the development: the machine-integer types of the Rust sources with the
  saturating and checked operations the code calls on them, the result type that models
  \<open>Result<T, E>\<close> with its early return, decimal printing, the integers and keyed tables of SQLite, and the lemmas that
  more than one component uses.
\<close>

section \<open>Lemma collections\<close>

named_theorems u64_nat \<open>values of the machine-integer operations as natural numbers\<close>
named_theorems result_elims \<open>what a successful early-return chain implies\<close>

section \<open>Machine integers\<close>

type_synonym u8 = "8 word"
type_synonym u16 = "16 word"
type_synonym u32 = "32 word"
type_synonym u64 = "64 word"
type_synonym u128 = "128 word"

definition u64_max :: u64 where
  "u64_max = - 1"

definition saturating_add :: "'n::len word \<Rightarrow> 'n word \<Rightarrow> 'n word" where
  "saturating_add a b = (if unat a + unat b < 2 ^ LENGTH('n) then a + b else - 1)"

definition saturating_sub :: "'n::len word \<Rightarrow> 'n word \<Rightarrow> 'n word" where
  "saturating_sub a b = (if b \<le> a then a - b else 0)"

definition checked_add :: "'n::len word \<Rightarrow> 'n word \<Rightarrow> 'n word option" where
  "checked_add a b = (if unat a + unat b < 2 ^ LENGTH('n) then Some (a + b) else None)"

definition checked_sub :: "'n::len word \<Rightarrow> 'n word \<Rightarrow> 'n word option" where
  "checked_sub a b = (if b \<le> a then Some (a - b) else None)"

lemma unat_less_2p: "unat w < 2 ^ LENGTH('n)" for w :: "'n::len word"
  by simp

text \<open>A sum of words wraps once, at the end.\<close>

lemma unat_sum_list_mod: "unat (\<Sum>x\<leftarrow>xs. f x) = (\<Sum>x\<leftarrow>xs. unat (f x)) mod 2 ^ LENGTH('n)"
  for f :: "'a \<Rightarrow> 'n::len word"
  by (induction xs) (simp_all add: unat_word_ariths mod_add_right_eq)

lemma unat_ucast_fits:
  "unat w < 2 ^ LENGTH('b) \<Longrightarrow> unat (ucast w :: 'b::len word) = unat w" for w :: "'a::len word"
  by (simp add: unsigned_ucast_eq take_bit_nat_eq_self)

lemma unat_all_ones [u64_nat]: "unat (- 1 :: 'n::len word) = 2 ^ LENGTH('n) - 1"
  by (simp add: unsigned_minus_1_eq_mask mask_eq_exp_minus_1)

lemma unat_u64_max [u64_nat]: "unat u64_max = 2 ^ 64 - 1"
  by (simp add: u64_max_def unat_all_ones)

lemma unat_saturating_add [u64_nat]:
  "unat (saturating_add a b) = min (unat a + unat b) (2 ^ LENGTH('n) - 1)" for a b :: "'n::len word"
proof (cases "unat a + unat b < 2 ^ LENGTH('n)")
  case True
  then have "unat (a + b) = unat a + unat b" by (simp add: unat_add_lem)
  moreover from True have "unat a + unat b \<le> 2 ^ LENGTH('n) - 1" by linarith
  ultimately show ?thesis using True by (simp add: saturating_add_def min_absorb1)
next
  case False
  then show ?thesis by (simp add: saturating_add_def unat_all_ones)
qed

lemma unat_saturating_sub [u64_nat]: "unat (saturating_sub a b) = unat a - unat b"
  by (simp add: saturating_sub_def unat_sub word_le_nat_alt)

lemma checked_add_Some [u64_nat]:
  "checked_add a b = Some c \<longleftrightarrow> unat a + unat b = unat c" for a b c :: "'n::len word"
proof
  assume "checked_add a b = Some c"
  then show "unat a + unat b = unat c"
    by (auto simp: checked_add_def unat_add_lem split: if_splits)
next
  assume eq: "unat a + unat b = unat c"
  then have lt: "unat a + unat b < 2 ^ LENGTH('n)" using unat_less_2p [of c] by simp
  then have "unat (a + b) = unat a + unat b" by (simp add: unat_add_lem)
  with eq have "a + b = c" by (simp add: word_unat_eq_iff)
  with lt show "checked_add a b = Some c" by (simp add: checked_add_def)
qed

lemma checked_add_None [u64_nat]:
  "checked_add a b = None \<longleftrightarrow> 2 ^ LENGTH('n) \<le> unat a + unat b" for a b :: "'n::len word"
  by (auto simp: checked_add_def)

lemma checked_sub_Some [u64_nat]:
  "checked_sub a b = Some c \<longleftrightarrow> unat a = unat b + unat c"
proof
  assume "checked_sub a b = Some c"
  then show "unat a = unat b + unat c"
    by (auto simp: checked_sub_def unat_sub word_le_nat_alt split: if_splits)
next
  assume eq: "unat a = unat b + unat c"
  then have le: "b \<le> a" by (simp add: word_le_nat_alt)
  then have "unat (a - b) = unat c" using eq by (simp add: unat_sub)
  with le show "checked_sub a b = Some c" by (simp add: checked_sub_def word_unat_eq_iff)
qed

text \<open>How the kernel evaluates the sum on concrete words.\<close>

lemma saturating_add_eval [code]: "saturating_add a b = (if uint a + uint b \<le> uint (- 1 :: 'n word) then a + b else - 1)"
  for a b :: "'n::len word"
proof -
  have "uint (- 1 :: 'n word) = 2 ^ LENGTH('n) - 1" by (simp add: unsigned_minus_1_eq_mask mask_eq_exp_minus_1)
  moreover have "unat a + unat b < 2 ^ LENGTH('n) \<longleftrightarrow> uint a + uint b < 2 ^ LENGTH('n)"
    unfolding uint_nat by (simp only: of_nat_add [symmetric] of_nat_less_numeral_power_cancel_iff)
  ultimately show ?thesis by (simp add: saturating_add_def)
qed

lemma saturating_add_zero [simp]: "saturating_add a 0 = a" "saturating_add 0 a = a"
  by (simp_all add: word_unat_eq_iff unat_saturating_add min_def)
     (use unat_less_2p [of a] in linarith)+

lemma saturating_sub_zero [simp]: "saturating_sub a 0 = a"
  by (simp add: saturating_sub_def)

lemma saturating_sub_self [simp]: "saturating_sub a a = 0"
  by (simp add: saturating_sub_def)

section \<open>Results and early return\<close>

text \<open>
  \<open>Result<T, E>\<close> is \<open>'e + 'a\<close>, the error on the left. \<open>try e f\<close> is
  \<open>let x = e?; f(x)\<close>: the error leaves the function.
\<close>

definition try_bind :: "'e + 'a \<Rightarrow> ('a \<Rightarrow> 'e + 'b) \<Rightarrow> 'e + 'b" where
  "try_bind r f = (case r of Inl e \<Rightarrow> Inl e | Inr x \<Rightarrow> f x)"

definition map_err :: "('e \<Rightarrow> 'f) \<Rightarrow> 'e + 'a \<Rightarrow> 'f + 'a" where
  "map_err h r = (case r of Inl e \<Rightarrow> Inl (h e) | Inr x \<Rightarrow> Inr x)"

definition ok_or :: "'e \<Rightarrow> 'a option \<Rightarrow> 'e + 'a" where
  "ok_or e r = (case r of None \<Rightarrow> Inl e | Some x \<Rightarrow> Inr x)"

lemma try_bind_simps [simp]:
  "try_bind (Inl e) f = Inl e"
  "try_bind (Inr x) f = f x"
  by (simp_all add: try_bind_def)

lemma map_err_simps [simp]:
  "map_err h (Inl e) = Inl (h e)"
  "map_err h (Inr x) = Inr x"
  by (simp_all add: map_err_def)

lemma ok_or_simps [simp]:
  "ok_or e None = Inl e"
  "ok_or e (Some x) = Inr x"
  by (simp_all add: ok_or_def)

lemma try_bind_InrE [result_elims]:
  assumes "try_bind r f = Inr y"
  obtains x where "r = Inr x" "f x = Inr y"
  using assms by (cases r) auto

lemma map_err_Inr_iff [simp]: "map_err h r = Inr x \<longleftrightarrow> r = Inr x"
  by (cases r) auto

lemma ok_or_Inr_iff [simp]: "ok_or e r = Inr x \<longleftrightarrow> r = Some x"
  by (cases r) auto

text \<open>
  The same for code that also changes a state: the state reached at the error is kept, as the
  mutations made before an early return are.
\<close>

definition st_bind :: "('s \<Rightarrow> ('e + 'a) \<times> 's) \<Rightarrow> ('a \<Rightarrow> 's \<Rightarrow> ('e + 'b) \<times> 's) \<Rightarrow> 's \<Rightarrow> ('e + 'b) \<times> 's" where
  "st_bind m f s = (case m s of (Inl e, s') \<Rightarrow> (Inl e, s') | (Inr x, s') \<Rightarrow> f x s')"

definition st_lift :: "'e + 'a \<Rightarrow> 's \<Rightarrow> ('e + 'a) \<times> 's" where
  "st_lift r s = (r, s)"

definition st_map_err :: "('e \<Rightarrow> 'f) \<Rightarrow> ('s \<Rightarrow> ('e + 'a) \<times> 's) \<Rightarrow> 's \<Rightarrow> ('f + 'a) \<times> 's" where
  "st_map_err h m s = (case m s of (r, s') \<Rightarrow> (map_err h r, s'))"

lemma st_bind_Inr: "m s = (Inr x, s') \<Longrightarrow> st_bind m f s = f x s'"
  by (simp add: st_bind_def)

lemma st_bind_Inl: "m s = (Inl e, s') \<Longrightarrow> st_bind m f s = (Inl e, s')"
  by (simp add: st_bind_def)

lemma st_bind_cases:
  assumes "st_bind m f s = (r, t)"
  obtains (err) e where "m s = (Inl e, t)" "r = Inl e"
  | (ok) x u where "m s = (Inr x, u)" "f x u = (r, t)"
proof (cases "m s")
  case (Pair a u)
  then show thesis using assms err ok by (cases a) (auto simp: st_bind_def)
qed

lemma st_lift_simps [simp]:
  "st_lift r s = (x, t) \<longleftrightarrow> r = x \<and> s = t"
  "st_bind (st_lift (Inr y)) f s = f y s"
  "st_bind (st_lift (Inl e)) f s = (Inl e, s)"
  by (auto simp: st_lift_def st_bind_def)

lemma st_map_err_eq:
  "st_map_err h m s = (Inr x, t) \<longleftrightarrow> m s = (Inr x, t)"
  by (cases "m s") (auto simp: st_map_err_def)

text \<open>
  Pre- and postconditions for such code: \<open>Q\<close> of the value and the state on success,
  \<open>R\<close> of the error and the state on an early return.
\<close>

definition triple ::
  "('s \<Rightarrow> bool) \<Rightarrow> ('s \<Rightarrow> ('e + 'a) \<times> 's) \<Rightarrow> ('a \<Rightarrow> 's \<Rightarrow> bool) \<Rightarrow> ('e \<Rightarrow> 's \<Rightarrow> bool) \<Rightarrow> bool"
where
  "triple P m Q R \<longleftrightarrow>
     (\<forall>s r t. P s \<longrightarrow> m s = (r, t) \<longrightarrow> (case r of Inl e \<Rightarrow> R e t | Inr x \<Rightarrow> Q x t))"

lemma triple_bind:
  assumes "triple P m Q R" and "\<And>x. triple (Q x) (f x) Q' R"
  shows "triple P (st_bind m f) Q' R"
proof (unfold triple_def, intro allI impI)
  fix s r t
  assume "P s" and "st_bind m f s = (r, t)"
  from this(2) show "case r of Inl e \<Rightarrow> R e t | Inr x \<Rightarrow> Q' x t"
  proof (cases rule: st_bind_cases)
    case (err e)
    with assms(1) \<open>P s\<close> show ?thesis by (fastforce simp: triple_def)
  next
    case (ok x u)
    with assms(1) \<open>P s\<close> have "Q x u" by (fastforce simp: triple_def)
    with assms(2) ok(2) show ?thesis by (auto simp: triple_def)
  qed
qed

lemma triple_lift:
  assumes "\<And>s x. P s \<Longrightarrow> r = Inr x \<Longrightarrow> Q x s" and "\<And>s e. P s \<Longrightarrow> r = Inl e \<Longrightarrow> R e s"
  shows "triple P (st_lift r) Q R"
  using assms by (auto simp: triple_def st_lift_def split: sum.splits)

lemma triple_weaken:
  assumes "triple P m Q R" and "\<And>s. P' s \<Longrightarrow> P s" and "\<And>x s. Q x s \<Longrightarrow> Q' x s" and "\<And>e s. R e s \<Longrightarrow> R' e s"
  shows "triple P' m Q' R'"
  unfolding triple_def
proof (intro allI impI)
  fix s r t
  assume "P' s" and "m s = (r, t)"
  with assms(1,2) have "case r of Inl e \<Rightarrow> R e t | Inr x \<Rightarrow> Q x t" by (auto simp: triple_def)
  with assms(3,4) show "case r of Inl e \<Rightarrow> R' e t | Inr x \<Rightarrow> Q' x t" by (cases r) auto
qed

lemma triple_pure: "(\<And>s. P s \<Longrightarrow> A) \<Longrightarrow> (A \<Longrightarrow> triple P m Q R) \<Longrightarrow> triple P m Q R"
  by (auto simp: triple_def)

lemma triple_pre:
  assumes "\<And>s. P' s \<Longrightarrow> A \<and> P s" and "A \<Longrightarrow> triple P m Q R"
  shows "triple P' m Q R"
  using assms by (fastforce simp: triple_def)

lemma triple_if:
  "(b \<Longrightarrow> triple P m Q R) \<Longrightarrow> (\<not> b \<Longrightarrow> triple P m' Q R) \<Longrightarrow> triple P (if b then m else m') Q R"
  by simp

lemma triple_result: "triple P m Q R \<Longrightarrow> P s \<Longrightarrow> m s = (r, t) \<Longrightarrow> case r of Inl e \<Rightarrow> R e t | Inr x \<Rightarrow> Q x t"
  unfolding triple_def by blast

lemma triple_always: "(\<And>s r t. P s \<Longrightarrow> m s = (r, t) \<Longrightarrow> I t) \<Longrightarrow> triple P m (\<lambda>_. I) (\<lambda>_. I)"
  unfolding triple_def by (auto split: sum.splits)

lemma tripleD:
  assumes "triple P m Q R" and "P s"
  shows "m s = (Inr x, t) \<Longrightarrow> Q x t" and "m s = (Inl e, t) \<Longrightarrow> R e t"
  using assms by (fastforce simp: triple_def)+

section \<open>Folding a journal\<close>

text \<open>
  The durable files of the program are newline-separated JSON. A reader of such a file
  distinguishes a line that is empty (after trimming, where the code trims) from a line of
  text; the text itself is only handed to \<open>serde_json\<close>, so its type is a parameter
  \<open>'l\<close> and the encoder and decoder are arguments of the definitions that call them.
\<close>

datatype 'l line = Blank | Text 'l

text \<open>A loop that folds records into a state and returns on the first error.\<close>

fun try_fold :: "('s \<Rightarrow> 'r \<Rightarrow> 'e + 's) \<Rightarrow> 's \<Rightarrow> 'r list \<Rightarrow> 'e + 's" where
  "try_fold f s [] = Inr s"
| "try_fold f s (r # rs) = try_bind (f s r) (\<lambda>s'. try_fold f s' rs)"

lemma try_fold_append [simp]:
  "try_fold f s (xs @ ys) = try_bind (try_fold f s xs) (\<lambda>s'. try_fold f s' ys)"
proof (induction xs arbitrary: s)
  case Nil
  show ?case by simp
next
  case (Cons x xs)
  then show ?case by (cases "f s x") simp_all
qed

text \<open>
  The contract of one fold step: an invariant and a monotone reading of the state, each kept
  by every record that is accepted. What holds of one step holds of a whole replay.
\<close>

locale journal_fold =
  fixes step :: "'s \<Rightarrow> 'r \<Rightarrow> 'e + 's"
    and inv :: "'s \<Rightarrow> bool"
    and grows :: "'s \<Rightarrow> 's \<Rightarrow> bool"
  assumes step_inv: "inv s \<Longrightarrow> step s r = Inr s' \<Longrightarrow> inv s'"
    and step_grows: "inv s \<Longrightarrow> step s r = Inr s' \<Longrightarrow> grows s s'"
    and grows_refl: "grows s s"
    and grows_trans: "grows s t \<Longrightarrow> grows t u \<Longrightarrow> grows s u"
begin

lemma replay_inv: "inv s \<Longrightarrow> try_fold step s rs = Inr s' \<Longrightarrow> inv s'"
  by (induction rs arbitrary: s) (auto elim!: try_bind_InrE dest: step_inv)

lemma replay_grows: "inv s \<Longrightarrow> try_fold step s rs = Inr s' \<Longrightarrow> grows s s'"
  by (induction rs arbitrary: s)
     (auto intro: grows_refl grows_trans elim!: try_bind_InrE dest: step_inv step_grows)

lemma replay_prefix_grows:
  assumes "inv s" and "try_fold step s (xs @ ys) = Inr u"
  obtains t where "try_fold step s xs = Inr t" "grows t u"
  using assms replay_inv [OF assms(1)] replay_grows
  by (fastforce elim!: try_bind_InrE)

end

section \<open>Decimal printing\<close>

fun nat_digits :: "nat \<Rightarrow> string" where
  "nat_digits n =
     (if n < 10 then [char_of (48 + n)] else nat_digits (n div 10) @ [char_of (48 + n mod 10)])"

declare nat_digits.simps [simp del]

lemma nat_digits_not_Nil [simp]: "nat_digits n \<noteq> []"
  by (subst nat_digits.simps) auto

lemma nat_digits_inj [simp]: "nat_digits m = nat_digits n \<longleftrightarrow> m = n"
proof
  show "nat_digits m = nat_digits n \<Longrightarrow> m = n"
  proof (induction m arbitrary: n rule: nat_digits.induct)
    case (1 m)
    have digit: "char_of (48 + a) = char_of (48 + b) \<longleftrightarrow> a = b" if "a < 10" "b < 10" for a b :: nat
    proof -
      have "of_char (char_of (48 + a)) = 48 + a" "of_char (char_of (48 + b)) = 48 + b"
        using that by simp_all
      then show ?thesis by (metis add_left_cancel)
    qed
    show ?case
    proof (cases "m < 10 \<and> n < 10")
      case True
      then show ?thesis using 1(2) digit by (simp add: nat_digits.simps)
    next
      case False
      then have m: "nat_digits m = (if m < 10 then [] else nat_digits (m div 10)) @ [char_of (48 + m mod 10)]"
        and n: "nat_digits n = (if n < 10 then [] else nat_digits (n div 10)) @ [char_of (48 + n mod 10)]"
        by (subst nat_digits.simps, simp)+
      have "m mod 10 = n mod 10" using 1(2) digit [of "m mod 10" "n mod 10"] m n by auto
      moreover have "m div 10 = n div 10"
        using 1(2) m n False 1(1) [of "n div 10"] nat_digits_not_Nil [of "n div 10"] nat_digits_not_Nil [of "m div 10"]
        by (auto split: if_splits simp del: nat_digits_not_Nil)
      ultimately show ?thesis by (metis mod_mult_div_eq)
    qed
  qed
qed simp

text \<open>\<open>str::parse\<close> to an unsigned integer: an optional plus sign, then at least one
  digit and nothing else, and a value the type holds.\<close>

definition is_digit :: "char \<Rightarrow> bool" where
  "is_digit ch \<longleftrightarrow> 48 \<le> (of_char ch :: nat) \<and> (of_char ch :: nat) \<le> 57"

definition digits_value :: "string \<Rightarrow> nat" where
  "digits_value s = foldl (\<lambda>n ch. n * 10 + (of_char ch - 48)) 0 s"

definition parse_unsigned :: "string \<Rightarrow> 'n::len word option" where
  "parse_unsigned s =
     (let ds = (case s of [] \<Rightarrow> [] | ch # r \<Rightarrow> if ch = CHR ''+'' then r else s) in
      if ds = [] \<or> \<not> list_all is_digit ds \<or> digits_value ds \<ge> 2 ^ LENGTH('n) then None
      else Some (of_nat (digits_value ds)))"

lemma nat_digits_digits: "list_all is_digit (nat_digits n)"
proof (induction n rule: nat_digits.induct)
  case (1 n)
  have "is_digit (char_of (48 + d))" if "d < 10" for d :: nat using that by (simp add: is_digit_def)
  with 1 show ?case by (subst nat_digits.simps) simp
qed

lemma digits_value_nat_digits: "digits_value (nat_digits n) = n"
proof (induction n rule: nat_digits.induct)
  case (1 n)
  show ?case
  proof (cases "n < 10")
    case True
    then show ?thesis by (subst nat_digits.simps) (simp add: digits_value_def)
  next
    case False
    then show ?thesis using 1 by (subst nat_digits.simps) (simp add: digits_value_def)
  qed
qed

lemma parse_printed [simp]: "parse_unsigned (nat_digits (unat w)) = Some w" for w :: "'n::len word"
proof -
  have "\<not> is_digit (CHR ''+'')" by (simp add: is_digit_def)
  then have "(case nat_digits (unat w) of [] \<Rightarrow> [] | ch # r \<Rightarrow> if ch = CHR ''+'' then r else nat_digits (unat w)) = nat_digits (unat w)"
    using nat_digits_digits [of "unat w"] by (cases "nat_digits (unat w)") auto
  then show ?thesis
    using nat_digits_digits [of "unat w"] unat_less_2p [of w]
    by (simp add: parse_unsigned_def digits_value_nat_digits del: unsigned_less)
qed

section \<open>Strings\<close>

definition starts_with :: "string \<Rightarrow> string \<Rightarrow> bool" where
  "starts_with p s \<longleftrightarrow> take (length p) s = p"

definition strip_prefix :: "string \<Rightarrow> string \<Rightarrow> string option" where
  "strip_prefix p s = (if starts_with p s then Some (drop (length p) s) else None)"

lemma starts_with_append [simp]: "starts_with p (p @ s)"
  by (simp add: starts_with_def)

lemma strip_prefix_Some: "strip_prefix p s = Some r \<longleftrightarrow> s = p @ r"
  by (auto simp: strip_prefix_def starts_with_def split: if_splits) (metis append_take_drop_id)

text \<open>\<open>s.trim().is_empty()\<close>, for the white space of ASCII.\<close>

definition is_blank :: "string \<Rightarrow> bool" where
  "is_blank s \<longleftrightarrow> list_all (\<lambda>c. c \<in> {CHR '' '', CHR 0x09, CHR 0x0A, CHR 0x0B, CHR 0x0C, CHR 0x0D}) s"

definition is_hex_lower :: "char \<Rightarrow> bool" where
  "is_hex_lower c \<longleftrightarrow> (CHR ''0'' \<le> c \<and> c \<le> CHR ''9'') \<or> (CHR ''a'' \<le> c \<and> c \<le> CHR ''f'')"

section \<open>SQLite integers\<close>

text \<open>A u64 cast to the i64 a column holds, a column read back with \<^verbatim>\<open>u64::try_from(n).unwrap_or(0)\<close>, and the
  SUM of a column, which raises an error when it leaves the i64 range.\<close>

definition as_i64 :: "u64 \<Rightarrow> int" where
  "as_i64 w = (if uint w < 2 ^ 63 then uint w else uint w - 2 ^ 64)"

text \<open>\<open>i64::saturating_add\<close>, on the integers an \<open>i64\<close> holds.\<close>

definition i64_saturating_add :: "int \<Rightarrow> int \<Rightarrow> int" where
  "i64_saturating_add a b = min (2 ^ 63 - 1) (max (- (2 ^ 63)) (a + b))"

definition clamp_u64 :: "int \<Rightarrow> u64" where
  "clamp_u64 n = word_of_int (max 0 n)"

definition sql_sum :: "int list \<Rightarrow> string + int" where
  "sql_sum ns = (if sum_list ns < 2 ^ 63 then Inr (sum_list ns) else Inl ''integer overflow'')"

lemma clamp_exact: "0 \<le> n \<Longrightarrow> n < 2 ^ 64 \<Longrightarrow> uint (clamp_u64 n) = n"
  by (simp add: clamp_u64_def uint_word_of_int)

lemma as_i64_exact: "0 \<le> as_i64 w \<Longrightarrow> as_i64 w = uint w \<and> uint w < 2 ^ 63"
  using uint_bounded [of w] by (auto simp: as_i64_def split: if_splits)

section \<open>Keyed tables\<close>

lemma set_AList_update: "set (AList.update k r t) \<subseteq> insert (k, r) (set t)"
  by (induction t) auto

lemma map_of_update [simp]: "map_of (AList.update k r t) j = (if j = k then Some r else map_of t j)"
  by (simp add: update_conv')

definition update_row :: "'k \<Rightarrow> ('v \<Rightarrow> 'v) \<Rightarrow> ('k \<times> 'v) list \<Rightarrow> ('k \<times> 'v) list" where
  "update_row k f t = (case map_of t k of None \<Rightarrow> t | Some r \<Rightarrow> AList.update k (f r) t)"

lemma map_of_update_row: "map_of (update_row k f t) j = (if j = k then map_option f (map_of t k) else map_of t j)"
  by (auto simp: update_row_def split: option.splits)

end
