(* ===== verification/Platform_Fee.thy ===== *)
theory Platform_Fee
  imports Prelude
begin

text \<open>
  The seller-side platform fee of \<^verbatim>\<open>maxplayer-core/src/platform_fee.rs\<close>: the rate, the fee
  arithmetic in 128-bit words, what the seller keeps, and the printed label. \<open>fee_sats\<close>
  ends in an \<open>expect\<close>; the panic is the value \<open>None\<close>, and the first property
  proves it is never taken. The lemmas give the fee as a floor on natural numbers, its bounds and its behaviour
  when a payment is split.
\<close>

definition PLATFORM_FEE_BPS :: u32 where
  "PLATFORM_FEE_BPS = 1000"

definition BPS_PER_WHOLE :: u32 where
  "BPS_PER_WHOLE = 10000"

text \<open>\<open>u64::try_from(u128)\<close>: the value when it fits, else the error the caller panics on.\<close>

definition u64_try_from_u128 :: "u128 \<Rightarrow> u64 option" where
  "u64_try_from_u128 w = (if unat w < 2 ^ 64 then Some (ucast w) else None)"

definition fee_sats :: "u64 \<Rightarrow> u32 \<Rightarrow> u64 option" where
  "fee_sats face_sats fee_bps =
     (let fee_bps = min fee_bps BPS_PER_WHOLE;
          product = (ucast face_sats :: u128) * ucast fee_bps;
          fee = product div ucast BPS_PER_WHOLE
      in u64_try_from_u128 fee)"

definition kept_sats :: "u64 \<Rightarrow> u64 \<Rightarrow> u64 \<Rightarrow> u64" where
  "kept_sats face_sats mint_fee_sats platform_fee_sats =
     saturating_sub (saturating_sub face_sats mint_fee_sats) platform_fee_sats"

text \<open>\<open>format!("{n:02}")\<close>: at least two digits, zero-padded on the left.\<close>

definition two_digits :: "nat \<Rightarrow> string" where
  "two_digits n = (if n < 10 then CHR ''0'' # nat_digits n else nat_digits n)"

definition bps_to_percent_label :: "u32 \<Rightarrow> string" where
  "bps_to_percent_label fee_bps =
     (let whole = unat fee_bps div 100; fraction = unat fee_bps mod 100
      in if fraction = 0 then nat_digits whole @ ''%''
         else if fraction mod 10 = 0 then nat_digits whole @ ''.'' @ nat_digits (fraction div 10) @ ''%''
         else nat_digits whole @ ''.'' @ two_digits fraction @ ''%'')"

section \<open>The fee as a floor\<close>

definition fee_floor :: "nat \<Rightarrow> nat \<Rightarrow> nat" where
  "fee_floor face bps = face * min bps 10000 div 10000"

lemma fee_floor_le: "fee_floor face bps \<le> face"
proof -
  have "face * min bps 10000 div 10000 \<le> face * 10000 div 10000"
    by (intro div_le_mono mult_le_mono) auto
  then show ?thesis by (simp add: fee_floor_def)
qed

lemma unat_min: "unat (min a b) = min (unat a) (unat b)"
  by (simp add: min_def word_le_nat_alt)

lemma unat_product:
  assumes "unat b \<le> 10000"
  shows "unat ((ucast (a::u64) :: u128) * ucast (b::u32)) = unat a * unat b"
proof -
  have "unat a * unat b \<le> (2 ^ 64 - 1) * 10000"
    using unat_less_2p [of a] assms by (intro mult_le_mono) auto
  then have "unat a * unat b < 2 ^ 128" by simp
  moreover have "unat (ucast a :: u128) = unat a" 
    using unat_less_2p [of a] by (intro unat_ucast_fits) simp
  moreover have "unat (ucast b :: u128) = unat b"
    using assms by (intro unat_ucast_fits) simp
  ultimately show ?thesis by (simp add: unat_word_ariths)
qed

lemma fee_sats_value:
  "\<exists>fee. fee_sats face bps = Some fee \<and> unat fee = fee_floor (unat face) (unat bps)"
proof -
  let ?b = "min bps BPS_PER_WHOLE"
  let ?q = "(ucast face :: u128) * ucast ?b div ucast BPS_PER_WHOLE"
  have b: "unat ?b = min (unat bps) 10000" by (simp add: unat_min BPS_PER_WHOLE_def)
  then have "unat ((ucast face :: u128) * ucast ?b) = unat face * min (unat bps) 10000"
    using unat_product [of ?b face] by simp
  then have q: "unat ?q = fee_floor (unat face) (unat bps)"
    by (simp add: unat_div fee_floor_def BPS_PER_WHOLE_def)
  moreover have lt: "unat ?q < 2 ^ 64"
    using q fee_floor_le [of "unat face" "unat bps"] unat_less_2p [of face] by simp
  ultimately have "fee_sats face bps = Some (ucast ?q)"
    by (simp add: fee_sats_def u64_try_from_u128_def Let_def)
  moreover have "unat (ucast ?q :: u64) = unat ?q"
    using lt by (intro unat_ucast_fits) simp
  ultimately show ?thesis using q by simp
qed

lemma fee_floor_split: "fee_floor a bps + fee_floor b bps \<le> fee_floor (a + b) bps"
  by (simp add: fee_floor_def add_mult_distrib)

section \<open>Properties\<close>

text \<open>The fee computation never panics: for every amount and every rate, above one hundred
  percent included, the 128-bit product and the conversion back to 64 bits are exact, the fee is
  the floor of amount times clamped rate over ten thousand, and it is at most the amount.\<close>

theorem fee_sats_total_and_exact:
  "\<exists>fee. fee_sats face bps = Some fee \<and>
     unat fee = unat face * min (unat bps) 10000 div 10000 \<and> fee \<le> face"
  using fee_sats_value [of face bps] fee_floor_le [of "unat face" "unat bps"]
  by (auto simp: fee_floor_def word_le_nat_alt)

lemma fee_floor_split_upper: "fee_floor (a + b) bps \<le> fee_floor a bps + fee_floor b bps + 1"
  unfolding fee_floor_def add_mult_distrib by linarith

text \<open>Splitting one payment in two never raises what is owed, and saves at most one sat of
  fee; and where the two deductions fit in the price, what the seller keeps, the mint's fee
  and the platform's fee add up to the price exactly.\<close>

theorem fee_splits_and_accounts:
  assumes "unat a + unat b = unat face"
    and "fee_sats a bps = Some fa" "fee_sats b bps = Some fb" "fee_sats face bps = Some fee"
    and "unat mint_fee + unat fee \<le> unat face"
  shows "unat fa + unat fb \<le> unat fee \<and> unat fee \<le> unat fa + unat fb + 1 \<and>
    unat (kept_sats face mint_fee fee) + unat mint_fee + unat fee = unat face"
proof -
  have "unat fa = fee_floor (unat a) (unat bps)" "unat fb = fee_floor (unat b) (unat bps)"
    "unat fee = fee_floor (unat face) (unat bps)"
    using fee_sats_value [of a bps] fee_sats_value [of b bps] fee_sats_value [of face bps] assms(2-4) by auto
  moreover have "unat (kept_sats face mint_fee fee) = unat face - unat mint_fee - unat fee"
    by (simp add: kept_sats_def u64_nat)
  ultimately show ?thesis
    using fee_floor_split [of "unat a" "unat bps" "unat b"] fee_floor_split_upper [of "unat a" "unat b" "unat bps"] assms(1,5)
    by auto
qed

theorem fee_splits_and_accounts_witness:
  "unat (9 :: u64) + unat (0 :: u64) \<le> unat (10 :: u64) \<and>
   unat (kept_sats 100 3 10) + unat (3 :: u64) + unat (10 :: u64) = unat (100 :: u64)"
proof -
  have "fee_sats 95 PLATFORM_FEE_BPS = Some 9" "fee_sats 5 PLATFORM_FEE_BPS = Some 0"
    "fee_sats 100 PLATFORM_FEE_BPS = Some 10"
    by (simp_all add: fee_sats_def u64_try_from_u128_def PLATFORM_FEE_BPS_def BPS_PER_WHOLE_def)
  from fee_splits_and_accounts [OF _ this, of 3] show ?thesis by simp
qed

end
