(* ===== verification/Budget.thy ===== *)
theory Budget
  imports Prelude
begin

text \<open>
  The buyer's spend authority, \<^verbatim>\<open>maxplayer-core/src/budget.rs\<close>: a per-job cap and an
  append-only ledger of spends and reconciliation credits, folded before every check and
  appended to before every pay effect, under a lock shared by all buyer processes of a home.

  The disk is the ledger file (\<open>None\<close> while it does not exist). An I/O failure of a
  call is an argument of that call (\<open>budget_io\<close>): the lock, the read, or the append
  may fail, and a failed append may or may not have left its line in the file. The JSON codec
  and the clock are arguments.
\<close>

section \<open>Data\<close>

datatype BudgetRefuse = PerJob u64 u64 | Persist string

record LegacySpentFile =
  legacy_spent_sats :: u64
  legacy_attempt_ids :: "string list"

record LedgerRecord =
  amount_sats :: u64
  credit_sats :: u64
  attempt_id :: "string option"
  recorded_at :: u64

record FoldedSpent =
  f_spent :: u64
  f_counted :: "string set"

record BudgetGate =
  per_job_cap :: u64
  spent :: u64
  counted_attempts :: "string set"
  ledger_path :: "string option"
  legacy_base :: "FoldedSpent option"

record budget_io =
  lock_fault :: "string option"
  read_fault :: "string option"
  append_fault :: "(string \<times> bool) option"

type_synonym 'l ledger_file = "'l line list option"

definition FoldedSpent_default :: FoldedSpent where
  "FoldedSpent_default = \<lparr>f_spent = 0, f_counted = {}\<rparr>"

section \<open>Folding the ledger\<close>

definition apply_amounts :: "LedgerRecord \<Rightarrow> u64 \<Rightarrow> u64" where
  "apply_amounts r s = saturating_sub (saturating_add s (amount_sats r)) (credit_sats r)"

definition fold_record :: "FoldedSpent \<Rightarrow> LedgerRecord \<Rightarrow> FoldedSpent" where
  "fold_record f r =
     (case attempt_id r of
        Some i \<Rightarrow>
          if i \<in> f_counted f then f
          else f\<lparr>f_counted := insert i (f_counted f), f_spent := apply_amounts r (f_spent f)\<rparr>
      | None \<Rightarrow> f\<lparr>f_spent := apply_amounts r (f_spent f)\<rparr>)"

fun fold_line :: "('l \<Rightarrow> string + LedgerRecord) \<Rightarrow> FoldedSpent \<Rightarrow> 'l line \<Rightarrow> BudgetRefuse + FoldedSpent" where
  "fold_line dec f Blank = Inr f"
| "fold_line dec f (Text t) = try_bind (map_err Persist (dec t)) (\<lambda>r. Inr (fold_record f r))"

definition fold_ledger ::
  "('l \<Rightarrow> string + LedgerRecord) \<Rightarrow> budget_io \<Rightarrow> 'l ledger_file \<Rightarrow> FoldedSpent option \<Rightarrow> BudgetRefuse + FoldedSpent"
where
  "fold_ledger dec io file base =
     (let folded = (case base of Some b \<Rightarrow> b | None \<Rightarrow> FoldedSpent_default)
      in case file of
           None \<Rightarrow> Inr folded
         | Some ls \<Rightarrow>
             (case read_fault io of
                Some e \<Rightarrow> Inl (Persist e)
              | None \<Rightarrow> try_fold (fold_line dec) folded ls))"

definition load_legacy_base ::
  "('t \<Rightarrow> string + LegacySpentFile) \<Rightarrow> budget_io \<Rightarrow> 't option \<Rightarrow> BudgetRefuse + FoldedSpent option"
where
  "load_legacy_base toml io file =
     (case file of
        None \<Rightarrow> Inr None
      | Some raw \<Rightarrow>
          (case read_fault io of
             Some e \<Rightarrow> Inl (Persist e)
           | None \<Rightarrow>
               try_bind (map_err Persist (toml raw))
                 (\<lambda>l. Inr (Some \<lparr>f_spent = legacy_spent_sats l, f_counted = set (legacy_attempt_ids l)\<rparr>))))"

section \<open>The gate\<close>

definition new_gate :: "u64 \<Rightarrow> BudgetGate" where
  "new_gate cap =
     \<lparr>per_job_cap = cap, spent = 0, counted_attempts = {}, ledger_path = None, legacy_base = None\<rparr>"

definition from_home ::
  "('l \<Rightarrow> string + LedgerRecord) \<Rightarrow> ('t \<Rightarrow> string + LegacySpentFile) \<Rightarrow> budget_io \<Rightarrow>
   string \<Rightarrow> u64 \<Rightarrow> 't option \<Rightarrow> 'l ledger_file \<Rightarrow> BudgetRefuse + BudgetGate"
where
  "from_home dec toml io root cap legacy ledger =
     try_bind (load_legacy_base toml io legacy) (\<lambda>base.
     try_bind (fold_ledger dec io ledger base) (\<lambda>folded.
       Inr \<lparr>per_job_cap = cap, spent = f_spent folded, counted_attempts = f_counted folded,
            ledger_path = Some (root @ ''/spent.jsonl''), legacy_base = base\<rparr>))"

definition has_counted_attempt :: "BudgetGate \<Rightarrow> string \<Rightarrow> bool" where
  "has_counted_attempt g i \<longleftrightarrow> i \<in> counted_attempts g"

definition check :: "BudgetGate \<Rightarrow> u64 \<Rightarrow> BudgetRefuse + unit" where
  "check g amount = (if amount > per_job_cap g then Inl (PerJob amount (per_job_cap g)) else Inr ())"

definition refresh ::
  "('l \<Rightarrow> string + LedgerRecord) \<Rightarrow> budget_io \<Rightarrow> 'l ledger_file \<Rightarrow> BudgetGate \<Rightarrow> BudgetRefuse + BudgetGate"
where
  "refresh dec io d g =
     (case ledger_path g of
        None \<Rightarrow> Inr g
      | Some _ \<Rightarrow>
          try_bind (fold_ledger dec io d (legacy_base g))
            (\<lambda>folded. Inr (g\<lparr>spent := f_spent folded, counted_attempts := f_counted folded\<rparr>)))"

definition acquire_lock :: "budget_io \<Rightarrow> BudgetGate \<Rightarrow> BudgetRefuse + unit" where
  "acquire_lock io g =
     (case ledger_path g of
        None \<Rightarrow> Inr ()
      | Some _ \<Rightarrow> (case lock_fault io of Some e \<Rightarrow> Inl (Persist e) | None \<Rightarrow> Inr ()))"

definition append_record ::
  "(LedgerRecord \<Rightarrow> 'l) \<Rightarrow> budget_io \<Rightarrow> LedgerRecord \<Rightarrow> 'l ledger_file \<Rightarrow> (BudgetRefuse + unit) \<times> 'l ledger_file"
where
  "append_record enc io r d =
     (let written = Some ((case d of None \<Rightarrow> [] | Some ls \<Rightarrow> ls) @ [Text (enc r)])
      in case append_fault io of
           None \<Rightarrow> (Inr (), written)
         | Some (e, reached) \<Rightarrow> (Inl (Persist e), if reached then written else d))"

definition append_spend ::
  "(LedgerRecord \<Rightarrow> 'l) \<Rightarrow> budget_io \<Rightarrow> u64 \<Rightarrow> u64 \<Rightarrow> string option \<Rightarrow> BudgetGate \<Rightarrow> 'l ledger_file \<Rightarrow>
   (BudgetRefuse + unit) \<times> 'l ledger_file"
where
  "append_spend enc io now amount att g d =
     (case ledger_path g of
        None \<Rightarrow> (Inr (), d)
      | Some _ \<Rightarrow>
          append_record enc io
            \<lparr>amount_sats = amount, credit_sats = 0, attempt_id = att, recorded_at = now\<rparr> d)"

definition append_credit ::
  "(LedgerRecord \<Rightarrow> 'l) \<Rightarrow> budget_io \<Rightarrow> u64 \<Rightarrow> string \<Rightarrow> u64 \<Rightarrow> BudgetGate \<Rightarrow> 'l ledger_file \<Rightarrow>
   (BudgetRefuse + unit) \<times> 'l ledger_file"
where
  "append_credit enc io now reconcile_id credit g d =
     (case ledger_path g of
        None \<Rightarrow> (Inr (), d)
      | Some _ \<Rightarrow>
          append_record enc io
            \<lparr>amount_sats = 0, credit_sats = credit, attempt_id = Some reconcile_id, recorded_at = now\<rparr> d)"

definition count_attempt :: "string option \<Rightarrow> BudgetGate \<Rightarrow> BudgetGate" where
  "count_attempt att g =
     (case att of
        Some i \<Rightarrow> g\<lparr>counted_attempts := insert i (counted_attempts g)\<rparr>
      | None \<Rightarrow> g)"

definition reserve ::
  "(LedgerRecord \<Rightarrow> 'l) \<Rightarrow> ('l \<Rightarrow> string + LedgerRecord) \<Rightarrow> budget_io \<Rightarrow> u64 \<Rightarrow> u64 \<Rightarrow> string option \<Rightarrow>
   BudgetGate \<times> 'l ledger_file \<Rightarrow> (BudgetRefuse + unit) \<times> BudgetGate \<times> 'l ledger_file"
where
  "reserve enc dec io now amount att gd =
     (case gd of (g0, d) \<Rightarrow>
      (case acquire_lock io g0 of Inl e \<Rightarrow> (Inl e, g0, d) | Inr _ \<Rightarrow>
      (case refresh dec io d g0 of Inl e \<Rightarrow> (Inl e, g0, d) | Inr g \<Rightarrow>
       if (case att of Some i \<Rightarrow> i \<in> counted_attempts g | None \<Rightarrow> False) then (Inr (), g, d)
       else
      (case check g amount of Inl e \<Rightarrow> (Inl e, g, d) | Inr _ \<Rightarrow>
      (case append_spend enc io now amount att g d of
         (Inl e, d') \<Rightarrow> (Inl e, g, d')
       | (Inr _, d') \<Rightarrow>
           (Inr (), count_attempt att (g\<lparr>spent := saturating_add (spent g) amount\<rparr>), d'))))))"

definition authorize_and_commit ::
  "(LedgerRecord \<Rightarrow> 'l) \<Rightarrow> ('l \<Rightarrow> string + LedgerRecord) \<Rightarrow> budget_io \<Rightarrow> u64 \<Rightarrow> u64 \<Rightarrow>
   BudgetGate \<times> 'l ledger_file \<Rightarrow> (BudgetRefuse + unit) \<times> BudgetGate \<times> 'l ledger_file"
where
  "authorize_and_commit enc dec io now amount gd = reserve enc dec io now amount None gd"

text \<open>The pay effect runs on the state \<open>'w\<close> of the world, after the reserve returned.\<close>

definition authorize_then ::
  "(LedgerRecord \<Rightarrow> 'l) \<Rightarrow> ('l \<Rightarrow> string + LedgerRecord) \<Rightarrow> budget_io \<Rightarrow> u64 \<Rightarrow> u64 \<Rightarrow>
   ('w \<Rightarrow> 'a \<times> 'w) \<Rightarrow> 'w \<Rightarrow> BudgetGate \<times> 'l ledger_file \<Rightarrow>
   (BudgetRefuse + 'a) \<times> 'w \<times> BudgetGate \<times> 'l ledger_file"
where
  "authorize_then enc dec io now amount effect w gd =
     (case reserve enc dec io now amount None gd of
        (Inl e, gd') \<Rightarrow> (Inl e, w, gd')
      | (Inr _, gd') \<Rightarrow> (case effect w of (a, w') \<Rightarrow> (Inr a, w', gd')))"

definition authorize_then_attempt ::
  "(LedgerRecord \<Rightarrow> 'l) \<Rightarrow> ('l \<Rightarrow> string + LedgerRecord) \<Rightarrow> budget_io \<Rightarrow> u64 \<Rightarrow> string \<Rightarrow> u64 \<Rightarrow>
   ('w \<Rightarrow> 'a \<times> 'w) \<Rightarrow> 'w \<Rightarrow> BudgetGate \<times> 'l ledger_file \<Rightarrow>
   (BudgetRefuse + 'a) \<times> 'w \<times> BudgetGate \<times> 'l ledger_file"
where
  "authorize_then_attempt enc dec io now att amount effect w gd =
     (case reserve enc dec io now amount (Some att) gd of
        (Inl e, gd') \<Rightarrow> (Inl e, w, gd')
      | (Inr _, gd') \<Rightarrow> (case effect w of (a, w') \<Rightarrow> (Inr a, w', gd')))"

definition credit_reserve ::
  "(LedgerRecord \<Rightarrow> 'l) \<Rightarrow> ('l \<Rightarrow> string + LedgerRecord) \<Rightarrow> budget_io \<Rightarrow> u64 \<Rightarrow> string \<Rightarrow> u64 \<Rightarrow>
   BudgetGate \<times> 'l ledger_file \<Rightarrow> (BudgetRefuse + unit) \<times> BudgetGate \<times> 'l ledger_file"
where
  "credit_reserve enc dec io now reconcile_id credit gd =
     (case gd of (g0, d) \<Rightarrow>
      if credit = 0 then (Inr (), g0, d)
      else
      (case acquire_lock io g0 of Inl e \<Rightarrow> (Inl e, g0, d) | Inr _ \<Rightarrow>
      (case refresh dec io d g0 of Inl e \<Rightarrow> (Inl e, g0, d) | Inr g \<Rightarrow>
       if reconcile_id \<in> counted_attempts g then (Inr (), g, d)
       else
      (case append_credit enc io now reconcile_id credit g d of
         (Inl e, d') \<Rightarrow> (Inl e, g, d')
       | (Inr _, d') \<Rightarrow>
           (Inr (), count_attempt (Some reconcile_id) (g\<lparr>spent := saturating_sub (spent g) credit\<rparr>), d')))))"

section \<open>Facts about the fold\<close>

definition codec_ok :: "('r \<Rightarrow> 'l) \<Rightarrow> ('l \<Rightarrow> string + 'r) \<Rightarrow> bool" where
  "codec_ok enc dec \<longleftrightarrow> (\<forall>r. dec (enc r) = Inr r)"

definition base_of :: "FoldedSpent option \<Rightarrow> FoldedSpent" where
  "base_of b = (case b of Some f \<Rightarrow> f | None \<Rightarrow> FoldedSpent_default)"

definition lines_of :: "'l ledger_file \<Rightarrow> 'l line list" where
  "lines_of d = (case d of None \<Rightarrow> [] | Some ls \<Rightarrow> ls)"

definition folded_view ::
  "('l \<Rightarrow> string + LedgerRecord) \<Rightarrow> FoldedSpent option \<Rightarrow> 'l ledger_file \<Rightarrow> BudgetRefuse + FoldedSpent"
where
  "folded_view dec base d = try_fold (fold_line dec) (base_of base) (lines_of d)"

lemma lines_of_simps [simp]: "lines_of None = []" "lines_of (Some ls) = ls"
  by (simp_all add: lines_of_def)

lemma fold_ledger_Inr:
  "fold_ledger dec io d base = Inr f \<longleftrightarrow>
     folded_view dec base d = Inr f \<and> (d = None \<or> read_fault io = None)"
  by (cases d) (auto simp: fold_ledger_def folded_view_def base_of_def Let_def split: option.splits)

lemma fold_ledger_read:
  "folded_view dec base d = Inr f \<Longrightarrow> read_fault io = None \<Longrightarrow> fold_ledger dec io d base = Inr f"
  by (simp add: fold_ledger_Inr)

lemma fold_lines_error: "try_fold (fold_line dec) f ls = Inl e \<Longrightarrow> \<exists>m. e = Persist m"
proof (induction ls arbitrary: f)
  case (Cons l ls)
  then show ?case by (cases l) (auto simp: try_bind_def map_err_def split: sum.splits)
qed simp

lemma fold_ledger_error: "fold_ledger dec io d base = Inl e \<Longrightarrow> \<exists>m. e = Persist m"
  by (auto simp: fold_ledger_def Let_def split: option.splits dest: fold_lines_error)

lemma refresh_error: "refresh dec io d g = Inl e \<Longrightarrow> \<exists>m. e = Persist m"
  by (auto simp: refresh_def try_bind_def split: option.splits sum.splits dest: fold_ledger_error)

lemma fold_line_counted:
  "fold_line dec f l = Inr f' \<Longrightarrow> f_counted f \<subseteq> f_counted f'"
  by (cases l) (auto simp: fold_record_def elim!: try_bind_InrE split: option.splits if_splits)

interpretation ledger: journal_fold "fold_line dec" "\<lambda>_. True" "\<lambda>f f'. f_counted f \<subseteq> f_counted f'"
  for dec :: "'l \<Rightarrow> string + LedgerRecord"
  by unfold_locales (auto dest: fold_line_counted)

lemma folded_view_snoc:
  assumes "codec_ok enc dec" and "folded_view dec base d = Inr f"
  shows "folded_view dec base (Some (lines_of d @ [Text (enc r)])) = Inr (fold_record f r)"
  using assms by (simp add: folded_view_def codec_ok_def)

lemmas gate_ops = acquire_lock_def refresh_def check_def append_spend_def append_credit_def
  append_record_def count_attempt_def Let_def

text \<open>What a reserve does to the disk: nothing, or one record that passed every check.\<close>

lemma reserve_disk:
  assumes "reserve enc dec io now amount att (g, d) = (res, g', d')"
  shows "d' = d \<or>
    (\<exists>f. ledger_path g \<noteq> None \<and> folded_view dec (legacy_base g) d = Inr f \<and>
         (\<forall>i. att = Some i \<longrightarrow> i \<notin> f_counted f) \<and> amount \<le> per_job_cap g \<and>
         d' = Some (lines_of d @ [Text (enc
           \<lparr>amount_sats = amount, credit_sats = 0, attempt_id = att, recorded_at = now\<rparr>)]))"
  using assms
  by (auto simp: reserve_def gate_ops fold_ledger_Inr lines_of_def
           split: sum.splits if_splits option.splits prod.splits elim!: try_bind_InrE)

lemma reserve_frame:
  assumes "reserve enc dec io now amount att (g, d) = (res, g', d')"
  shows "per_job_cap g' = per_job_cap g \<and> ledger_path g' = ledger_path g \<and> legacy_base g' = legacy_base g"
  using assms
  by (auto simp: reserve_def gate_ops
           split: sum.splits if_splits option.splits prod.splits elim!: try_bind_InrE)

lemma credit_disk:
  assumes "credit_reserve enc dec io now rid credit (g, d) = (res, g', d')"
  shows "d' = d \<or>
    (\<exists>f. ledger_path g \<noteq> None \<and> folded_view dec (legacy_base g) d = Inr f \<and> rid \<notin> f_counted f \<and>
         d' = Some (lines_of d @ [Text (enc
           \<lparr>amount_sats = 0, credit_sats = credit, attempt_id = Some rid, recorded_at = now\<rparr>)]))"
  using assms
  by (auto simp: credit_reserve_def gate_ops fold_ledger_Inr lines_of_def
           split: sum.splits if_splits option.splits prod.splits elim!: try_bind_InrE)

lemma credit_frame:
  assumes "credit_reserve enc dec io now rid credit (g, d) = (res, g', d')"
  shows "per_job_cap g' = per_job_cap g \<and> ledger_path g' = ledger_path g \<and> legacy_base g' = legacy_base g"
  using assms
  by (auto simp: credit_reserve_def gate_ops
           split: sum.splits if_splits option.splits prod.splits elim!: try_bind_InrE)

text \<open>After a reserve or a credit that returned, the cache is the fold of the disk.\<close>

definition cache_of :: "BudgetGate \<Rightarrow> FoldedSpent" where
  "cache_of g = \<lparr>f_spent = spent g, f_counted = counted_attempts g\<rparr>"

lemma cache_of_fold_spend:
  assumes "\<forall>i. att = Some i \<longrightarrow> i \<notin> counted_attempts g"
  shows "cache_of (count_attempt att (g\<lparr>spent := saturating_add (spent g) amount\<rparr>)) =
     fold_record (cache_of g) \<lparr>amount_sats = amount, credit_sats = 0, attempt_id = att, recorded_at = now\<rparr>"
  using assms by (auto simp: cache_of_def count_attempt_def fold_record_def apply_amounts_def split: option.splits)

lemma cache_of_fold_credit:
  assumes "rid \<notin> counted_attempts g"
  shows "cache_of (count_attempt (Some rid) (g\<lparr>spent := saturating_sub (spent g) credit\<rparr>)) =
     fold_record (cache_of g) \<lparr>amount_sats = 0, credit_sats = credit, attempt_id = Some rid, recorded_at = now\<rparr>"
  using assms by (auto simp: cache_of_def count_attempt_def fold_record_def apply_amounts_def)

lemma refresh_durable:
  assumes "refresh dec io d g = Inr g'" and "ledger_path g \<noteq> None"
  shows "folded_view dec (legacy_base g) d = Inr (cache_of g')"
    and "legacy_base g' = legacy_base g" and "ledger_path g' = ledger_path g"
    and "per_job_cap g' = per_job_cap g"
  using assms
  by (auto simp: refresh_def cache_of_def fold_ledger_Inr elim!: try_bind_InrE split: option.splits)

lemma reserve_success_cases:
  assumes "reserve enc dec io now amount att (g, d) = (Inr (), g', d')" and "ledger_path g \<noteq> None"
  obtains (counted) i where "att = Some i" "i \<in> counted_attempts g'" "d' = d"
      "folded_view dec (legacy_base g) d = Inr (cache_of g')"
  | (appended) g1 where "refresh dec io d g = Inr g1" "\<forall>i. att = Some i \<longrightarrow> i \<notin> counted_attempts g1"
      "amount \<le> per_job_cap g"
      "g' = count_attempt att (g1\<lparr>spent := saturating_add (spent g1) amount\<rparr>)"
      "d' = Some (lines_of d @ [Text (enc
           \<lparr>amount_sats = amount, credit_sats = 0, attempt_id = att, recorded_at = now\<rparr>)])"
proof -
  obtain g1 where g1: "refresh dec io d g = Inr g1"
    using assms by (auto simp: reserve_def split: sum.splits)
  note r = refresh_durable [OF g1 assms(2)]
  show thesis
  proof (cases "case att of Some i \<Rightarrow> i \<in> counted_attempts g1 | None \<Rightarrow> False")
    case True
    then obtain i where "att = Some i" "i \<in> counted_attempts g1" by (auto split: option.splits)
    then show thesis using assms(1) g1 r(1)
      by (intro counted [of i]) (auto simp: reserve_def split: sum.splits)
  next
    case False
    then show thesis using assms g1 r
      by (intro appended [OF g1])
         (auto simp: reserve_def check_def append_spend_def append_record_def lines_of_def Let_def
               split: sum.splits option.splits if_splits prod.splits)
  qed
qed

lemma reserve_coherent:
  assumes "codec_ok enc dec" and "ledger_path g \<noteq> None"
    and "reserve enc dec io now amount att (g, d) = (Inr (), g', d')"
  shows "folded_view dec (legacy_base g) d' = Inr (cache_of g')"
  using assms(3,2)
proof (cases rule: reserve_success_cases)
  case counted
  then show ?thesis by simp
next
  case (appended g1)
  then show ?thesis
    using folded_view_snoc [OF assms(1) refresh_durable(1) [OF appended(1) assms(2)]]
      cache_of_fold_spend [of att g1 amount now] by simp
qed

lemma credit_success:
  assumes codec: "codec_ok enc dec" and durable: "ledger_path g \<noteq> None" and credit: "credit \<noteq> 0"
    and res: "credit_reserve enc dec io now rid credit (g, d) = (Inr (), g', d')"
  obtains g1 where "refresh dec io d g = Inr g1" "rid \<in> counted_attempts g'"
    "folded_view dec (legacy_base g) d' = Inr (cache_of g')"
    "spent g' = (if rid \<in> counted_attempts g1 then spent g1 else saturating_sub (spent g1) credit)"
proof -
  obtain g1 where g1: "refresh dec io d g = Inr g1"
    using res credit by (auto simp: credit_reserve_def split: sum.splits)
  note r = refresh_durable [OF g1 durable]
  show thesis
  proof (cases "rid \<in> counted_attempts g1")
    case True
    then have "g' = g1" and "d' = d"
      using res credit g1 by (auto simp: credit_reserve_def split: sum.splits)
    then show thesis using g1 r True by (intro that [OF g1]) simp_all
  next
    case False
    then have g': "g' = count_attempt (Some rid) (g1\<lparr>spent := saturating_sub (spent g1) credit\<rparr>)"
      and d': "d' = Some (lines_of d @ [Text (enc
           \<lparr>amount_sats = 0, credit_sats = credit, attempt_id = Some rid, recorded_at = now\<rparr>)])"
      using res credit g1 r durable
      by (auto simp: credit_reserve_def append_credit_def append_record_def lines_of_def Let_def
               split: sum.splits option.splits prod.splits)
    show thesis
      using g' d' False folded_view_snoc [OF codec r(1)] cache_of_fold_credit [OF False, of credit now]
      by (intro that [OF g1]) (simp_all add: count_attempt_def)
  qed
qed

section \<open>Processes that share one ledger\<close>

text \<open>
  Every operation of \<open>BudgetGate\<close> on the ledger runs under the exclusive lock of
  \<open>spent.lock\<close>, so the processes of one home interleave whole operations. A state is
  the gate of each process and the ledger.
\<close>

record 'l budget_sys =
  gates :: "nat \<Rightarrow> BudgetGate"
  ledger_of :: "'l ledger_file"

inductive budget_step ::
  "(LedgerRecord \<Rightarrow> 'l) \<Rightarrow> ('l \<Rightarrow> string + LedgerRecord) \<Rightarrow> 'l budget_sys \<Rightarrow> 'l budget_sys \<Rightarrow> bool"
  for enc dec where
  step_reserve: "reserve enc dec io now amount att (gates s p, ledger_of s) = (res, g', d') \<Longrightarrow>
     budget_step enc dec s (s\<lparr>gates := (gates s)(p := g'), ledger_of := d'\<rparr>)"
| step_credit: "credit_reserve enc dec io now rid credit (gates s p, ledger_of s) = (res, g', d') \<Longrightarrow>
     budget_step enc dec s (s\<lparr>gates := (gates s)(p := g'), ledger_of := d'\<rparr>)"

inductive budget_run ::
  "(LedgerRecord \<Rightarrow> 'l) \<Rightarrow> ('l \<Rightarrow> string + LedgerRecord) \<Rightarrow> 'l budget_sys \<Rightarrow> 'l budget_sys \<Rightarrow> bool"
  for enc dec where
  run_refl: "budget_run enc dec s s"
| run_step: "budget_run enc dec s t \<Longrightarrow> budget_step enc dec t u \<Longrightarrow> budget_run enc dec s u"

fun ledger_records :: "('l \<Rightarrow> string + LedgerRecord) \<Rightarrow> 'l line list \<Rightarrow> LedgerRecord list" where
  "ledger_records dec [] = []"
| "ledger_records dec (Blank # ls) = ledger_records dec ls"
| "ledger_records dec (Text t # ls) =
     (case dec t of Inl _ \<Rightarrow> ledger_records dec ls | Inr r \<Rightarrow> r # ledger_records dec ls)"

definition record_ids :: "LedgerRecord list \<Rightarrow> string list" where
  "record_ids rs = List.map_filter attempt_id rs"

definition spends :: "FoldedSpent \<Rightarrow> LedgerRecord list \<Rightarrow> u64" where
  "spends base rs = foldl (\<lambda>s r. apply_amounts r s) (f_spent base) rs"

text \<open>
  A sound ledger: it parses, no attempt id occurs in two of its records or in the opening base,
  and its fold counts every record once.
\<close>

definition sound_ledger :: "('l \<Rightarrow> string + LedgerRecord) \<Rightarrow> FoldedSpent option \<Rightarrow> 'l ledger_file \<Rightarrow> bool" where
  "sound_ledger dec base d \<longleftrightarrow>
     (let rs = ledger_records dec (lines_of d); ids = record_ids rs
      in distinct ids \<and> set ids \<inter> f_counted (base_of base) = {} \<and>
         folded_view dec base d =
           Inr \<lparr>f_spent = spends (base_of base) rs, f_counted = f_counted (base_of base) \<union> set ids\<rparr>)"

lemma ledger_records_snoc:
  "codec_ok enc dec \<Longrightarrow> ledger_records dec (ls @ [Text (enc r)]) = ledger_records dec ls @ [r]"
  by (induction dec ls rule: ledger_records.induct) (auto simp: codec_ok_def split: sum.splits)

lemma record_ids_snoc:
  "record_ids (rs @ [r]) = record_ids rs @ (case attempt_id r of None \<Rightarrow> [] | Some i \<Rightarrow> [i])"
  by (simp add: record_ids_def map_filter_def split: option.splits)

lemma sound_ledger_snoc:
  assumes codec: "codec_ok enc dec" and sound: "sound_ledger dec base d"
    and view: "folded_view dec base d = Inr f"
    and fresh: "\<forall>i. attempt_id r = Some i \<longrightarrow> i \<notin> f_counted f"
  shows "sound_ledger dec base (Some (lines_of d @ [Text (enc r)]))"
proof -
  have "f_counted f = f_counted (base_of base) \<union> set (record_ids (ledger_records dec (lines_of d)))"
    and "f_spent f = spends (base_of base) (ledger_records dec (lines_of d))"
    using sound view by (auto simp: sound_ledger_def Let_def)
  then show ?thesis
    using sound fresh folded_view_snoc [OF codec view, of r]
    by (auto simp: sound_ledger_def Let_def ledger_records_snoc [OF codec] record_ids_snoc
          fold_record_def spends_def split: option.splits)
qed

lemma sound_ledger_empty: "sound_ledger dec base None"
  by (simp add: sound_ledger_def folded_view_def record_ids_def spends_def map_filter_def)

definition sys_inv :: "('l \<Rightarrow> string + LedgerRecord) \<Rightarrow> FoldedSpent option \<Rightarrow> u64 \<Rightarrow> 'l budget_sys \<Rightarrow> bool" where
  "sys_inv dec base cap s \<longleftrightarrow>
     (\<forall>p. ledger_path (gates s p) \<noteq> None \<and> legacy_base (gates s p) = base \<and> per_job_cap (gates s p) = cap) \<and>
     sound_ledger dec base (ledger_of s) \<and>
     (\<forall>r \<in> set (ledger_records dec (lines_of (ledger_of s))). amount_sats r \<le> cap)"

lemma budget_step_inv:
  assumes codec: "codec_ok enc dec" and step: "budget_step enc dec s t" and inv: "sys_inv dec base cap s"
  shows "sys_inv dec base cap t"
  using step
proof cases
  case (step_reserve io now amount att p res g' d')
  have sound: "sound_ledger dec base (ledger_of s)" and b: "legacy_base (gates s p) = base"
    and c: "per_job_cap (gates s p) = cap"
    using inv by (simp_all add: sys_inv_def)
  from reserve_disk [OF step_reserve(2)] show ?thesis
  proof
    assume "d' = ledger_of s"
    then show ?thesis using inv step_reserve(1) reserve_frame [OF step_reserve(2)]
      by (simp add: sys_inv_def)
  next
    assume "\<exists>f. ledger_path (gates s p) \<noteq> None \<and>
        folded_view dec (legacy_base (gates s p)) (ledger_of s) = Inr f \<and>
        (\<forall>i. att = Some i \<longrightarrow> i \<notin> f_counted f) \<and> amount \<le> per_job_cap (gates s p) \<and>
        d' = Some (lines_of (ledger_of s) @ [Text (enc
           \<lparr>amount_sats = amount, credit_sats = 0, attempt_id = att, recorded_at = now\<rparr>)])"
    then show ?thesis
      using inv step_reserve(1) reserve_frame [OF step_reserve(2)] b c
        sound_ledger_snoc [OF codec sound]
      by (auto simp: sys_inv_def ledger_records_snoc [OF codec])
  qed
next
  case (step_credit io now rid credit p res g' d')
  have sound: "sound_ledger dec base (ledger_of s)" and b: "legacy_base (gates s p) = base"
    using inv by (simp_all add: sys_inv_def)
  from credit_disk [OF step_credit(2)] show ?thesis
  proof
    assume "d' = ledger_of s"
    then show ?thesis using inv step_credit(1) credit_frame [OF step_credit(2)]
      by (simp add: sys_inv_def)
  next
    assume "\<exists>f. ledger_path (gates s p) \<noteq> None \<and>
        folded_view dec (legacy_base (gates s p)) (ledger_of s) = Inr f \<and> rid \<notin> f_counted f \<and>
        d' = Some (lines_of (ledger_of s) @ [Text (enc
           \<lparr>amount_sats = 0, credit_sats = credit, attempt_id = Some rid, recorded_at = now\<rparr>)])"
    then show ?thesis
      using inv step_credit(1) credit_frame [OF step_credit(2)] b
        sound_ledger_snoc [OF codec sound]
      by (auto simp: sys_inv_def ledger_records_snoc [OF codec])
  qed
qed

lemma budget_run_inv:
  assumes "codec_ok enc dec" and "budget_run enc dec s t" and "sys_inv dec base cap s"
  shows "sys_inv dec base cap t"
  using assms(2,3) by (induction rule: budget_run.induct) (auto intro: budget_step_inv [OF assms(1)])

section \<open>Properties\<close>

definition io_ok :: budget_io where
  "io_ok = \<lparr>lock_fault = None, read_fault = None, append_fault = None\<rparr>"

text \<open>C10. Buyer processes that share one home, each with the same cap and the same legacy base, and
  an initially absent ledger: whatever reserves and credits they interleave, and whatever I/O
  faults hit them (a failed append may still have reached the file), no attempt id is recorded
  twice, every record respects the per-job cap, and the fold of the ledger counts every record
  exactly once.\<close>

theorem budget_counts_once_across_processes:
  assumes codec: "codec_ok enc dec"
    and start: "ledger_of s = None"
      "\<forall>p. ledger_path (gates s p) \<noteq> None \<and> legacy_base (gates s p) = base \<and> per_job_cap (gates s p) = cap"
    and run: "budget_run enc dec s t"
    and recs: "rs = ledger_records dec (lines_of (ledger_of t))"
  shows "distinct (record_ids rs) \<and> set (record_ids rs) \<inter> f_counted (base_of base) = {} \<and>
    (\<forall>r \<in> set rs. amount_sats r \<le> cap) \<and>
    fold_ledger dec io_ok (ledger_of t) base =
      Inr \<lparr>f_spent = spends (base_of base) rs, f_counted = f_counted (base_of base) \<union> set (record_ids rs)\<rparr>"
proof -
  have "sys_inv dec base cap s" using start by (simp add: sys_inv_def sound_ledger_empty)
  from budget_run_inv [OF codec run this] have "sys_inv dec base cap t" .
  then show ?thesis
    by (simp add: sys_inv_def sound_ledger_def Let_def recs fold_ledger_Inr io_ok_def)
qed

definition demo_gate :: BudgetGate where
  "demo_gate = \<lparr>per_job_cap = 30, spent = 0, counted_attempts = {},
     ledger_path = Some ''/home/spent.jsonl'', legacy_base = None\<rparr>"

definition demo_sys :: "LedgerRecord budget_sys" where
  "demo_sys = \<lparr>gates = (\<lambda>_. demo_gate), ledger_of = None\<rparr>"

lemma codec_ok_id [simp]: "codec_ok id Inr"
  by (simp add: codec_ok_def)

lemma demo_reserve:
  "reserve id Inr io_ok 7 21 (Some ''a'') (demo_gate, None) =
     (Inr (), demo_gate\<lparr>spent := 21, counted_attempts := {''a''}\<rparr>,
      Some [Text \<lparr>amount_sats = 21, credit_sats = 0, attempt_id = Some ''a'', recorded_at = 7\<rparr>])"
  by (simp add: reserve_def gate_ops demo_gate_def io_ok_def fold_ledger_def FoldedSpent_default_def)

theorem budget_counts_once_across_processes_witness:
  "record_ids (ledger_records Inr [Text \<lparr>amount_sats = 21, credit_sats = 0,
     attempt_id = Some ''a'', recorded_at = 7\<rparr>]) = [''a''] \<and>
   fold_ledger Inr io_ok (Some [Text \<lparr>amount_sats = 21, credit_sats = 0, attempt_id = Some ''a'',
     recorded_at = 7\<rparr>]) None = Inr \<lparr>f_spent = 21, f_counted = {''a''}\<rparr>"
proof -
  let ?t = "demo_sys\<lparr>gates := (gates demo_sys)(0 := demo_gate\<lparr>spent := 21, counted_attempts := {''a''}\<rparr>),
    ledger_of := Some [Text \<lparr>amount_sats = 21, credit_sats = 0, attempt_id = Some ''a'', recorded_at = 7\<rparr>]\<rparr>"
  have "budget_step id Inr demo_sys ?t"
    using demo_reserve by (intro step_reserve [where p = 0]) (simp add: demo_sys_def)
  then have run: "budget_run id Inr demo_sys ?t" by (rule run_step [OF run_refl])
  show ?thesis
    using budget_counts_once_across_processes [OF codec_ok_id _ _ run refl, of None 30]
    by (simp add: demo_sys_def demo_gate_def base_of_def FoldedSpent_default_def spends_def
          apply_amounts_def record_ids_def map_filter_def saturating_add_def saturating_sub_def)
qed

text \<open>Write-before-effect survives a restart: after a reserve that returned, a gate opened
  afresh from the same home has the same spent total and the same counted attempts as the gate
  that reserved, so restarting never gives allowance back.\<close>

theorem budget_restart_keeps_spend:
  assumes codec: "codec_ok enc dec" and durable: "ledger_path g \<noteq> None"
    and res: "reserve enc dec io now amount att (g, d) = (Inr (), g', d')"
    and base: "load_legacy_base toml io_ok legacy = Inr (legacy_base g)"
  shows "\<exists>h. from_home dec toml io_ok root cap legacy d' = Inr h \<and>
     spent h = spent g' \<and> counted_attempts h = counted_attempts g'"
proof -
  have "fold_ledger dec io_ok d' (legacy_base g) = Inr (cache_of g')"
    using reserve_coherent [OF codec durable res] by (simp add: fold_ledger_Inr io_ok_def)
  then show ?thesis by (simp add: from_home_def base cache_of_def)
qed

theorem budget_restart_keeps_spend_witness:
  "\<exists>h. from_home Inr (\<lambda>_::unit. Inl ''none'') io_ok ''/home'' 30 None
      (Some [Text \<lparr>amount_sats = 21, credit_sats = 0, attempt_id = Some ''a'', recorded_at = 7\<rparr>]) = Inr h \<and>
     spent h = 21 \<and> counted_attempts h = {''a''}"
  using budget_restart_keeps_spend [OF codec_ok_id _ demo_reserve, of "\<lambda>_::unit. Inl ''none''" None "''/home''" 30]
  by (simp add: demo_gate_def load_legacy_base_def)

text \<open>A refused authorization never runs the pay effect, and a per-job refusal leaves the
  ledger as it was; an uncounted amount above the cap is always refused this way when the lock
  and the read succeed.\<close>

theorem budget_refuse_before_effect:
  assumes "authorize_then_attempt enc dec io now i amount effect w (g, d) = (Inl e, w', g', d')"
  shows "w' = w \<and> ((\<exists>a c. e = PerJob a c) \<longrightarrow> d' = d \<and> amount > per_job_cap g)"
proof -
  have r: "reserve enc dec io now amount (Some i) (g, d) = (Inl e, g', d')" and w: "w' = w"
    using assms by (auto simp: authorize_then_attempt_def split: sum.splits prod.splits)
  then have "d' = d \<and> amount > per_job_cap g" if "e = PerJob a c" for a c
  proof (cases "refresh dec io d g")
    case (Inl e')
    with r that refresh_error [OF Inl] show ?thesis
      by (auto simp: reserve_def acquire_lock_def split: sum.splits option.splits)
  next
    case (Inr g1)
    then have "per_job_cap g1 = per_job_cap g"
      by (auto simp: refresh_def split: option.splits elim!: try_bind_InrE)
    with r that Inr show ?thesis
      by (auto simp: reserve_def acquire_lock_def check_def append_spend_def append_record_def Let_def
               split: sum.splits option.splits if_splits prod.splits)
  qed
  with w show ?thesis by blast
qed

theorem budget_refuse_before_effect_witness:
  "case authorize_then_attempt id Inr io_ok 7 ''a'' 31 (\<lambda>n::nat. ((), Suc n)) 0 (demo_gate, None) of
     (r, w, g, d) \<Rightarrow> r = Inl (PerJob 31 30) \<and> w = 0 \<and> d = None"
proof -
  have h: "authorize_then_attempt id Inr io_ok 7 ''a'' 31 (\<lambda>n::nat. ((), Suc n)) 0 (demo_gate, None) =
    (Inl (PerJob 31 30), 0, demo_gate, None)"
    by (simp add: authorize_then_attempt_def reserve_def gate_ops demo_gate_def io_ok_def
          fold_ledger_def FoldedSpent_default_def)
  from budget_refuse_before_effect [OF h] show ?thesis by (simp add: h)
qed

text \<open>A reconciled retry does not count twice: once an attempt was authorized on a durable
  gate, authorizing it again (by this process, or by any process opened on the same ledger and
  base) for any amount runs the effect, appends nothing, and leaves the spent total as it was,
  provided the lock and the read succeed.\<close>

theorem budget_retry_counts_once:
  assumes codec: "codec_ok enc dec" and durable: "ledger_path g \<noteq> None" "ledger_path h \<noteq> None"
    and base: "legacy_base h = legacy_base g"
    and first: "reserve enc dec io now amount (Some i) (g, d) = (Inr (), g', d')"
    and io: "lock_fault io' = None" "read_fault io' = None"
  shows "\<exists>h'. authorize_then_attempt enc dec io' now' i amount' effect w (h, d') =
      (Inr (fst (effect w)), snd (effect w), h', d') \<and> spent h' = spent g'"
proof -
  have "folded_view dec (legacy_base g) d' = Inr (cache_of g')"
    by (rule reserve_coherent [OF codec durable(1) first])
  then have r: "refresh dec io' d' h =
      Inr (h\<lparr>spent := spent g', counted_attempts := counted_attempts g'\<rparr>)"
    using durable(2) base io(2) by (auto simp: refresh_def fold_ledger_read cache_of_def)
  have "i \<in> counted_attempts g'"
    using first durable(1) by (cases rule: reserve_success_cases) (auto simp: count_attempt_def)
  then show ?thesis using r io durable(2)
    by (auto simp: authorize_then_attempt_def reserve_def acquire_lock_def split: prod.splits option.splits)
qed

theorem budget_retry_counts_once_witness:
  "\<exists>h'. authorize_then_attempt id Inr io_ok 9 ''a'' 25 (\<lambda>n::nat. (n, Suc n)) 0 (demo_gate,
       Some [Text \<lparr>amount_sats = 21, credit_sats = 0, attempt_id = Some ''a'', recorded_at = 7\<rparr>]) =
     (Inr 0, 1, h', Some [Text \<lparr>amount_sats = 21, credit_sats = 0, attempt_id = Some ''a'', recorded_at = 7\<rparr>]) \<and>
     spent h' = 21"
  using budget_retry_counts_once [OF codec_ok_id _ _ refl demo_reserve, of io_ok 9 25 "\<lambda>n::nat. (n, Suc n)" 0]
  by (simp add: demo_gate_def io_ok_def)

text \<open>The unused Lightning reserve is credited back at most once: a credit under a fresh
  reconcile id lowers the folded total by exactly that credit (never below zero), and any later
  credit under the same id, from any process on the same ledger, appends nothing and leaves
  the total alone.\<close>

theorem budget_credit_once:
  assumes codec: "codec_ok enc dec" and durable: "ledger_path g \<noteq> None" "ledger_path h \<noteq> None"
    and base: "legacy_base h = legacy_base g" and credit: "credit \<noteq> 0" "credit' \<noteq> 0"
    and first: "credit_reserve enc dec io now rid credit (g, d) = (Inr (), g', d')"
    and before: "folded_view dec (legacy_base g) d = Inr f" "rid \<notin> f_counted f"
    and io: "lock_fault io' = None" "read_fault io' = None"
  shows "unat (spent g') = unat (f_spent f) - unat credit \<and>
    (\<exists>h'. credit_reserve enc dec io' now' rid credit' (h, d') = (Inr (), h', d') \<and> spent h' = spent g')"
proof -
  from credit_success [OF codec durable(1) credit(1) first] obtain g1 where
    g1: "refresh dec io d g = Inr g1" and c: "rid \<in> counted_attempts g'"
    and v: "folded_view dec (legacy_base g) d' = Inr (cache_of g')"
    and s: "spent g' = (if rid \<in> counted_attempts g1 then spent g1 else saturating_sub (spent g1) credit)" .
  have "f = cache_of g1" using refresh_durable(1) [OF g1 durable(1)] before(1) by simp
  then have "unat (spent g') = unat (f_spent f) - unat credit"
    using s before(2) by (simp add: cache_of_def unat_saturating_sub)
  moreover have "refresh dec io' d' h =
      Inr (h\<lparr>spent := spent g', counted_attempts := counted_attempts g'\<rparr>)"
    using durable(2) base io(2) v by (auto simp: refresh_def fold_ledger_read cache_of_def)
  ultimately show ?thesis using c io(1) credit(2)
    by (auto simp: credit_reserve_def acquire_lock_def split: option.splits)
qed

theorem budget_credit_once_witness:
  "\<exists>h'. credit_reserve id Inr io_ok 9 ''a:ln'' 3 (demo_gate,
      Some [Text \<lparr>amount_sats = 21, credit_sats = 0, attempt_id = Some ''a'', recorded_at = 7\<rparr>,
            Text \<lparr>amount_sats = 0, credit_sats = 5, attempt_id = Some ''a:ln'', recorded_at = 8\<rparr>]) =
      (Inr (), h', Some [Text \<lparr>amount_sats = 21, credit_sats = 0, attempt_id = Some ''a'', recorded_at = 7\<rparr>,
            Text \<lparr>amount_sats = 0, credit_sats = 5, attempt_id = Some ''a:ln'', recorded_at = 8\<rparr>]) \<and>
      spent h' = 16"
proof -
  let ?d = "Some [Text \<lparr>amount_sats = 21, credit_sats = 0, attempt_id = Some ''a'', recorded_at = 7\<rparr>]"
  have first: "credit_reserve id Inr io_ok 8 ''a:ln'' 5 (demo_gate, ?d) =
     (Inr (), demo_gate\<lparr>spent := 16, counted_attempts := {''a:ln'', ''a''}\<rparr>,
      Some [Text \<lparr>amount_sats = 21, credit_sats = 0, attempt_id = Some ''a'', recorded_at = 7\<rparr>,
            Text \<lparr>amount_sats = 0, credit_sats = 5, attempt_id = Some ''a:ln'', recorded_at = 8\<rparr>])"
    by (simp add: credit_reserve_def gate_ops demo_gate_def io_ok_def fold_ledger_def
          FoldedSpent_default_def fold_record_def apply_amounts_def saturating_add_def saturating_sub_def)
  have before: "folded_view Inr (legacy_base demo_gate) ?d = Inr \<lparr>f_spent = 21, f_counted = {''a''}\<rparr>"
    by (simp add: folded_view_def demo_gate_def base_of_def FoldedSpent_default_def fold_record_def
          apply_amounts_def saturating_add_def saturating_sub_def)
  show ?thesis
    using budget_credit_once [OF codec_ok_id _ _ refl _ _ first before, of 3 io_ok 9]
    by (simp add: demo_gate_def io_ok_def)
qed

end
