(* ===== verification/Receipt.thy ===== *)
theory Receipt
  imports Prelude
begin

text \<open>
  The co-signed receipt preimage of \<^verbatim>\<open>maxplayer-core/src/receipt.rs\<close>. The signed bytes
  are the JSON text of an array of values in a fixed order; the array is modelled as a list of
  JSON values, and the printer of \<open>serde_json\<close> and SHA-256 are arguments. The lemmas show
  that the array determines every field of the preimage, so that a co-signature binds them all.
\<close>

datatype ReceiptProtocol = ProtoV1 | ProtoV2

definition RECEIPT_PREIMAGE_DOMAIN :: string where
  "RECEIPT_PREIMAGE_DOMAIN = ''maxplayer/v1/receipt-preimage''"

definition RECEIPT_PREIMAGE_DOMAIN_V2 :: string where
  "RECEIPT_PREIMAGE_DOMAIN_V2 = ''maxplayer/v2/receipt-preimage''"

fun domain_of :: "ReceiptProtocol \<Rightarrow> string" where
  "domain_of ProtoV1 = RECEIPT_PREIMAGE_DOMAIN"
| "domain_of ProtoV2 = RECEIPT_PREIMAGE_DOMAIN_V2"

definition EXEC_METADATA_COMMITMENT_EMPTY :: string where
  "EXEC_METADATA_COMMITMENT_EMPTY = ''none''"

datatype DeliveryKind = Fork | Inline

fun DeliveryKind_as_str :: "DeliveryKind \<Rightarrow> string" where
  "DeliveryKind_as_str Fork = ''fork''"
| "DeliveryKind_as_str Inline = ''inline''"

record ReceiptPreimage =
  protocol :: ReceiptProtocol
  pre_job_hash :: string
  offer_id :: string
  pre_amount :: u64
  pre_unit :: string
  buyer_pubkey :: string
  pre_seller_pubkey :: string
  pre_delivery_integrity_hash :: string
  delivery_kind :: string
  exec_metadata_commitment_of :: string
  pre_creq_hash :: "string option"

datatype json = JStr string | JNum u64

definition canonical_fields :: "ReceiptPreimage \<Rightarrow> json list" where
  "canonical_fields p =
     [JStr (domain_of (protocol p)), JStr (pre_job_hash p), JStr (offer_id p), JNum (pre_amount p),
      JStr (pre_unit p), JStr (buyer_pubkey p), JStr (pre_seller_pubkey p),
      JStr (pre_delivery_integrity_hash p), JStr (delivery_kind p),
      JStr (exec_metadata_commitment_of p)] @
     (case pre_creq_hash p of None \<Rightarrow> [] | Some h \<Rightarrow> [JStr h])"

text \<open>SHA-256, the JSON printer and Schnorr verification (parsing of the signature and of the
  key included) as the code calls them.\<close>

record crypto =
  json_text :: "json list \<Rightarrow> string"
  sha256 :: "string \<Rightarrow> string"
  schnorr_ok :: "string \<Rightarrow> string \<Rightarrow> string \<Rightarrow> bool"

definition canonical_json :: "crypto \<Rightarrow> ReceiptPreimage \<Rightarrow> string" where
  "canonical_json c p = json_text c (canonical_fields p)"

definition digest_bytes :: "crypto \<Rightarrow> ReceiptPreimage \<Rightarrow> string" where
  "digest_bytes c p = sha256 c (canonical_json c p)"

definition exec_metadata_commitment :: "crypto \<Rightarrow> ('t list \<Rightarrow> string) \<Rightarrow> 't list \<Rightarrow> string" where
  "exec_metadata_commitment c tags_json tags =
     (if tags = [] then EXEC_METADATA_COMMITMENT_EMPTY else sha256 c (tags_json tags))"

lemma domain_of_inj [simp]: "domain_of a = domain_of b \<longleftrightarrow> a = b"
  by (cases a; cases b) (simp_all add: RECEIPT_PREIMAGE_DOMAIN_def RECEIPT_PREIMAGE_DOMAIN_V2_def)

lemma canonical_fields_inj: "canonical_fields p = canonical_fields q \<Longrightarrow> p = q"
  by (auto simp: canonical_fields_def split: option.splits)

text \<open>An injective printer, one tag per character, for the concrete instances below.\<close>

fun demo_item :: "json \<Rightarrow> string" where
  "demo_item (JStr s) = concat (map (\<lambda>c. [CHR ''s'', c]) s) @ '';''"
| "demo_item (JNum n) = replicate (unat n) (CHR ''n'') @ ''!''"

definition demo_json :: "json list \<Rightarrow> string" where
  "demo_json js = concat (map demo_item js)"

lemma demo_str_inj:
  "concat (map (\<lambda>c. [CHR ''s'', c]) s) @ CHR '';'' # x = concat (map (\<lambda>c. [CHR ''s'', c]) t) @ CHR '';'' # y \<longleftrightarrow>
   s = t \<and> x = y"
proof (induction s arbitrary: t)
  case Nil
  show ?case by (cases t) auto
next
  case (Cons c s)
  then show ?case by (cases t) auto
qed

lemma demo_num_inj:
  "replicate m (CHR ''n'') @ CHR ''!'' # x = replicate n (CHR ''n'') @ CHR ''!'' # y \<longleftrightarrow> m = n \<and> x = y"
proof (induction m arbitrary: n)
  case 0
  show ?case by (cases n) auto
next
  case (Suc m)
  then show ?case by (cases n) auto
qed

lemma demo_item_inj: "demo_item a @ x = demo_item b @ y \<longleftrightarrow> a = b \<and> x = y"
proof (cases a; cases b)
  fix s n
  show "a = JStr s \<Longrightarrow> b = JNum n \<Longrightarrow> ?thesis" by (cases s; cases "unat n") auto
  show "a = JNum n \<Longrightarrow> b = JStr s \<Longrightarrow> ?thesis" by (cases s; cases "unat n") auto
qed (auto simp: demo_str_inj demo_num_inj word_unat_eq_iff)

lemma demo_json_inj: "inj demo_json"
proof (rule injI)
  show "demo_json js = demo_json ks \<Longrightarrow> js = ks" for js ks
  proof (induction js arbitrary: ks)
    case Nil
    then show ?case by (cases ks; cases "hd ks") (auto simp: demo_json_def)
  next
    case (Cons j js)
    have "demo_item j @ demo_json js \<noteq> []" by (cases j) auto
    with Cons show ?case by (cases ks) (auto simp: demo_json_def demo_item_inj)
  qed
qed

definition demo_preimage :: ReceiptPreimage where
  "demo_preimage = \<lparr>protocol = ProtoV2, pre_job_hash = ''jh'', offer_id = ''job'', pre_amount = 21,
     pre_unit = ''sat'', buyer_pubkey = ''buyer'', pre_seller_pubkey = ''seller'',
     pre_delivery_integrity_hash = ''commit'', delivery_kind = ''fork'',
     exec_metadata_commitment_of = ''none'', pre_creq_hash = None\<rparr>"

definition demo_crypto :: crypto where
  "demo_crypto = \<lparr>json_text = demo_json, sha256 = id,
     schnorr_ok = (\<lambda>sig digest anchor. sig = ''sig:'' @ anchor)\<rparr>"

text \<open>C30. The co-signed digest commits to every field of the receipt preimage, the protocol
  version and the presence of the payment-request hash included: with a JSON printer that prints
  different arrays differently, two preimages have the same digest only if they are equal or the
  two texts that are hashed are a SHA-256 collision.\<close>

theorem receipt_digest_binds_every_field:
  assumes "inj (json_text c)"
  shows "digest_bytes c p = digest_bytes c q \<longleftrightarrow>
    p = q \<or> (canonical_json c p \<noteq> canonical_json c q \<and>
      sha256 c (canonical_json c p) = sha256 c (canonical_json c q))"
  using assms by (auto simp: digest_bytes_def canonical_json_def dest: injD canonical_fields_inj)

theorem receipt_digest_binds_every_field_witness:
  "digest_bytes demo_crypto demo_preimage \<noteq>
   digest_bytes demo_crypto (demo_preimage\<lparr>pre_creq_hash := Some ''creq''\<rparr>)"
  by (subst receipt_digest_binds_every_field) (simp_all add: demo_crypto_def demo_json_inj demo_preimage_def)

end
