(* ===== verification/Payment.thy ===== *)
theory Payment
  imports Receipt
begin

text \<open>
  The durable trade-payment state machine of \<^verbatim>\<open>maxplayer-core/src/payment.rs\<close>: identity
  and attempt id of a payment, the five-state reducer, the append-only journal, receipt authority,
  and the service that drives a payment from intent to closed.

  Third-party values are opaque: a mint URL, a currency unit and a Nostr key are their canonical
  text, and a token exposes the three readings the code takes of it. The wallet, relay and
  receipt effects are functions on the state \<open>'w\<close> of the world, as the trait
  \<open>PaymentEffects\<close> has them. Error messages that interpolate values are cut before the
  interpolation.
\<close>

section \<open>Identities\<close>

datatype PaymentSent = PaymentSent
  (payment_id_of: string) (relay_success: "string list") (relay_failed: "(string \<times> string) list")

datatype JournalError =
    JIo string
  | JJson string
  | JCorrupt nat string
  | JKeyMismatch

datatype PaymentError =
    InvalidInput string
  | IllegalTransition string string
  | Journal JournalError
  | Delivery string
  | Effect string
  | NoRelayAccepted "string option"
  | AmbiguousSendRefused
  | LockedTokenSpent string
  | LockedTokenMissing string
  | ForgedReceipt
  | Refused string

datatype LockedTokenGate = GateSpent string | GateMissing string | GateEffect string

fun gate_error :: "LockedTokenGate \<Rightarrow> PaymentError" where
  "gate_error (GateSpent detail) = LockedTokenSpent detail"
| "gate_error (GateMissing detail) = LockedTokenMissing detail"
| "gate_error (GateEffect e) = Effect e"

definition nonempty :: "string \<Rightarrow> string \<Rightarrow> PaymentError + string" where
  "nonempty value name = (if value = [] then Inl (InvalidInput (name @ '' is empty'')) else Inr value)"

definition digest_hex :: "string \<Rightarrow> string \<Rightarrow> PaymentError + string" where
  "digest_hex value name =
     (if length value = 64 \<and> list_all is_hex_lower value then Inr value
      else Inl (InvalidInput (name @ '' must be 32-byte lowercase hex'')))"

definition JobId_new :: "string \<Rightarrow> PaymentError + string" where
  "JobId_new value = nonempty value ''job id''"

definition ResultId_new :: "string \<Rightarrow> PaymentError + string" where
  "ResultId_new value = nonempty value ''result id''"

definition DeliveryIntegrityHash_from_hex :: "string \<Rightarrow> PaymentError + string" where
  "DeliveryIntegrityHash_from_hex value =
     (let valid_length = length value = 40 \<or> length value = 64;
          lowercase_hex = list_all is_hex_lower value
      in if valid_length \<and> lowercase_hex then Inr value
         else Inl (InvalidInput ''delivery integrity hash must be full lowercase git or SHA-256 hex''))"

definition JobHash_from_hex :: "string \<Rightarrow> PaymentError + string" where
  "JobHash_from_hex value = digest_hex value ''job hash''"

record PaymentTerms =
  t_mint :: string
  t_amount :: u64
  t_unit :: string
  seller_nostr_pubkey :: string
  seller_p2pk_lock :: string

record PaymentKey =
  job_id :: string
  result_id :: string
  delivery_integrity_hash :: string
  job_hash :: string
  seller_pubkey :: string
  amount :: u64
  unit_of :: string
  mint :: string
  creq_hash :: "string option"
  payment_id :: "string option"

definition PaymentKey_new ::
  "string \<Rightarrow> string \<Rightarrow> string \<Rightarrow> string \<Rightarrow> PaymentTerms \<Rightarrow> string option \<Rightarrow> PaymentKey"
where
  "PaymentKey_new job result delivery jhash terms creq =
     \<lparr>job_id = job, result_id = result, delivery_integrity_hash = delivery, job_hash = jhash,
      seller_pubkey = seller_nostr_pubkey terms, amount = t_amount terms, unit_of = t_unit terms,
      mint = t_mint terms, creq_hash = creq, payment_id = None\<rparr>"

definition with_payment_id :: "string option \<Rightarrow> PaymentKey \<Rightarrow> PaymentKey" where
  "with_payment_id p k = k\<lparr>payment_id := p\<rparr>"

definition payload_id :: "PaymentKey \<Rightarrow> string" where
  "payload_id k = (case payment_id k of Some p \<Rightarrow> p | None \<Rightarrow> job_id k)"

definition ATTEMPT_DOMAIN :: string where
  "ATTEMPT_DOMAIN = ''maxplayer/v1/payment-attempt''"

text \<open>\<open>usize::to_be_bytes\<close> on a 64-bit target: eight bytes, most significant first.\<close>

fun be_bytes :: "nat \<Rightarrow> nat \<Rightarrow> string" where
  "be_bytes 0 n = []"
| "be_bytes (Suc k) n = be_bytes k (n div 256) @ [char_of (n mod 256)]"

definition hash_field :: "string \<Rightarrow> string" where
  "hash_field value = be_bytes 8 (length value) @ value"

definition attempt_fields :: "PaymentKey \<Rightarrow> string list" where
  "attempt_fields k =
     [job_id k, result_id k, delivery_integrity_hash k, job_hash k, seller_pubkey k,
      nat_digits (unat (amount k)), unit_of k, mint k] @
     (case creq_hash k of None \<Rightarrow> [] | Some h \<Rightarrow> [h])"

definition attempt_preimage :: "PaymentKey \<Rightarrow> string" where
  "attempt_preimage k = ATTEMPT_DOMAIN @ concat (map hash_field (attempt_fields k))"

definition attempt_id :: "crypto \<Rightarrow> PaymentKey \<Rightarrow> string" where
  "attempt_id c k = sha256 c (attempt_preimage k)"

section \<open>States and the reducer\<close>

definition RECEIPT_EVENT_KIND :: u16 where
  "RECEIPT_EVENT_KIND = 3400"

record ReceiptRecord =
  receipt_id :: string
  receipt_kind :: u16

datatype PaymentState =
    Intent (st_attempt: string)
  | Locked (st_attempt: string)
  | Sent (st_attempt: string) PaymentSent
  | ReceiptPublished (st_attempt: string) ReceiptRecord
  | Closed (st_attempt: string) ReceiptRecord

record PaymentRecord =
  rec_key :: PaymentKey
  rec_value :: PaymentState

fun state_name :: "PaymentState \<Rightarrow> string" where
  "state_name (Intent _) = ''Intent''"
| "state_name (Locked _) = ''Locked''"
| "state_name (Sent _ _) = ''Sent''"
| "state_name (ReceiptPublished _ _) = ''ReceiptPublished''"
| "state_name (Closed _ _) = ''Closed''"

fun legal :: "PaymentState option \<Rightarrow> PaymentState \<Rightarrow> bool" where
  "legal None (Intent _) = True"
| "legal (Some (Intent a)) (Locked b) = (a = b)"
| "legal (Some (Locked a)) (Sent b _) = (a = b)"
| "legal (Some (Sent a _)) (ReceiptPublished b _) = (a = b)"
| "legal (Some (ReceiptPublished a _)) (Closed b _) = (a = b)"
| "legal _ _ = False"

definition decide :: "PaymentState option \<Rightarrow> PaymentState \<Rightarrow> PaymentError + PaymentState" where
  "decide current next =
     (if \<not> legal current next
      then Inl (IllegalTransition (case current of None \<Rightarrow> ''none'' | Some s \<Rightarrow> state_name s) (state_name next))
      else Inr next)"

definition fold_step :: "PaymentKey \<Rightarrow> PaymentState option \<Rightarrow> PaymentRecord \<Rightarrow> PaymentError + PaymentState option" where
  "fold_step key current record =
     (if rec_key record \<noteq> key
      then Inl (Refused ''journal guard returned a record for another payment key'')
      else try_bind (decide current (rec_value record)) (\<lambda>s. Inr (Some s)))"

definition fold_records :: "PaymentKey \<Rightarrow> PaymentRecord list \<Rightarrow> PaymentError + PaymentState option" where
  "fold_records key records = try_fold (fold_step key) None records"

section \<open>The journal\<close>

text \<open>
  The trait \<open>PaymentJournal\<close> with its guard: locking, replaying, syncing and appending,
  over a journal state \<open>'j\<close>.
\<close>

record 'j journal_ops =
  jlock :: "'j \<Rightarrow> PaymentKey \<Rightarrow> JournalError + 'j"
  jreplay :: "'j \<Rightarrow> JournalError + PaymentRecord list"
  jsync_replay :: "'j \<Rightarrow> JournalError + unit"
  jappend_sync :: "'j \<Rightarrow> PaymentRecord \<Rightarrow> (JournalError + unit) \<times> 'j"

definition current_state :: "'j journal_ops \<Rightarrow> 'j \<Rightarrow> PaymentError + PaymentState option" where
  "current_state J g =
     try_bind (map_err Journal (jreplay J g)) (\<lambda>records.
       case records of [] \<Rightarrow> Inr None | r # _ \<Rightarrow> fold_records (rec_key r) records)"

text \<open>
  The file journal. A file is its committed lines (each ended by a newline) and the bytes after
  the last newline; \<open>'b\<close> stands for a byte other than newline. Each append consumes one
  entry of a fault schedule: nothing reached the file, only a part of the record did, or the
  whole line did but the sync failed. A process that dies during a run behaves as one of these.
\<close>

datatype append_fault = Lost | Torn nat | Unsynced

record 'b fs_journal =
  committed :: "'b list list"
  trailing :: "'b list"
  guard_key :: PaymentKey
  open_fault :: "string option"
  faults :: "append_fault option list"

record 'b record_codec =
  enc_record :: "PaymentRecord \<Rightarrow> 'b list"
  dec_record :: "'b list \<Rightarrow> string + PaymentRecord"

definition fs_lock :: "'b fs_journal \<Rightarrow> PaymentKey \<Rightarrow> JournalError + 'b fs_journal" where
  "fs_lock j key =
     (case open_fault j of Some e \<Rightarrow> Inl (JIo e) | None \<Rightarrow> Inr (j\<lparr>guard_key := key\<rparr>))"

fun replay_lines ::
  "('b list \<Rightarrow> string + PaymentRecord) \<Rightarrow> PaymentKey \<Rightarrow> nat \<Rightarrow> 'b list list \<Rightarrow> JournalError + PaymentRecord list"
where
  "replay_lines dec key index [] = Inr []"
| "replay_lines dec key index (l # ls) =
     (case dec l of
        Inl e \<Rightarrow> Inl (JCorrupt (index + 1) e)
      | Inr record \<Rightarrow>
          if rec_key record \<noteq> key
          then Inl (JCorrupt (index + 1) ''record PaymentKey does not match this journal's attempt key'')
          else try_bind (replay_lines dec key (index + 1) ls) (\<lambda>rs. Inr (record # rs)))"

definition fs_replay :: "'b record_codec \<Rightarrow> 'b fs_journal \<Rightarrow> JournalError + PaymentRecord list" where
  "fs_replay codec j =
     (if trailing j \<noteq> []
      then Inl (JCorrupt (length (committed j) + 1) ''record is missing its commit newline'')
      else replay_lines (dec_record codec) (guard_key j) 0 (committed j))"

definition fs_sync_replay :: "'b fs_journal \<Rightarrow> JournalError + unit" where
  "fs_sync_replay j = (case open_fault j of Some e \<Rightarrow> Inl (JIo e) | None \<Rightarrow> Inr ())"

definition commit_line :: "'b list \<Rightarrow> 'b fs_journal \<Rightarrow> 'b fs_journal" where
  "commit_line bytes j = j\<lparr>committed := committed j @ [trailing j @ bytes], trailing := []\<rparr>"

definition fs_append_sync ::
  "'b record_codec \<Rightarrow> 'b fs_journal \<Rightarrow> PaymentRecord \<Rightarrow> (JournalError + unit) \<times> 'b fs_journal"
where
  "fs_append_sync codec j record =
     (if rec_key record \<noteq> guard_key j then (Inl JKeyMismatch, j)
      else
        (let bytes = enc_record codec record;
             j' = j\<lparr>faults := tl (faults j)\<rparr>;
             fault = (case faults j of [] \<Rightarrow> None | f # _ \<Rightarrow> f)
         in case fault of
              None \<Rightarrow> (Inr (), commit_line bytes j')
            | Some Lost \<Rightarrow> (Inl (JIo ''write''), j')
            | Some (Torn n) \<Rightarrow> (Inl (JIo ''write''), j'\<lparr>trailing := trailing j @ take n bytes\<rparr>)
            | Some Unsynced \<Rightarrow> (Inl (JIo ''sync''), commit_line bytes j')))"

definition fs_ops :: "'b record_codec \<Rightarrow> 'b fs_journal journal_ops" where
  "fs_ops codec = \<lparr>jlock = fs_lock, jreplay = fs_replay codec, jsync_replay = fs_sync_replay,
     jappend_sync = fs_append_sync codec\<rparr>"

text \<open>The mutex-backed journal of the test support: a shared list filtered by key.\<close>

record mem_journal =
  mem_records :: "PaymentRecord list"
  mem_key :: PaymentKey
  sync_count :: nat

definition mem_lock :: "mem_journal \<Rightarrow> PaymentKey \<Rightarrow> JournalError + mem_journal" where
  "mem_lock j key = Inr (j\<lparr>mem_key := key\<rparr>)"

definition mem_replay :: "mem_journal \<Rightarrow> JournalError + PaymentRecord list" where
  "mem_replay j = Inr (filter (\<lambda>r. rec_key r = mem_key j) (mem_records j))"

definition mem_append_sync :: "mem_journal \<Rightarrow> PaymentRecord \<Rightarrow> (JournalError + unit) \<times> mem_journal" where
  "mem_append_sync j record =
     (if rec_key record \<noteq> mem_key j then (Inl JKeyMismatch, j)
      else (Inr (), j\<lparr>mem_records := mem_records j @ [record], sync_count := sync_count j + 1\<rparr>))"

definition mem_ops :: "mem_journal journal_ops" where
  "mem_ops = \<lparr>jlock = mem_lock, jreplay = mem_replay, jsync_replay = (\<lambda>_. Inr ()),
     jappend_sync = mem_append_sync\<rparr>"

section \<open>Receipts\<close>

record ReceiptEvidence =
  ev_receipt_id :: string
  author :: string
  preimage :: ReceiptPreimage
  seller_signature :: string
  buyer_signature :: string
  ev_relay_success :: "string list"
  relay_failure :: "string option"

record ReceiptAuthority =
  buyer :: string
  seller :: string

record ContributionCosig =
  tuple_digest :: string
  tuple_signature_hex :: string

definition verify_schnorr_hex :: "crypto \<Rightarrow> string \<Rightarrow> string \<Rightarrow> string \<Rightarrow> PaymentError + unit" where
  "verify_schnorr_hex c signature_hex message anchor =
     (if schnorr_ok c signature_hex message anchor then Inr () else Inl ForgedReceipt)"

definition require_receipt_binds_key :: "ReceiptPreimage \<Rightarrow> PaymentKey \<Rightarrow> PaymentError + unit" where
  "require_receipt_binds_key p key =
     (let mismatch = (\<lambda>field. Inl (Refused (''receipt does not bind this payment: '' @ field)))
      in if offer_id p \<noteq> job_id key then mismatch ''offer_id''
         else if pre_job_hash p \<noteq> job_hash key then mismatch ''job_hash''
         else if pre_amount p \<noteq> amount key then mismatch ''amount''
         else if pre_unit p \<noteq> unit_of key then mismatch ''unit''
         else if pre_delivery_integrity_hash p \<noteq> delivery_integrity_hash key
              then mismatch ''delivery_integrity_hash''
         else if pre_creq_hash p \<noteq> creq_hash key then mismatch ''creq_hash''
         else Inr ())"

definition authority_verify ::
  "crypto \<Rightarrow> ReceiptAuthority \<Rightarrow> ReceiptEvidence \<Rightarrow> PaymentKey \<Rightarrow> PaymentError + ReceiptRecord"
where
  "authority_verify c auth evidence key =
     (if ev_relay_success evidence = [] then Inl (NoRelayAccepted (relay_failure evidence))
      else if author evidence \<noteq> buyer auth then Inl ForgedReceipt
      else if buyer_pubkey (preimage evidence) \<noteq> buyer auth
           \<or> pre_seller_pubkey (preimage evidence) \<noteq> seller auth then Inl ForgedReceipt
      else
        (let message = digest_bytes c (preimage evidence)
         in try_bind (verify_schnorr_hex c (seller_signature evidence) message (seller auth)) (\<lambda>_.
            try_bind (verify_schnorr_hex c (buyer_signature evidence) message (buyer auth)) (\<lambda>_.
            try_bind (require_receipt_binds_key (preimage evidence) key) (\<lambda>_.
              Inr \<lparr>receipt_id = ev_receipt_id evidence, receipt_kind = RECEIPT_EVENT_KIND\<rparr>)))))"

definition verify_seller_prepay_cosig ::
  "crypto \<Rightarrow> ReceiptAuthority \<Rightarrow> ReceiptPreimage \<Rightarrow> string \<Rightarrow> ContributionCosig option \<Rightarrow> PaymentError + unit"
where
  "verify_seller_prepay_cosig c auth p seller_signature_hex contribution =
     try_bind
       (map_err (\<lambda>_. Refused ''pre-pay seller co-signature invalid'')
          (verify_schnorr_hex c seller_signature_hex (digest_bytes c p) (seller auth)))
       (\<lambda>_. case contribution of
          None \<Rightarrow> Inr ()
        | Some cc \<Rightarrow>
            map_err (\<lambda>_. Refused ''pre-pay contribution authorship invalid'')
              (verify_schnorr_hex c (tuple_signature_hex cc) (tuple_digest cc) (seller auth)))"

section \<open>The payment service\<close>

record Token =
  tok_value :: "string + u64"
  tok_mint :: "string + string"
  tok_unit :: "string option"

record VerifiedPayment =
  v_mint :: string
  v_amount :: u64
  v_unit :: string
  proof_ys :: "string list"

record 'w PaymentEffects =
  lock_or_reconcile :: "string \<Rightarrow> PaymentTerms \<Rightarrow> 'w \<Rightarrow> (string + Token) \<times> 'w"
  verify_payment :: "string \<Rightarrow> PaymentTerms \<Rightarrow> Token \<Rightarrow> 'w \<Rightarrow> (string + VerifiedPayment) \<times> 'w"
  send_payment :: "PaymentKey \<Rightarrow> string \<Rightarrow> PaymentTerms \<Rightarrow> Token \<Rightarrow> VerifiedPayment \<Rightarrow> 'w \<Rightarrow> (string + PaymentSent) \<times> 'w"
  publish_receipt :: "PaymentKey \<Rightarrow> PaymentSent \<Rightarrow> 'w \<Rightarrow> (string + ReceiptEvidence) \<times> 'w"
  assert_locked_token_unspent :: "string \<Rightarrow> PaymentTerms \<Rightarrow> 'w \<Rightarrow> (LockedTokenGate + Token) \<times> 'w"

text \<open>The journal and the world are the state of a run.\<close>

definition on_journal :: "('j \<Rightarrow> (JournalError + 'a) \<times> 'j) \<Rightarrow> 'j \<times> 'w \<Rightarrow> (PaymentError + 'a) \<times> 'j \<times> 'w" where
  "on_journal m s = (case s of (j, w) \<Rightarrow> (case m j of (r, j') \<Rightarrow> (map_err Journal r, j', w)))"

definition on_world :: "('e \<Rightarrow> PaymentError) \<Rightarrow> ('w \<Rightarrow> ('e + 'a) \<times> 'w) \<Rightarrow> 'j \<times> 'w \<Rightarrow> (PaymentError + 'a) \<times> 'j \<times> 'w" where
  "on_world h m s = (case s of (j, w) \<Rightarrow> (case m w of (r, w') \<Rightarrow> (map_err h r, j, w')))"

definition require_key_matches_terms :: "PaymentKey \<Rightarrow> PaymentTerms \<Rightarrow> PaymentError + unit" where
  "require_key_matches_terms key terms =
     (if mint key \<noteq> t_mint terms \<or> amount key \<noteq> t_amount terms \<or> unit_of key \<noteq> t_unit terms
         \<or> seller_pubkey key \<noteq> seller_nostr_pubkey terms
      then Inl (Refused ''payment key does not match typed payment terms'') else Inr ())"

definition require_verified_matches_terms :: "VerifiedPayment \<Rightarrow> PaymentTerms \<Rightarrow> PaymentError + unit" where
  "require_verified_matches_terms verified terms =
     (if v_mint verified \<noteq> t_mint terms \<or> v_amount verified \<noteq> t_amount terms \<or> v_unit verified \<noteq> t_unit terms
      then Inl (Refused ''verified payment does not match typed payment terms'') else Inr ())"

definition require_locked_matches_terms :: "Token \<Rightarrow> PaymentTerms \<Rightarrow> PaymentError + unit" where
  "require_locked_matches_terms token terms =
     try_bind (map_err (\<lambda>e. Refused (''invalid locked token: '' @ e)) (tok_value token)) (\<lambda>amount.
     try_bind (map_err (\<lambda>e. Refused (''invalid locked token: '' @ e)) (tok_mint token)) (\<lambda>mint.
       if amount = 0 then Inl (Refused ''locked token realized value is zero'')
       else if amount \<noteq> t_amount terms \<or> mint \<noteq> t_mint terms \<or> tok_unit token \<noteq> Some (t_unit terms)
       then Inl (Refused ''locked token does not match typed payment terms'')
       else Inr ()))"

definition append_transition ::
  "'j journal_ops \<Rightarrow> PaymentKey \<Rightarrow> PaymentState option \<Rightarrow> PaymentState \<Rightarrow> 'j \<times> 'w \<Rightarrow> (PaymentError + unit) \<times> 'j \<times> 'w"
where
  "append_transition J key current next =
     st_bind (st_lift (decide current next)) (\<lambda>_.
       on_journal (\<lambda>j. jappend_sync J j \<lparr>rec_key = key, rec_value = next\<rparr>))"

fun is_locked :: "PaymentState option \<Rightarrow> bool" where
  "is_locked (Some (Locked _)) = True"
| "is_locked _ = False"

definition send_leg ::
  "'j journal_ops \<Rightarrow> 'w PaymentEffects \<Rightarrow> PaymentKey \<Rightarrow> PaymentTerms \<Rightarrow> PaymentState option \<Rightarrow> Token option \<Rightarrow>
   'j \<times> 'w \<Rightarrow> (PaymentError + PaymentState option) \<times> 'j \<times> 'w"
where
  "send_leg J E key terms state locked_payment =
     (case state of
        Some (Locked a) \<Rightarrow>
          st_bind (st_lift (ok_or (Refused ''locked token is unavailable after reconciliation'') locked_payment)) (\<lambda>locked.
          st_bind (on_world Effect (verify_payment E a terms locked)) (\<lambda>verified.
          st_bind (st_lift (require_verified_matches_terms verified terms)) (\<lambda>_.
          st_bind (on_world Effect (send_payment E key a terms locked verified)) (\<lambda>payment.
            if relay_success payment = [] then st_lift (Inl (NoRelayAccepted None))
            else st_bind (append_transition J key state (Sent a payment)) (\<lambda>_.
                 st_lift (Inr (Some (Sent a payment))))))))
      | _ \<Rightarrow> st_lift (Inr state))"

definition receipt_leg ::
  "crypto \<Rightarrow> 'j journal_ops \<Rightarrow> 'w PaymentEffects \<Rightarrow> PaymentKey \<Rightarrow> ReceiptAuthority \<Rightarrow> PaymentState option \<Rightarrow>
   'j \<times> 'w \<Rightarrow> (PaymentError + PaymentState option) \<times> 'j \<times> 'w"
where
  "receipt_leg c J E key auth state =
     (case state of
        Some (Sent a payment) \<Rightarrow>
          st_bind (on_world Effect (publish_receipt E key payment)) (\<lambda>evidence.
          st_bind (st_lift (authority_verify c auth evidence key)) (\<lambda>receipt.
          st_bind (append_transition J key state (ReceiptPublished a receipt)) (\<lambda>_.
            st_lift (Inr (Some (ReceiptPublished a receipt))))))
      | _ \<Rightarrow> st_lift (Inr state))"

definition close_leg ::
  "'j journal_ops \<Rightarrow> PaymentKey \<Rightarrow> PaymentState option \<Rightarrow> 'j \<times> 'w \<Rightarrow> (PaymentError + PaymentState option) \<times> 'j \<times> 'w"
where
  "close_leg J key state =
     (case state of
        Some (ReceiptPublished a receipt) \<Rightarrow>
          if receipt_kind receipt \<noteq> RECEIPT_EVENT_KIND
          then st_lift (Inl (Refused ''refusing to close on non-receipt kind''))
          else st_bind (append_transition J key state (Closed a receipt)) (\<lambda>_.
               st_lift (Inr (Some (Closed a receipt))))
      | _ \<Rightarrow> st_lift (Inr state))"

definition drive_settlement_legs ::
  "crypto \<Rightarrow> 'j journal_ops \<Rightarrow> 'w PaymentEffects \<Rightarrow> PaymentKey \<Rightarrow> PaymentTerms \<Rightarrow> ReceiptAuthority \<Rightarrow>
   PaymentState option \<Rightarrow> Token option \<Rightarrow> 'j \<times> 'w \<Rightarrow> (PaymentError + PaymentState) \<times> 'j \<times> 'w"
where
  "drive_settlement_legs c J E key terms auth state locked_payment =
     st_bind (send_leg J E key terms state locked_payment) (\<lambda>state.
     st_bind (receipt_leg c J E key auth state) (\<lambda>state.
     st_bind (close_leg J key state) (\<lambda>state.
       st_lift (ok_or (Refused ''payment state is absent'') state))))"

definition intent_leg ::
  "crypto \<Rightarrow> 'j journal_ops \<Rightarrow> PaymentKey \<Rightarrow> PaymentState option \<Rightarrow> 'j \<times> 'w \<Rightarrow>
   (PaymentError + PaymentState option) \<times> 'j \<times> 'w"
where
  "intent_leg c J key state =
     (case state of
        None \<Rightarrow>
          st_bind (append_transition J key state (Intent (attempt_id c key))) (\<lambda>_.
            st_lift (Inr (Some (Intent (attempt_id c key)))))
      | Some _ \<Rightarrow> st_lift (Inr state))"

definition lock_leg ::
  "'j journal_ops \<Rightarrow> 'w PaymentEffects \<Rightarrow> PaymentKey \<Rightarrow> PaymentTerms \<Rightarrow> PaymentState option \<Rightarrow>
   'j \<times> 'w \<Rightarrow> (PaymentError + (PaymentState option \<times> Token option)) \<times> 'j \<times> 'w"
where
  "lock_leg J E key terms state =
     (case state of
        Some (Intent a) \<Rightarrow>
          st_bind (on_world Effect (lock_or_reconcile E a terms)) (\<lambda>locked.
          st_bind (st_lift (require_locked_matches_terms locked terms)) (\<lambda>_.
          st_bind (append_transition J key state (Locked a)) (\<lambda>_.
            st_lift (Inr (Some (Locked a), Some locked)))))
      | _ \<Rightarrow> st_lift (Inr (state, None)))"

definition open_journal ::
  "'j journal_ops \<Rightarrow> PaymentKey \<Rightarrow> PaymentTerms \<Rightarrow> 'j \<times> 'w \<Rightarrow> (PaymentError + PaymentState option) \<times> 'j \<times> 'w"
where
  "open_journal J key terms =
     st_bind (st_lift (require_key_matches_terms key terms)) (\<lambda>_.
     st_bind (on_journal (\<lambda>j. case jlock J j key of Inl e \<Rightarrow> (Inl e, j) | Inr j' \<Rightarrow> (Inr (), j'))) (\<lambda>_.
     st_bind (on_journal (\<lambda>j. (jreplay J j, j))) (\<lambda>records.
     st_bind (on_journal (\<lambda>j. (jsync_replay J j, j))) (\<lambda>_.
       st_lift (fold_records key records)))))"

definition advance ::
  "crypto \<Rightarrow> 'j journal_ops \<Rightarrow> 'w PaymentEffects \<Rightarrow> PaymentKey \<Rightarrow> PaymentTerms \<Rightarrow> ReceiptAuthority \<Rightarrow>
   'j \<times> 'w \<Rightarrow> (PaymentError + PaymentState) \<times> 'j \<times> 'w"
where
  "advance c J E key terms auth =
     st_bind (open_journal J key terms) (\<lambda>folded.
     st_bind (intent_leg c J key folded) (\<lambda>state.
     st_bind (lock_leg J E key terms state) (\<lambda>(state, locked_payment).
       if is_locked state \<and> is_locked folded then st_lift (Inl AmbiguousSendRefused)
       else drive_settlement_legs c J E key terms auth state locked_payment)))"

definition complete_recovered_locked ::
  "crypto \<Rightarrow> 'j journal_ops \<Rightarrow> 'w PaymentEffects \<Rightarrow> PaymentKey \<Rightarrow> PaymentTerms \<Rightarrow> ReceiptAuthority \<Rightarrow>
   'j \<times> 'w \<Rightarrow> (PaymentError + PaymentState) \<times> 'j \<times> 'w"
where
  "complete_recovered_locked c J E key terms auth =
     st_bind (open_journal J key terms) (\<lambda>state.
       case state of
         Some (Locked a) \<Rightarrow>
           if a \<noteq> attempt_id c key
           then st_lift (Inl (Refused ''complete-locked refused: journal attempt_id does not match the payment key (nothing done)''))
           else st_bind (on_world gate_error (assert_locked_token_unspent E a terms)) (\<lambda>locked.
                  drive_settlement_legs c J E key terms auth state (Some locked))
       | _ \<Rightarrow> st_lift (Inl (Refused (''complete-locked refused: journal state is '' @
                (case state of None \<Rightarrow> ''None'' | Some s \<Rightarrow> state_name s) @
                '', expected Locked (nothing done)''))))"

definition verify_pay_path_delivery :: "('d \<Rightarrow> string + string) \<Rightarrow> 'd \<Rightarrow> PaymentKey \<Rightarrow> PaymentError + unit" where
  "verify_pay_path_delivery verify delivery key =
     try_bind (map_err Delivery (verify delivery)) (\<lambda>commit_oid.
       if delivery_integrity_hash key \<noteq> commit_oid
       then Inl (Refused ''payment key does not bind the verified delivery commit'')
       else Inr ())"

end
