(* ===== verification/Crossmint.thy ===== *)
theory Crossmint
  imports Prelude
begin

text \<open>
  Cross-mint planning, \<^verbatim>\<open>crossmint.rs\<close>, with the real-mint fence of \<^verbatim>\<open>home.rs\<close> and the scheme
  test of \<^verbatim>\<open>mint_wire.rs\<close>: at which mint the buyer pays and whether reaching it needs a hop.
  Strings are their UTF-8 bytes. The URL parser \<open>MintUrl::from_str\<close> and the decoder of
  \<open>npub\<close> keys are arguments. A slice of a string that is not on a character boundary panics, which
  is an outcome of its own.
\<close>

section \<open>Mint URLs\<close>

datatype plan_error = PlanInput string | PlanPanic

definition NOSTR_MINT_SCHEME :: string where "NOSTR_MINT_SCHEME = ''nostr://''"
definition DEFAULT_MINT_URL :: string where "DEFAULT_MINT_URL = ''https://testnut.cashudevkit.org''"

text \<open>Byte \<open>i\<close> of a string starts a character, or is its end.\<close>

definition is_char_boundary :: "string \<Rightarrow> nat \<Rightarrow> bool" where
  "is_char_boundary s i \<longleftrightarrow> i = length s \<or> i < length s \<and> \<not> (128 \<le> (of_char (s ! i) :: nat) \<and> (of_char (s ! i) :: nat) < 192)"

definition to_ascii_lowercase :: "char \<Rightarrow> char" where
  "to_ascii_lowercase c = (if 65 \<le> (of_char c :: nat) \<and> (of_char c :: nat) \<le> 90 then char_of ((of_char c :: nat) + 32) else c)"

definition eq_ignore_ascii_case :: "string \<Rightarrow> string \<Rightarrow> bool" where
  "eq_ignore_ascii_case s t \<longleftrightarrow> map to_ascii_lowercase s = map to_ascii_lowercase t"

definition is_nostr_scheme :: "string \<Rightarrow> plan_error + bool" where
  "is_nostr_scheme url =
     (let n = length NOSTR_MINT_SCHEME in
      if length url < n then Inr False
      else if \<not> is_char_boundary url n then Inl PlanPanic
      else Inr (eq_ignore_ascii_case (take n url) NOSTR_MINT_SCHEME))"

record 'u url_ops =
  mint_url_from_str :: "string \<Rightarrow> string + 'u"
  decode_npub_ok :: "string \<Rightarrow> bool"

definition trim_end_slashes :: "string \<Rightarrow> string" where
  "trim_end_slashes s = rev (dropWhile (\<lambda>c. c = CHR ''/'') (rev s))"

definition is_nostr_mint_url :: "'u url_ops \<Rightarrow> string \<Rightarrow> bool" where
  "is_nostr_mint_url ops url =
     (case strip_prefix NOSTR_MINT_SCHEME url of None \<Rightarrow> False | Some r \<Rightarrow> decode_npub_ok ops (trim_end_slashes r))"

definition mint_allowed :: "'u url_ops \<Rightarrow> string \<Rightarrow> bool \<Rightarrow> plan_error + bool" where
  "mint_allowed ops url allow_real_mints =
     (if allow_real_mints
      then try_bind (is_nostr_scheme url) (\<lambda>nostr.
        if nostr then Inr (is_nostr_mint_url ops url)
        else Inr (case strip_prefix ''https://'' url of None \<Rightarrow> False | Some host \<Rightarrow> host \<noteq> []))
      else Inr (url = DEFAULT_MINT_URL))"

section \<open>The plan\<close>

datatype 'u PayPlan = Direct 'u | Hop 'u 'u

fun realized_mint :: "'u PayPlan \<Rightarrow> 'u" where
  "realized_mint (Direct m) = m"
| "realized_mint (Hop _ t) = t"

fun plan_source_mint :: "'u PayPlan \<Rightarrow> 'u" where
  "plan_source_mint (Direct m) = m"
| "plan_source_mint (Hop s _) = s"

fun hop_source :: "'u PayPlan \<Rightarrow> 'u option" where
  "hop_source (Direct _) = None"
| "hop_source (Hop s _) = Some s"

fun is_hop :: "'u PayPlan \<Rightarrow> bool" where
  "is_hop (Direct _) = False"
| "is_hop (Hop _ _) = True"

text \<open>The first listed mint that is not a credit mint and passes the fence.\<close>

fun hop_target :: "'u url_ops \<Rightarrow> bool \<Rightarrow> (string \<times> 'u) list \<Rightarrow> plan_error + 'u option" where
  "hop_target ops allow [] = Inr None"
| "hop_target ops allow ((raw, parsed) # rest) =
     try_bind (is_nostr_scheme raw) (\<lambda>nostr.
     try_bind (if nostr then Inr False else mint_allowed ops raw allow) (\<lambda>ok.
       if ok then Inr (Some parsed) else hop_target ops allow rest))"

fun parse_listed :: "'u url_ops \<Rightarrow> string list \<Rightarrow> plan_error + 'u list" where
  "parse_listed ops [] = Inr []"
| "parse_listed ops (m # ms) =
     try_bind (map_err (\<lambda>e. PlanInput (''creq accepted mint url: '' @ e)) (mint_url_from_str ops m)) (\<lambda>u.
     try_bind (parse_listed ops ms) (\<lambda>us. Inr (u # us)))"

definition plan_payment :: "'u url_ops \<Rightarrow> string \<Rightarrow> string list \<Rightarrow> bool \<Rightarrow> plan_error + 'u PayPlan" where
  "plan_payment ops selected accepted allow =
     try_bind (mint_allowed ops selected allow) (\<lambda>ok.
     if \<not> ok then Inl (PlanInput ''real-mint fence: buyer mint'')
     else
     try_bind (map_err (\<lambda>e. PlanInput (''buyer mint url: '' @ e)) (mint_url_from_str ops selected)) (\<lambda>mint.
     if accepted = [] then Inr (Direct mint)
     else
     try_bind (parse_listed ops accepted) (\<lambda>listed.
     if mint \<in> set listed then Inr (Direct mint)
     else
     try_bind (is_nostr_scheme selected) (\<lambda>nostr.
     if nostr then Inl (PlanInput ''nostr:// mint cannot fund a cross-mint hop'')
     else
     try_bind (hop_target ops allow (zip accepted listed)) (\<lambda>target.
     case target of
       Some t \<Rightarrow> Inr (Hop mint t)
     | None \<Rightarrow> Inl (PlanInput ''real-mint fence: no accepted mint''))))))"

record mint_balance =
  mb_mint_url :: string
  mb_balance_sats :: u64
  mb_configured :: bool

definition holds_at_least :: "'u url_ops \<Rightarrow> mint_balance list \<Rightarrow> string \<Rightarrow> u64 \<Rightarrow> bool" where
  "holds_at_least ops balances mint n =
     (case mint_url_from_str ops mint of
        Inl _ \<Rightarrow> False
      | Inr target \<Rightarrow> list_ex (\<lambda>b. mb_configured b \<and> mb_balance_sats b \<ge> n \<and> mint_url_from_str ops (mb_mint_url b) = Inr target) balances)"

text \<open>The first listed mint of a scheme that passes the fence and holds the amount.\<close>

fun find_covering :: "'u url_ops \<Rightarrow> bool \<Rightarrow> mint_balance list \<Rightarrow> u64 \<Rightarrow> string \<Rightarrow> string list \<Rightarrow> plan_error + string option" where
  "find_covering ops allow balances n scheme [] = Inr None"
| "find_covering ops allow balances n scheme (m # ms) =
     (if starts_with scheme m
      then try_bind (mint_allowed ops m allow) (\<lambda>ok.
        if ok \<and> holds_at_least ops balances m n then Inr (Some m) else find_covering ops allow balances n scheme ms)
      else find_covering ops allow balances n scheme ms)"

definition select_source_mint ::
  "'u url_ops \<Rightarrow> string \<Rightarrow> string list \<Rightarrow> bool \<Rightarrow> mint_balance list \<Rightarrow> u64 \<Rightarrow> plan_error + string"
where
  "select_source_mint ops config_default accepted allow balances n =
     try_bind (find_covering ops allow balances n ''nostr://'' accepted) (\<lambda>credit.
     case credit of
       Some m \<Rightarrow> Inr m
     | None \<Rightarrow> try_bind (find_covering ops allow balances n ''https://'' accepted) (\<lambda>held.
         Inr (case held of Some m \<Rightarrow> m | None \<Rightarrow> config_default)))"

section \<open>Costs\<close>

record HopCost =
  hc_melt_amount :: u64
  hc_fee_reserve :: u64
  hc_input_fee :: u64

definition planned_cost :: "HopCost \<Rightarrow> plan_error + u64" where
  "planned_cost c =
     ok_or (PlanInput ''cross-mint hop cost overflows u64'')
       (Option.bind (checked_add (hc_melt_amount c) (hc_fee_reserve c)) (\<lambda>sub. checked_add sub (hc_input_fee c)))"

record HopJournal =
  hj_attempt_id :: string
  hj_source_mint :: string
  hj_melt_quote_id :: string
  hj_target_mint :: string
  hj_mint_quote_id :: string
  hj_delivered_sats :: u64
  hj_planned_cost :: u64
  hj_fee_reserve :: u64
  hj_input_fee :: u64

definition reserved_ln_fee_sats :: "HopJournal \<Rightarrow> u64" where
  "reserved_ln_fee_sats j = saturating_sub (saturating_sub (hj_planned_cost j) (hj_delivered_sats j)) (hj_input_fee j)"

section \<open>What a plan promises\<close>

lemma parse_listed_Inr: "parse_listed ops ms = Inr us \<Longrightarrow> map (mint_url_from_str ops) ms = map Inr us"
  by (induction ms arbitrary: us) (auto elim!: result_elims)

lemma parse_listed_mem: "parse_listed ops ms = Inr us \<Longrightarrow> m \<in> set ms \<Longrightarrow> mint_url_from_str ops m = Inr u \<Longrightarrow> u \<in> set us"
  by (induction ms arbitrary: us) (auto elim!: result_elims)

lemma parse_listed_total:
  "list_all (\<lambda>m. \<exists>u. mint_url_from_str ops m = Inr u) ms \<Longrightarrow> \<exists>us. parse_listed ops ms = Inr us"
  by (induction ms) auto

lemma hop_target_Some:
  assumes "hop_target ops allow ps = Inr (Some t)"
  shows "\<exists>pre raw post. ps = pre @ (raw, t) # post \<and> is_nostr_scheme raw = Inr False \<and> mint_allowed ops raw allow = Inr True \<and>
    list_all (\<lambda>(r, _). is_nostr_scheme r = Inr True \<or> mint_allowed ops r allow = Inr False) pre"
  using assms
proof (induction ps)
  case (Cons p ps)
  obtain raw parsed where p: "p = (raw, parsed)" by (cases p)
  with Cons.prems obtain nostr ok where s: "is_nostr_scheme raw = Inr nostr"
      "(if nostr then Inr False else mint_allowed ops raw allow) = Inr ok"
      "(if ok then Inr (Some parsed) else hop_target ops allow ps) = Inr (Some t)"
    by (auto elim!: result_elims)
  show ?case
  proof (cases ok)
    case True
    with s have "\<not> nostr" "parsed = t" by (auto split: if_splits)
    with s p True show ?thesis by (intro exI [of _ "[]"] exI [of _ raw] exI [of _ ps]) simp
  next
    case False
    with s Cons.IH obtain pre raw' post where "ps = pre @ (raw', t) # post" "is_nostr_scheme raw' = Inr False"
      "mint_allowed ops raw' allow = Inr True" "list_all (\<lambda>(r, _). is_nostr_scheme r = Inr True \<or> mint_allowed ops r allow = Inr False) pre"
      by auto
    with s p False show ?thesis
      by (intro exI [of _ "(raw, parsed) # pre"] exI [of _ raw'] exI [of _ post]) (auto split: if_splits)
  qed
qed simp

text \<open>The mint a hop lands at is the first listed one that is neither a credit mint nor fenced off.\<close>

definition first_admitted :: "'u url_ops \<Rightarrow> bool \<Rightarrow> string list \<Rightarrow> 'u \<Rightarrow> bool" where
  "first_admitted ops allow accepted t \<longleftrightarrow> (\<exists>k < length accepted. mint_url_from_str ops (accepted ! k) = Inr t \<and>
     is_nostr_scheme (accepted ! k) = Inr False \<and> mint_allowed ops (accepted ! k) allow = Inr True \<and>
     (\<forall>i < k. is_nostr_scheme (accepted ! i) = Inr True \<or> mint_allowed ops (accepted ! i) allow = Inr False))"

lemma hop_target_first:
  assumes "parse_listed ops accepted = Inr listed" and "hop_target ops allow (zip accepted listed) = Inr (Some t)"
  shows "first_admitted ops allow accepted t \<and> t \<in> set listed"
proof -
  have m: "map (mint_url_from_str ops) accepted = map Inr listed" by (rule parse_listed_Inr [OF assms(1)])
  then have len: "length accepted = length listed" using map_eq_imp_length_eq by blast
  from hop_target_Some [OF assms(2)] obtain pre raw post where ps: "zip accepted listed = pre @ (raw, t) # post"
    "is_nostr_scheme raw = Inr False" "mint_allowed ops raw allow = Inr True"
    "list_all (\<lambda>(r, _). is_nostr_scheme r = Inr True \<or> mint_allowed ops r allow = Inr False) pre" by blast
  let ?k = "length pre"
  have k: "?k < length accepted" using arg_cong [OF ps(1), of length] len by simp
  have at: "accepted ! i = fst ((pre @ (raw, t) # post) ! i)" "listed ! i = snd ((pre @ (raw, t) # post) ! i)" if "i \<le> ?k" for i
    using that k len by (simp_all flip: ps(1))
  have "mint_url_from_str ops (accepted ! ?k) = Inr (listed ! ?k)" using m k len by (metis nth_map)
  then have "mint_url_from_str ops (accepted ! ?k) = Inr t" using at [of ?k] by simp
  moreover have "is_nostr_scheme (accepted ! i) = Inr True \<or> mint_allowed ops (accepted ! i) allow = Inr False" if "i < ?k" for i
    using ps(4) that at [of i] by (cases "pre ! i") (auto simp: list_all_length nth_append)
  moreover have "t \<in> set listed" using at [of ?k] k len by (metis le_refl nth_append_length nth_mem snd_conv)
  ultimately show ?thesis unfolding first_admitted_def using k ps(2,3) at [of ?k] by auto
qed

text \<open>C23. 
  Where the buyer pays, \<^verbatim>\<open>plan_payment\<close>: a plan pays from the buyer's own mint, which passed the
  real-mint fence. It is direct exactly when the seller lists no mints or lists that one. A hop goes to
  another mint, the first that the seller lists and that is neither a credit mint nor fenced off, and
  never starts at a credit mint.
\<close>

theorem plan_pays_where_the_seller_accepts:
  assumes "plan_payment ops selected accepted allow = Inr plan"
  shows "mint_allowed ops selected allow = Inr True \<and>
     mint_url_from_str ops selected = Inr (plan_source_mint plan) \<and>
     (\<not> is_hop plan \<longleftrightarrow> accepted = [] \<or> mint_url_from_str ops selected \<in> mint_url_from_str ops ` set accepted) \<and>
     (is_hop plan \<longrightarrow> is_nostr_scheme selected = Inr False \<and> realized_mint plan \<noteq> plan_source_mint plan \<and>
        first_admitted ops allow accepted (realized_mint plan))"
proof -
  obtain mint where fence: "mint_allowed ops selected allow = Inr True" and mint: "mint_url_from_str ops selected = Inr mint"
    and rest: "(if accepted = [] then Inr (Direct mint) else try_bind (parse_listed ops accepted) (\<lambda>listed.
       if mint \<in> set listed then Inr (Direct mint) else try_bind (is_nostr_scheme selected) (\<lambda>nostr.
       if nostr then Inl (PlanInput ''nostr:// mint cannot fund a cross-mint hop'')
       else try_bind (hop_target ops allow (zip accepted listed)) (\<lambda>target.
       case target of Some t \<Rightarrow> Inr (Hop mint t) | None \<Rightarrow> Inl (PlanInput ''real-mint fence: no accepted mint''))))) = Inr plan"
    using assms by (auto simp: plan_payment_def elim!: result_elims split: if_splits)
  show ?thesis
  proof (cases "accepted = []")
    case True
    then show ?thesis using fence mint rest by auto
  next
    case False
    with rest obtain listed where listed: "parse_listed ops accepted = Inr listed"
      and rest: "(if mint \<in> set listed then Inr (Direct mint) else try_bind (is_nostr_scheme selected) (\<lambda>nostr.
       if nostr then Inl (PlanInput ''nostr:// mint cannot fund a cross-mint hop'')
       else try_bind (hop_target ops allow (zip accepted listed)) (\<lambda>target.
       case target of Some t \<Rightarrow> Inr (Hop mint t) | None \<Rightarrow> Inl (PlanInput ''real-mint fence: no accepted mint'')))) = Inr plan"
      by (auto elim!: result_elims)
    have "mint_url_from_str ops ` set accepted = Inr ` set listed"
      using parse_listed_Inr [OF listed] by (metis list.set_map)
    then have listed_iff: "mint_url_from_str ops selected \<in> mint_url_from_str ops ` set accepted \<longleftrightarrow> mint \<in> set listed"
      using mint by auto
    show ?thesis
    proof (cases "mint \<in> set listed")
      case True
      then show ?thesis using fence mint rest listed_iff by auto
    next
      case no: False
      with rest obtain t where "is_nostr_scheme selected = Inr False" "hop_target ops allow (zip accepted listed) = Inr (Some t)" "plan = Hop mint t"
        by (auto elim!: result_elims split: if_splits option.splits)
      then show ?thesis using fence mint listed_iff no False hop_target_first [OF listed] by auto
    qed
  qed
qed

lemma find_covering_Some:
  "find_covering ops allow balances n scheme ms = Inr (Some m) \<Longrightarrow>
   m \<in> set ms \<and> mint_allowed ops m allow = Inr True \<and> holds_at_least ops balances m n"
  by (induction ms) (auto elim!: result_elims split: if_splits)

lemma listed_mint_pays_direct:
  assumes "m \<in> set accepted" and "mint_allowed ops m allow = Inr True" and "mint_url_from_str ops m = Inr u"
    and "parse_listed ops accepted = Inr listed"
  shows "plan_payment ops m accepted allow = Inr (Direct u)"
proof -
  have "u \<in> set listed" by (rule parse_listed_mem [OF assms(4,1,3)])
  with assms show ?thesis by (auto simp: plan_payment_def)
qed

text \<open>
  Selection and planning agree, \<^verbatim>\<open>select_source_mint\<close> and \<^verbatim>\<open>plan_payment\<close>: when every mint the
  seller lists parses, the mint that is selected is the configured default, or one that holds the amount
  and from which the plan pays directly.
\<close>

theorem selected_mint_pays_direct:
  assumes "select_source_mint ops config_default accepted allow balances n = Inr m"
    and "list_all (\<lambda>a. \<exists>u. mint_url_from_str ops a = Inr u) accepted"
  shows "m = config_default \<or>
     holds_at_least ops balances m n \<and> (\<exists>u. mint_url_from_str ops m = Inr u \<and> plan_payment ops m accepted allow = Inr (Direct u))"
proof (cases "m = config_default")
  case False
  with assms(1) obtain scheme where "find_covering ops allow balances n scheme accepted = Inr (Some m)"
    by (auto simp: select_source_mint_def elim!: result_elims split: option.splits)
  from find_covering_Some [OF this] have m: "m \<in> set accepted" "mint_allowed ops m allow = Inr True" "holds_at_least ops balances m n" by auto
  then obtain u where u: "mint_url_from_str ops m = Inr u" using assms(2) by (auto simp: list_all_iff)
  from parse_listed_total [OF assms(2)] obtain listed where "parse_listed ops accepted = Inr listed" by blast
  from listed_mint_pays_direct [OF m(1,2) u this] u m(3) show ?thesis by blast
qed simp

section \<open>Examples\<close>

text \<open>URLs that parse as they are written.\<close>

definition plain_urls :: "string url_ops" where
  "plain_urls = \<lparr>mint_url_from_str = Inr, decode_npub_ok = (\<lambda>_. True)\<rparr>"

definition sample_accepted :: "string list" where
  "sample_accepted = [''nostr://npub1x'', ''http://b.org'', ''https://c.org'', ''https://d.org'']"

lemma sample_plan: "plan_payment plain_urls ''https://a.org'' sample_accepted True = Inr (Hop ''https://a.org'' ''https://c.org'')"
  by code_simp

theorem plan_pays_where_the_seller_accepts_witness:
  "first_admitted plain_urls True sample_accepted ''https://c.org''"
  using plan_pays_where_the_seller_accepts [OF sample_plan] by simp

lemma sample_select:
  "select_source_mint plain_urls ''https://a.org'' sample_accepted True
     [\<lparr>mb_mint_url = ''https://d.org'', mb_balance_sats = 50, mb_configured = True\<rparr>] 50 = Inr ''https://d.org''"
  by code_simp

theorem selected_mint_pays_direct_witness:
  "plan_payment plain_urls ''https://d.org'' sample_accepted True = Inr (Direct ''https://d.org'')"
  using selected_mint_pays_direct [OF sample_select] by (simp add: plain_urls_def list_all_iff)

text \<open>
  A mint URL of a seller that is not \<^verbatim>\<open>https\<close> can panic the buyer: \<^verbatim>\<open>is_nostr_scheme\<close> slices at
  byte 8, and in \<^verbatim>\<open>http://\<close> followed by a two-byte character byte 8 is inside that character. The
  source mint's own text is fine; only the list in the payment request is needed.
\<close>

theorem listed_url_panics_the_plan:
  "plan_payment plain_urls ''https://a.org'' [''http://'' @ [char_of (195 :: nat), char_of (169 :: nat)] @ ''.org''] True = Inl PlanPanic"
  by code_simp

end
