(* ===== verification/Processes.thy ===== *)
theory Processes
  imports Prelude
begin

text \<open>
  Programs that several processes run against shared state. A program is a tree of atomic actions,
  each of which changes the shared state and picks the rest of the program by what it read. A
  database transaction or one call to the outside world is one action; between two actions of a
  process the others may act. The locale at the end is the proof rule for such systems: a process
  carries what it knows as a token, an action may change the token, no action may invalidate the
  tokens that other processes hold, and every action keeps to the guarantee of the system.
\<close>

section \<open>Programs\<close>

datatype ('s, 'a) proc = Done 'a | Act "'s \<Rightarrow> 's" "'s \<Rightarrow> ('s, 'a) proc"

primrec pbind :: "('s, 'a) proc \<Rightarrow> ('a \<Rightarrow> ('s, 'b) proc) \<Rightarrow> ('s, 'b) proc" where
  "pbind (Done a) k = k a"
| "pbind (Act f c) k = Act f (\<lambda>s. pbind (c s) k)"

definition atomic :: "('s \<Rightarrow> 'a \<times> 's) \<Rightarrow> ('s, 'a) proc" where
  "atomic m = Act (\<lambda>s. snd (m s)) (\<lambda>s. Done (fst (m s)))"

text \<open>A program that runs alone.\<close>

primrec exec :: "('s, 'a) proc \<Rightarrow> 's \<Rightarrow> 'a \<times> 's" where
  "exec (Done a) = (\<lambda>s. (a, s))"
| "exec (Act f c) = (\<lambda>s. exec (c s) (f s))"

lemma exec_pbind [simp]: "exec (pbind p k) s = (case exec p s of (a, s') \<Rightarrow> exec (k a) s')"
  by (induction p arbitrary: s) simp_all

lemma exec_atomic [simp]: "exec (atomic m) s = m s"
  by (simp add: atomic_def)

section \<open>Runs that stop anywhere\<close>

text \<open>The states in which a program that runs alone may be cut off.\<close>

inductive crash :: "('s, 'a) proc \<Rightarrow> 's \<Rightarrow> 's \<Rightarrow> bool" where
  here: "crash p s s"
| later: "crash (c s) (f s) s' \<Longrightarrow> crash (Act f c) s s'"

text \<open>The weakest precondition under which a program keeps an invariant at each of its actions and
  ends in the given result.\<close>

primrec secure :: "('s \<Rightarrow> bool) \<Rightarrow> ('s, 'a) proc \<Rightarrow> ('a \<Rightarrow> 's \<Rightarrow> bool) \<Rightarrow> 's \<Rightarrow> bool" where
  "secure I (Done a) = (\<lambda>Q s. Q a s)"
| "secure I (Act f c) = (\<lambda>Q s. I (f s) \<and> secure I (c s) Q (f s))"

lemma secure_pbind [simp]: "secure I (pbind p k) Q s = secure I p (\<lambda>a. secure I (k a) Q) s"
  by (induction p arbitrary: s) simp_all

lemma secure_atomic [simp]: "secure I (atomic m) Q s \<longleftrightarrow> I (snd (m s)) \<and> Q (fst (m s)) (snd (m s))"
  by (simp add: atomic_def)

lemma secure_mono: "secure I p Q s \<Longrightarrow> (\<And>a t. Q a t \<Longrightarrow> R a t) \<Longrightarrow> secure I p R s"
  by (induction p arbitrary: s) auto

text \<open>The invariant also holds where the program ends.\<close>

lemma secure_end: "secure I p Q s \<Longrightarrow> I s \<Longrightarrow> secure I p (\<lambda>a t. Q a t \<and> I t) s"
  by (induction p arbitrary: s) auto

lemma secure_if: "(b \<Longrightarrow> secure I p Q s) \<Longrightarrow> (\<not> b \<Longrightarrow> secure I q Q s) \<Longrightarrow> secure I (if b then p else q) Q s"
  by simp

lemma secure_pair: "(\<And>a b. secure I (k a b) Q s) \<Longrightarrow> secure I (case x of (a, b) \<Rightarrow> k a b) Q s"
  by (simp split: prod.split)

lemma secure_exec: "secure I p Q s \<Longrightarrow> exec p s = (a, t) \<Longrightarrow> Q a t"
  by (induction p arbitrary: s) auto

lemma secure_crash: "crash p s t \<Longrightarrow> secure I p Q s \<Longrightarrow> I s \<Longrightarrow> I t"
  by (induction rule: crash.induct) auto

lemma crash_exec: "crash p s (snd (exec p s))"
  by (induction p arbitrary: s) (auto intro: crash.intros)

section \<open>Interleaving\<close>

text \<open>The configurations a system reaches: processes start at any time, any process may do its
  next action, the environment may change the state, and a process that died is one that is never
  picked again.\<close>

inductive reach ::
  "(('s, 'a) proc \<Rightarrow> bool) \<Rightarrow> ('s \<Rightarrow> 's \<Rightarrow> bool) \<Rightarrow> 's \<Rightarrow> ('s, 'a) proc list \<Rightarrow> 's \<Rightarrow> bool"
  for starts env s0
where
  init: "reach starts env s0 [] s0"
| start: "reach starts env s0 ps s \<Longrightarrow> starts p \<Longrightarrow> reach starts env s0 (ps @ [p]) s"
| act: "reach starts env s0 ps s \<Longrightarrow> i < length ps \<Longrightarrow> ps ! i = Act f c \<Longrightarrow>
    reach starts env s0 (ps[i := c s]) (f s)"
| environment: "reach starts env s0 ps s \<Longrightarrow> env s s' \<Longrightarrow> reach starts env s0 ps s'"

text \<open>A process may run to its end while the others wait.\<close>

lemma reach_exec_nth:
  "reach starts env s0 ps s \<Longrightarrow> i < length ps \<Longrightarrow> ps ! i = p \<Longrightarrow> exec p s = (a, s') \<Longrightarrow> reach starts env s0 (ps[i := Done a]) s'"
proof (induction p arbitrary: ps s)
  case (Done b)
  then have "ps[i := Done a] = ps" by (metis exec.simps(1) fst_conv list_update_id)
  then show ?case using Done by simp
next
  case (Act f c)
  have "reach starts env s0 (ps[i := c s]) (f s)" by (rule reach.act) (use Act.prems in auto)
  from Act.IH [OF rangeI this] Act.prems show ?case by simp
qed

lemma reach_exec_last:
  "reach starts env s0 (ps @ [p]) s \<Longrightarrow> exec p s = (a, s') \<Longrightarrow> reach starts env s0 (ps @ [Done a]) s'"
  using reach_exec_nth [of starts env s0 "ps @ [p]" s "length ps" p a s'] by simp

lemma reach_exec:
  "reach starts env s0 ps s \<Longrightarrow> starts p \<Longrightarrow> exec p s = (a, s') \<Longrightarrow> reach starts env s0 (ps @ [Done a]) s'"
  by (rule reach_exec_last [OF reach.start])

section \<open>Tokens\<close>

locale token_protocol =
  fixes inv :: "'s \<Rightarrow> bool"
    and know :: "'t \<Rightarrow> 's \<Rightarrow> bool"
    and apart :: "'t \<Rightarrow> 't \<Rightarrow> bool"
    and idle :: 't
    and env :: "'s \<Rightarrow> 's \<Rightarrow> bool"
    and guar :: "'s \<Rightarrow> 's \<Rightarrow> bool"
  assumes apart_sym: "apart t u \<Longrightarrow> apart u t"
    and apart_idle: "apart idle t"
    and know_idle: "know idle s"
    and env_inv: "inv s \<Longrightarrow> env s s' \<Longrightarrow> inv s'"
    and env_know: "inv s \<Longrightarrow> env s s' \<Longrightarrow> know t s \<Longrightarrow> know t s'"
    and env_guar: "inv s \<Longrightarrow> env s s' \<Longrightarrow> guar s s'"
    and guar_refl: "guar s s"
begin

definition move :: "'t \<Rightarrow> 't \<Rightarrow> 's \<Rightarrow> 's \<Rightarrow> bool" where
  "move t t' s s' \<longleftrightarrow>
     inv s' \<and> guar s s' \<and> know t' s' \<and> (\<forall>u. apart t u \<longrightarrow> know u s \<longrightarrow> know u s' \<and> apart t' u)"

primrec follows :: "('s, 'a) proc \<Rightarrow> 't \<Rightarrow> ('a \<Rightarrow> 't \<Rightarrow> bool) \<Rightarrow> bool" where
  "follows (Done a) = (\<lambda>t Q. Q a t)"
| "follows (Act f c) = (\<lambda>t Q. \<forall>s. inv s \<and> know t s \<longrightarrow> (\<exists>t'. move t t' s (f s) \<and> follows (c s) t' Q))"

lemma follows_bind:
  assumes "follows p t Q" and "\<And>a u. Q a u \<Longrightarrow> follows (k a) u R"
  shows "follows (pbind p k) t R"
  using assms(1)
proof (induction p arbitrary: t)
  case (Done a)
  then show ?case using assms(2) by simp
next
  case (Act f c)
  have "\<exists>t'. move t t' s (f s) \<and> follows (pbind (c s) k) t' R" if "inv s \<and> know t s" for s
    using that Act.prems Act.IH [of "c s"] by fastforce
  then show ?case by simp
qed

lemma follows_weaken: "follows p t Q \<Longrightarrow> (\<And>a u. Q a u \<Longrightarrow> R a u) \<Longrightarrow> follows p t R"
proof (induction p arbitrary: t)
  case (Act f c)
  have "\<exists>t'. move t t' s (f s) \<and> follows (c s) t' R" if "inv s \<and> know t s" for s
    using that Act.prems Act.IH [of "c s"] by fastforce
  then show ?case by simp
qed simp

lemma follows_atomic:
  "(\<And>s. inv s \<Longrightarrow> know t s \<Longrightarrow> \<exists>t'. move t t' s (snd (m s)) \<and> Q (fst (m s)) t') \<Longrightarrow> follows (atomic m) t Q"
  by (simp add: atomic_def)

lemma move_refl: "inv s \<Longrightarrow> know t s \<Longrightarrow> move t t s s"
  by (simp add: move_def guar_refl)

definition coherent :: "('s, 'a) proc list \<Rightarrow> 's \<Rightarrow> 't list \<Rightarrow> bool" where
  "coherent ps s ts \<longleftrightarrow> inv s \<and> length ts = length ps \<and>
     (\<forall>i < length ps. know (ts ! i) s \<and> follows (ps ! i) (ts ! i) (\<lambda>_ _. True)) \<and>
     (\<forall>i < length ps. \<forall>j < length ps. i \<noteq> j \<longrightarrow> apart (ts ! i) (ts ! j))"

lemma coherent_start:
  assumes "coherent ps s ts" and "follows p idle (\<lambda>_ _. True)"
  shows "coherent (ps @ [p]) s (ts @ [idle])"
  using assms apart_sym [OF apart_idle] apart_idle know_idle
  by (auto simp: coherent_def nth_append less_Suc_eq)

lemma coherent_act:
  assumes "coherent ps s ts" and "i < length ps" and "ps ! i = Act f c"
  obtains t' where "coherent (ps[i := c s]) (f s) (ts[i := t'])" "guar s (f s)"
proof -
  from assms have "inv s" "know (ts ! i) s" "follows (Act f c) (ts ! i) (\<lambda>_ _. True)"
    by (auto simp: coherent_def)
  then obtain t' where mv: "move (ts ! i) t' s (f s)" and rest: "follows (c s) t' (\<lambda>_ _. True)" by auto
  have "know (ts ! j) (f s)" "apart t' (ts ! j)" if "j < length ps" "j \<noteq> i" for j
    using mv that assms(1,2) by (auto simp: move_def coherent_def)
  then have "coherent (ps[i := c s]) (f s) (ts[i := t'])"
    using assms mv rest apart_sym by (auto simp: coherent_def move_def nth_list_update)
  moreover have "guar s (f s)" using mv by (simp add: move_def)
  ultimately show thesis by (rule that)
qed

lemma coherent_environment: "coherent ps s ts \<Longrightarrow> env s s' \<Longrightarrow> coherent ps s' ts"
  using env_inv env_know by (auto simp: coherent_def)

lemma reach_coherent:
  assumes "\<And>p. starts p \<Longrightarrow> follows p idle (\<lambda>_ _. True)" and "inv s0" and "reach starts env s0 ps s"
  shows "guar\<^sup>*\<^sup>* s0 s \<and> (\<exists>ts. coherent ps s ts)"
  using assms(3)
proof (induction rule: reach.induct)
  case init
  then show ?case using assms(2) by (auto simp: coherent_def)
next
  case (start ps s p)
  then show ?case using coherent_start [OF _ assms(1)] by blast
next
  case (act ps s i f c)
  then obtain ts where "coherent ps s ts" by blast
  then obtain t' where "coherent (ps[i := c s]) (f s) (ts[i := t'])" "guar s (f s)" by (rule coherent_act) (use act in auto)
  with act show ?case by (meson rtranclp.rtrancl_into_rtrancl)
next
  case (environment ps s s')
  then obtain ts where ts: "coherent ps s ts" by blast
  then have "guar s s'" using environment env_guar by (simp add: coherent_def)
  with environment coherent_environment [OF ts] show ?case by (meson rtranclp.rtrancl_into_rtrancl)
qed

lemma reach_inv:
  assumes "\<And>p. starts p \<Longrightarrow> follows p idle (\<lambda>_ _. True)" and "inv s0" and "reach starts env s0 ps s"
  shows "inv s"
  using reach_coherent [OF assms] by (auto simp: coherent_def)

lemma reach_guar:
  assumes "\<And>p. starts p \<Longrightarrow> follows p idle (\<lambda>_ _. True)" and "inv s0" and "reach starts env s0 ps s"
  shows "guar\<^sup>*\<^sup>* s0 s"
  using reach_coherent [OF assms] by blast

end

end
