(* ===== verification/Crossmint_Hop.thy ===== *)
theory Crossmint_Hop
  imports Crossmint Processes "HOL-Library.List_Lexorder" "HOL-Library.Char_ord"
begin

text \<open>
  Carrying out a cross-mint hop, \<^verbatim>\<open>crossmint_hop.rs\<close>: the journal that pairs a melt quote at the
  source mint with a mint quote at the target, the run that resumes instead of repeating, the plan
  that prices a hop, and the sweep. A run is a program whose atomic actions are the reads and
  appends of the journal (each under the file lock) and the calls of the two wallets, which are
  arguments. Every answer about a melt quote and every melt is also written to a log that the code
  does not have; the theorems speak of it. Operator lines are left out, messages are cut before the
  interpolation.
\<close>

section \<open>Records and errors\<close>

datatype MeltLeg = MeltUnpaid | MeltPending | MeltPaid | MeltFailedLeg

datatype MintLeg = MintUnpaid | MintPaid | MintIssued | MintPending

record HopSettled =
  hs_minted_sats :: u64
  recovered_strand :: bool
  unused_fee_reserve_sats :: u64

datatype HopError =
    HopJournalError string
  | HopMint string
  | HopMintUnreachable string string
  | PairingConflict string HopJournal HopJournal
  | DuplicatePlanned string string
  | MeltInFlight string string
  | MeltFailed string string
  | MeltSupersessionExhausted string nat
  | AmbiguousTarget string string
  | ReplacementCostExceedsAuthorization string u64 u64
  | InsufficientSource string u64 u64
  | MintedAmountMismatch u64 u64
  | HopPanic

datatype HopRecord =
    HPlanned HopJournal
  | HMeltSuperseded string string string u64
  | HSettled string u64

definition MAX_MELT_SUPERSESSIONS :: nat where "MAX_MELT_SUPERSESSIONS = 3"

fun record_attempt_id :: "HopRecord \<Rightarrow> string" where
  "record_attempt_id (HPlanned j) = hj_attempt_id j"
| "record_attempt_id (HMeltSuperseded a _ _ _) = a"
| "record_attempt_id (HSettled a _) = a"

record 'w HopEffects =
  e_melt_leg :: "string \<Rightarrow> 'w \<Rightarrow> (HopError + MeltLeg) \<times> 'w"
  e_mint_leg :: "string \<Rightarrow> 'w \<Rightarrow> (HopError + MintLeg) \<times> 'w"
  e_target_invoice :: "string \<Rightarrow> 'w \<Rightarrow> (HopError + (MintLeg \<times> string)) \<times> 'w"
  e_supersede_melt_quote :: "string \<Rightarrow> 'w \<Rightarrow> (HopError + (string \<times> u64)) \<times> 'w"
  e_require_source_covers :: "u64 \<Rightarrow> 'w \<Rightarrow> (HopError + unit) \<times> 'w"
  e_melt :: "string \<Rightarrow> 'w \<Rightarrow> (HopError + u64) \<times> 'w"
  e_mint :: "string \<Rightarrow> u64 \<Rightarrow> 'w \<Rightarrow> (HopError + u64) \<times> 'w"

section \<open>The journal\<close>

text \<open>A journal file: its committed lines, and whether a write was torn. Such a file is never read again:
  it ends without a newline, and a line appended after the torn bytes is not JSON. An append may be
  lost, torn, or written without the sync succeeding; a read may fail.\<close>

datatype hop_fault = HopLost string | HopTorn string | HopUnsynced string

record 'l hop_file =
  hf_lines :: "'l list"
  hf_torn :: bool

record 'l hop_codec =
  enc_hop :: "HopRecord \<Rightarrow> string + 'l"
  dec_hop :: "'l \<Rightarrow> string + HopRecord"

datatype hop_event = Asked string MeltLeg | Melted string

record ('l, 'w) hop_state =
  hop_files :: "(string \<times> 'l hop_file) list"
  hop_faults :: "hop_fault option list"
  hop_world :: 'w
  hop_log :: "string \<Rightarrow> hop_event list"

definition decode_records :: "'l hop_codec \<Rightarrow> 'l hop_file \<Rightarrow> HopError + HopRecord list" where
  "decode_records c f =
     (if hf_torn f then Inl (HopJournalError ''last record is missing its commit newline (torn write)'')
      else try_fold (\<lambda>rs l. try_bind (map_err HopJournalError (dec_hop c l)) (\<lambda>r. Inr (rs @ [r]))) [] (hf_lines f))"

fun planned_of :: "HopRecord list \<Rightarrow> HopJournal option" where
  "planned_of [] = None"
| "planned_of (HPlanned j # _) = Some j"
| "planned_of (_ # rs) = planned_of rs"

fun settled_of :: "HopRecord list \<Rightarrow> u64 option" where
  "settled_of [] = None"
| "settled_of (HSettled _ n # _) = Some n"
| "settled_of (_ # rs) = settled_of rs"

fun active_step :: "(string option \<times> nat) \<Rightarrow> HopRecord \<Rightarrow> string option \<times> nat" where
  "active_step (cur, n) (HPlanned j) = (Some (hj_melt_quote_id j), n)"
| "active_step (cur, n) (HMeltSuperseded _ _ q _) = (Some q, n + 1)"
| "active_step (cur, n) (HSettled _ _) = (cur, n)"

definition active_melt :: "HopRecord list \<Rightarrow> (string \<times> nat) option" where
  "active_melt rs = (case foldl active_step (None, 0) rs of (cur, n) \<Rightarrow> map_option (\<lambda>q. (q, n)) cur)"

definition require_current_superseded_melt :: "HopRecord list \<Rightarrow> string \<Rightarrow> HopError + unit" where
  "require_current_superseded_melt rs quote =
     (if settled_of rs \<noteq> None then Inl (HopJournalError ''refusing a supersession after settlement'')
      else case active_melt rs of
        Some (active, _) \<Rightarrow>
          if active = quote then Inr () else Inl (HopJournalError ''supersession expected active melt quote'')
      | None \<Rightarrow> Inl (HopJournalError ''supersession has no Planned record''))"

definition require_no_active_planned :: "HopRecord list \<Rightarrow> string \<Rightarrow> HopError + unit" where
  "require_no_active_planned rs attempt =
     (case rev rs of HPlanned j # _ \<Rightarrow> Inl (DuplicatePlanned attempt (hj_melt_quote_id j)) | _ \<Rightarrow> Inr ())"

definition file_of :: "string \<Rightarrow> ('l, 'w) hop_state \<Rightarrow> 'l hop_file" where
  "file_of a s = (case map_of (hop_files s) a of None \<Rightarrow> \<lparr>hf_lines = [], hf_torn = False\<rparr> | Some f \<Rightarrow> f)"

definition put_file :: "string \<Rightarrow> 'l hop_file \<Rightarrow> ('l, 'w) hop_state \<Rightarrow> ('l, 'w) hop_state" where
  "put_file a f s = s\<lparr>hop_files := AList.update a f (hop_files s)\<rparr>"

definition draw_fault :: "('l, 'w) hop_state \<Rightarrow> hop_fault option \<times> ('l, 'w) hop_state" where
  "draw_fault s = (case hop_faults s of [] \<Rightarrow> (None, s) | f # fs \<Rightarrow> (f, s\<lparr>hop_faults := fs\<rparr>))"

fun fault_text :: "hop_fault \<Rightarrow> string" where
  "fault_text (HopLost e) = e"
| "fault_text (HopTorn e) = e"
| "fault_text (HopUnsynced e) = e"

definition hop_replay :: "'l hop_codec \<Rightarrow> string \<Rightarrow> ('l, 'w) hop_state \<Rightarrow> (HopError + HopRecord list) \<times> ('l, 'w) hop_state" where
  "hop_replay c a s =
     (case draw_fault s of
        (Some f, s) \<Rightarrow> (Inl (HopJournalError (fault_text f)), s)
      | (None, s) \<Rightarrow> (decode_records c (file_of a s), s))"

definition append_allowed :: "'l hop_codec \<Rightarrow> HopRecord \<Rightarrow> 'l hop_file \<Rightarrow> HopError + unit" where
  "append_allowed c record f =
     (case record of
        HPlanned _ \<Rightarrow> try_bind (decode_records c f) (\<lambda>rs. require_no_active_planned rs (record_attempt_id record))
      | HMeltSuperseded _ q _ _ \<Rightarrow> try_bind (decode_records c f) (\<lambda>rs. require_current_superseded_melt rs q)
      | HSettled _ _ \<Rightarrow> Inr ())"

text \<open>The file is created when it is opened; a lost append may fail before that, which leaves it absent.\<close>

definition hop_append_sync :: "'l hop_codec \<Rightarrow> HopRecord \<Rightarrow> ('l, 'w) hop_state \<Rightarrow> (HopError + unit) \<times> ('l, 'w) hop_state" where
  "hop_append_sync c record s =
     (let a = record_attempt_id record in
      case draw_fault s of
        (Some (HopLost e), s) \<Rightarrow> (Inl (HopJournalError e), s)
      | (fault, s) \<Rightarrow>
          (let f = file_of a s; s = put_file a f s in
           case try_bind (append_allowed c record f) (\<lambda>_. map_err HopJournalError (enc_hop c record)) of
             Inl e \<Rightarrow> (Inl e, s)
           | Inr line \<Rightarrow>
               (case fault of
                  Some (HopTorn e) \<Rightarrow> (Inl (HopJournalError e), put_file a (f\<lparr>hf_torn := True\<rparr>) s)
                | Some (HopUnsynced e) \<Rightarrow> (Inl (HopJournalError e), put_file a (f\<lparr>hf_lines := hf_lines f @ [line]\<rparr>) s)
                | _ \<Rightarrow> (Inr (), put_file a (f\<lparr>hf_lines := hf_lines f @ [line]\<rparr>) s))))"

definition attempt_ids :: "('l, 'w) hop_state \<Rightarrow> string list" where
  "attempt_ids s = sort (map fst (hop_files s))"

section \<open>The run\<close>

type_synonym ('l, 'w, 'a) hop_run = "(('l, 'w) hop_state, HopError + 'a) proc"

definition hop_try ::
  "('l, 'w, 'a) hop_run \<Rightarrow> ('a \<Rightarrow> ('l, 'w, 'b) hop_run) \<Rightarrow> ('l, 'w, 'b) hop_run"
where
  "hop_try p k = pbind p (\<lambda>r. case r of Inl e \<Rightarrow> Done (Inl e) | Inr x \<Rightarrow> k x)"

definition hop_fail :: "HopError \<Rightarrow> ('l, 'w, 'a) hop_run" where
  "hop_fail e = Done (Inl e)"

definition journal_read :: "'l hop_codec \<Rightarrow> string \<Rightarrow> ('l, 'w, HopRecord list) hop_run" where
  "journal_read c a = atomic (hop_replay c a)"

definition journal_append :: "'l hop_codec \<Rightarrow> HopRecord \<Rightarrow> ('l, 'w, unit) hop_run" where
  "journal_append c r = atomic (hop_append_sync c r)"

definition call_mint :: "('w \<Rightarrow> (HopError + 'a) \<times> 'w) \<Rightarrow> ('l, 'w, 'a) hop_run" where
  "call_mint m = atomic (\<lambda>s. case m (hop_world s) of (r, w) \<Rightarrow> (r, s\<lparr>hop_world := w\<rparr>))"

definition log_event :: "string \<Rightarrow> hop_event \<Rightarrow> ('l, 'w) hop_state \<Rightarrow> ('l, 'w) hop_state" where
  "log_event a ev s = s\<lparr>hop_log := (hop_log s)(a := hop_log s a @ [ev])\<rparr>"

text \<open>The calls that the log records: what a mint says of a melt quote, and a melt, whatever comes of it.\<close>

definition ask_melt :: "'w HopEffects \<Rightarrow> string \<Rightarrow> string \<Rightarrow> ('l, 'w, MeltLeg) hop_run" where
  "ask_melt e a q = atomic (\<lambda>s. case e_melt_leg e q (hop_world s) of
     (Inl err, w) \<Rightarrow> (Inl err, s\<lparr>hop_world := w\<rparr>)
   | (Inr leg, w) \<Rightarrow> (Inr leg, log_event a (Asked q leg) (s\<lparr>hop_world := w\<rparr>)))"

definition do_melt :: "'w HopEffects \<Rightarrow> string \<Rightarrow> string \<Rightarrow> ('l, 'w, u64) hop_run" where
  "do_melt e a q = atomic (\<lambda>s. case e_melt e q (hop_world s) of (r, w) \<Rightarrow> (r, log_event a (Melted q) (s\<lparr>hop_world := w\<rparr>)))"

text \<open>The loop of the melt leg. It returns the fee this run paid, whether an earlier run melted, and
  continues after a replacement; \<open>n\<close> counts the replacements, so it ends.\<close>

function melt_loop ::
  "'l hop_codec \<Rightarrow> 'w HopEffects \<Rightarrow> HopJournal \<Rightarrow> string \<Rightarrow> nat \<Rightarrow> bool \<Rightarrow> u64 option \<Rightarrow> ('l, 'w, u64 option \<times> bool) hop_run"
where
  "melt_loop c e pairing active n melted_this_run fee =
     (let a = hj_attempt_id pairing in
      hop_try (ask_melt e a active) (\<lambda>leg.
        case leg of
          MeltUnpaid \<Rightarrow> hop_try (do_melt e a active) (\<lambda>paid. Done (Inr (Some paid, False)))
        | MeltPending \<Rightarrow> hop_fail (MeltInFlight a active)
        | MeltPaid \<Rightarrow> Done (Inr (fee, \<not> melted_this_run))
        | MeltFailedLeg \<Rightarrow>
            hop_try (call_mint (e_target_invoice e (hj_mint_quote_id pairing))) (\<lambda>(invoice_state, bolt11).
              if invoice_state = MintPaid \<or> invoice_state = MintIssued then Done (Inr (fee, True))
              else if invoice_state = MintPending then hop_fail (AmbiguousTarget a (hj_mint_quote_id pairing))
              else if n \<ge> MAX_MELT_SUPERSESSIONS then hop_fail (MeltSupersessionExhausted a n)
              else
                hop_try (call_mint (e_supersede_melt_quote e bolt11)) (\<lambda>(q, cost).
                hop_try (call_mint (e_require_source_covers e cost)) (\<lambda>_.
                  if cost > hj_planned_cost pairing
                  then hop_fail (ReplacementCostExceedsAuthorization a (hj_planned_cost pairing) cost)
                  else
                    hop_try (journal_append c (HMeltSuperseded a active q cost)) (\<lambda>_.
                    hop_try (do_melt e a q) (\<lambda>paid.
                      melt_loop c e pairing q (n + 1) True (Some paid))))))))"
  by auto
termination
  by (relation "measure (\<lambda>(_, _, _, _, n, _). MAX_MELT_SUPERSESSIONS - n)") auto

declare melt_loop.simps [simp del]

definition mint_stage ::
  "'l hop_codec \<Rightarrow> 'w HopEffects \<Rightarrow> HopJournal \<Rightarrow> u64 option \<times> bool \<Rightarrow> ('l, 'w, HopSettled) hop_run"
where
  "mint_stage c e pairing res =
     (case res of (fee, melted_earlier) \<Rightarrow>
      let a = hj_attempt_id pairing; quote = hj_mint_quote_id pairing; sats = hj_delivered_sats pairing in
      hop_try (call_mint (e_mint_leg e quote)) (\<lambda>leg.
      hop_try (case leg of
                 MintIssued \<Rightarrow> Done (Inr sats)
               | MintPending \<Rightarrow> hop_fail (AmbiguousTarget a quote)
               | _ \<Rightarrow> call_mint (e_mint e quote sats)) (\<lambda>minted.
        if minted \<noteq> sats then hop_fail (MintedAmountMismatch sats minted)
        else hop_try (journal_append c (HSettled a minted)) (\<lambda>_.
          Done (Inr \<lparr>hs_minted_sats = minted, recovered_strand = (melted_earlier \<and> leg \<noteq> MintIssued),
            unused_fee_reserve_sats =
              (case fee of None \<Rightarrow> 0 | Some actual \<Rightarrow> saturating_sub (reserved_ln_fee_sats pairing) actual)\<rparr>)))))"

definition resume_hop :: "'l hop_codec \<Rightarrow> 'w HopEffects \<Rightarrow> HopJournal \<Rightarrow> ('l, 'w, HopSettled) hop_run" where
  "resume_hop c e pairing =
     hop_try (journal_read c (hj_attempt_id pairing)) (\<lambda>records.
       case active_melt records of
         None \<Rightarrow> hop_fail (HopJournalError ''Planned record was established but active melt is missing'')
       | Some (active, n) \<Rightarrow> hop_try (melt_loop c e pairing active n False None) (mint_stage c e pairing))"

definition run_hop :: "'l hop_codec \<Rightarrow> 'w HopEffects \<Rightarrow> HopJournal \<Rightarrow> ('l, 'w, HopSettled) hop_run" where
  "run_hop c e j =
     hop_try (journal_read c (hj_attempt_id j)) (\<lambda>records.
       case settled_of records of
         Some minted \<Rightarrow> Done (Inr \<lparr>hs_minted_sats = minted, recovered_strand = False, unused_fee_reserve_sats = 0\<rparr>)
       | None \<Rightarrow>
           (case planned_of records of
              None \<Rightarrow> hop_try (journal_append c (HPlanned j)) (\<lambda>_. resume_hop c e j)
            | Some persisted \<Rightarrow>
                if persisted = j then resume_hop c e j
                else hop_fail (PairingConflict (hj_attempt_id j) persisted j)))"

definition journalled_pairing :: "'l hop_codec \<Rightarrow> string \<Rightarrow> ('l, 'w, HopJournal option) hop_run" where
  "journalled_pairing c a = hop_try (journal_read c a) (\<lambda>records. Done (Inr (planned_of records)))"

section \<open>The plan and the sweep\<close>

definition checked_mul :: "u64 \<Rightarrow> u64 \<Rightarrow> u64 option" where
  "checked_mul x y = (if unat x * unat y < 2 ^ 64 then Some (x * y) else None)"

definition authorized_hop_cost :: "u64 \<Rightarrow> u64 \<Rightarrow> u64 \<Rightarrow> HopError + u64" where
  "authorized_hop_cost quoted_cost fee_reserve multiplier =
     try_bind (ok_or (HopMint ''cross-mint hop fee buffer overflows u64'') (checked_mul fee_reserve multiplier)) (\<lambda>buffer.
       ok_or (HopMint ''cross-mint hop authorized cost overflows u64'') (checked_add quoted_cost buffer))"

text \<open>The calls of the two wallets that pricing a hop makes, and their mint URLs.\<close>

record 'w quote_wallets =
  qw_source_mint :: string
  qw_target_mint :: string
  qw_mint_quote :: "u64 \<Rightarrow> 'w \<Rightarrow> (HopError + (string \<times> string)) \<times> 'w"
  qw_melt_quote :: "string \<Rightarrow> 'w \<Rightarrow> (HopError + (string \<times> u64 \<times> u64)) \<times> 'w"
  qw_input_fee_ceiling :: "'w \<Rightarrow> (HopError + u64) \<times> 'w"
  qw_total_balance :: "'w \<Rightarrow> (HopError + u64) \<times> 'w"

definition raise_melt_quote :: "'w quote_wallets \<Rightarrow> string \<Rightarrow> 'w \<Rightarrow> (HopError + (string \<times> u64 \<times> HopCost)) \<times> 'w" where
  "raise_melt_quote q bolt11 =
     st_bind (qw_melt_quote q bolt11) (\<lambda>(i, melt_amount, fee_reserve).
     st_bind (qw_input_fee_ceiling q) (\<lambda>input_fee.
       let cost = \<lparr>hc_melt_amount = melt_amount, hc_fee_reserve = fee_reserve, hc_input_fee = input_fee\<rparr> in
       st_lift (try_bind (map_err (\<lambda>_. HopMint ''cross-mint hop cost overflows u64'') (planned_cost cost)) (\<lambda>quoted.
         Inr (i, quoted, cost)))))"

definition require_source_covers :: "'w quote_wallets \<Rightarrow> u64 \<Rightarrow> 'w \<Rightarrow> (HopError + unit) \<times> 'w" where
  "require_source_covers q cost =
     st_bind (qw_total_balance q) (\<lambda>balance.
       st_lift (if balance < cost then Inl (InsufficientSource (qw_source_mint q) balance cost) else Inr ()))"

definition plan_quotes :: "'w quote_wallets \<Rightarrow> u64 \<Rightarrow> string \<Rightarrow> u64 \<Rightarrow> 'w \<Rightarrow> (HopError + HopJournal) \<times> 'w" where
  "plan_quotes q multiplier attempt delivered =
     (if delivered = 0 then st_lift (Inl (HopMint ''cross-mint hop: delivery amount is 0''))
      else
      st_bind (qw_mint_quote q delivered) (\<lambda>(mint_quote, request).
      if is_blank request then st_lift (Inl (HopMint ''target mint returned an empty bolt11''))
      else
      st_bind (raise_melt_quote q request) (\<lambda>(melt_quote, quoted, cost).
      st_bind (require_source_covers q quoted) (\<lambda>_.
        st_lift (try_bind (authorized_hop_cost quoted (hc_fee_reserve cost) multiplier) (\<lambda>planned. Inr
          \<lparr>hj_attempt_id = attempt, hj_source_mint = qw_source_mint q, hj_melt_quote_id = melt_quote,
           hj_target_mint = qw_target_mint q, hj_mint_quote_id = mint_quote, hj_delivered_sats = delivered,
           hj_planned_cost = planned, hj_fee_reserve = hc_fee_reserve cost, hj_input_fee = hc_input_fee cost\<rparr>))))))"

definition require_both_mints_recovered :: "string list \<Rightarrow> HopJournal \<Rightarrow> HopError + unit" where
  "require_both_mints_recovered recovered pairing =
     (if hj_source_mint pairing \<notin> set recovered \<or> hj_target_mint pairing \<notin> set recovered
      then Inl (HopJournalError ''saga recovery does not include a mint of the hop'') else Inr ())"

text \<open>Opening the wallets of a hop gives their mint URLs as the wallets print them; recovering the sagas
  of a wallet either completes or is held for a reason.\<close>

record 'w sweep_wallets =
  sw_open :: "string \<Rightarrow> string \<Rightarrow> 'w \<Rightarrow> (HopError + (string \<times> string)) \<times> 'w"
  sw_recover :: "string \<Rightarrow> 'w \<Rightarrow> (HopError + string option) \<times> 'w"

definition open_hop_wallets :: "'w sweep_wallets \<Rightarrow> string \<Rightarrow> string \<Rightarrow> ('l, 'w, string \<times> string) hop_run" where
  "open_hop_wallets w source target =
     (case try_bind (is_nostr_scheme source) (\<lambda>s. if s then Inr (Some ''source mint'') else
             try_bind (is_nostr_scheme target) (\<lambda>t. Inr (if t then Some ''target mint'' else None))) of
        Inl _ \<Rightarrow> hop_fail HopPanic
      | Inr (Some m) \<Rightarrow> hop_fail (HopMint m)
      | Inr None \<Rightarrow> call_mint (sw_open w source target))"

definition recover_mint :: "'w sweep_wallets \<Rightarrow> string \<Rightarrow> ('l, 'w, string) hop_run" where
  "recover_mint w url =
     hop_try (call_mint (sw_recover w url)) (\<lambda>held.
       case held of Some reason \<Rightarrow> hop_fail (HopMint reason) | None \<Rightarrow> Done (Inr url))"

definition sweep_one :: "'l hop_codec \<Rightarrow> 'w HopEffects \<Rightarrow> 'w sweep_wallets \<Rightarrow> HopJournal \<Rightarrow> ('l, 'w, HopSettled) hop_run" where
  "sweep_one c e w pairing =
     hop_try (open_hop_wallets w (hj_source_mint pairing) (hj_target_mint pairing)) (\<lambda>(source, target).
     hop_try (recover_mint w source) (\<lambda>s.
     hop_try (recover_mint w target) (\<lambda>t.
       case require_both_mints_recovered [s, t] pairing of
         Inl err \<Rightarrow> hop_fail err
       | Inr _ \<Rightarrow> run_hop c e pairing)))"

type_synonym SweptHop = "string \<times> (HopError + HopSettled)"

fun sweep_ids ::
  "'l hop_codec \<Rightarrow> 'w HopEffects \<Rightarrow> 'w sweep_wallets \<Rightarrow> string list \<Rightarrow> SweptHop list \<Rightarrow> ('l, 'w, SweptHop list) hop_run"
where
  "sweep_ids c e w [] swept = Done (Inr swept)"
| "sweep_ids c e w (a # as) swept =
     hop_try (journal_read c a) (\<lambda>records.
       if settled_of records \<noteq> None then sweep_ids c e w as swept
       else case planned_of records of
         None \<Rightarrow> sweep_ids c e w as swept
       | Some pairing \<Rightarrow>
           pbind (sweep_one c e w pairing) (\<lambda>result. sweep_ids c e w as (swept @ [(a, result)])))"

definition sweep_hops :: "'l hop_codec \<Rightarrow> 'w HopEffects \<Rightarrow> 'w sweep_wallets \<Rightarrow> ('l, 'w, SweptHop list) hop_run" where
  "sweep_hops c e w = pbind (atomic (\<lambda>s. (attempt_ids s, s))) (\<lambda>ids. sweep_ids c e w ids [])"

end
