(* ===== verification/Hop_Safety.thy ===== *)
theory Hop_Safety
  imports Crossmint_Hop
begin

text \<open>
  What the journal of a hop achieves: over any sequence of runs and sweeps, each of which may be cut
  off at any action, with any answers of the mints, a second quote is melted only after the source
  mint has said that the first one failed.
\<close>

section \<open>The log of an attempt\<close>

text \<open>The source mint has said that a quote failed, after it was last melted.\<close>

definition dead :: "string \<Rightarrow> hop_event list \<Rightarrow> bool" where
  "dead p l \<longleftrightarrow> (\<exists>m < length l. l ! m = Asked p MeltFailedLeg \<and> Melted p \<notin> set (drop (Suc m) l))"

definition log_ok :: "hop_event list \<Rightarrow> bool" where
  "log_ok l \<longleftrightarrow> (\<forall>i q p. i < length l \<and> l ! i = Melted q \<and> Melted p \<in> set (take i l) \<longrightarrow> p = q \<or> dead p (take i l))"

lemma dead_snoc: "dead p l \<Longrightarrow> ev \<noteq> Melted p \<Longrightarrow> dead p (l @ [ev])"
  unfolding dead_def by (metis Suc_leI drop_append length_append_singleton less_SucI not_less_eq nth_append set_append Un_iff
      append_take_drop_id diff_is_0_eq drop0 empty_iff list.set(1) set_ConsD)

lemma dead_now: "dead p (l @ [Asked p MeltFailedLeg])"
  unfolding dead_def by (intro exI [of _ "length l"]) simp

lemma log_okD: "log_ok l \<Longrightarrow> i < length l \<Longrightarrow> l ! i = Melted q \<Longrightarrow> Melted p \<in> set (take i l) \<Longrightarrow> p = q \<or> dead p (take i l)"
  unfolding log_ok_def by blast

lemma log_ok_snoc:
  assumes "log_ok l" and "\<And>q p. ev = Melted q \<Longrightarrow> Melted p \<in> set l \<Longrightarrow> p = q \<or> dead p l"
  shows "log_ok (l @ [ev])"
  unfolding log_ok_def
proof (intro allI impI, elim conjE)
  fix i q p
  assume i: "i < length (l @ [ev])" "(l @ [ev]) ! i = Melted q" "Melted p \<in> set (take i (l @ [ev]))"
  show "p = q \<or> dead p (take i (l @ [ev]))"
  proof (cases "i < length l")
    case True
    then show ?thesis using log_okD [OF assms(1) True] i by (simp add: nth_append)
  next
    case False
    then have "i = length l" using i(1) by simp
    then show ?thesis using assms(2) [of q p] i by simp
  qed
qed

text \<open>What the log means for two melts: between them the source mint said that the first failed.\<close>

lemma log_ok_between:
  assumes "log_ok l" and "i < k" and "k < length l" and "l ! i = Melted p" and "l ! k = Melted q" and "p \<noteq> q"
  shows "\<exists>m. i < m \<and> m < k \<and> l ! m = Asked p MeltFailedLeg"
proof -
  have "Melted p \<in> set (take k l)" using assms(2-4) by (metis in_set_conv_nth length_take min.absorb4 nth_take)
  from log_okD [OF assms(1,3,5) this] obtain m where m: "m < k" "l ! m = Asked p MeltFailedLeg" "Melted p \<notin> set (drop (Suc m) (take k l))"
    using assms(3,6) by (auto simp: dead_def)
  have "i < m"
  proof (rule ccontr)
    assume "\<not> i < m"
    then have "m < i" using m(2) assms(4) by (metis hop_event.distinct(1) linorder_neqE_nat)
    then have "drop (Suc m) (take k l) ! (i - Suc m) = Melted p" "i - Suc m < length (drop (Suc m) (take k l))"
      using assms(2-4) by auto
    then show False using m(3) by (metis nth_mem)
  qed
  with m show ?thesis by blast
qed

section \<open>The journal of an attempt\<close>

fun is_replacement :: "HopRecord \<Rightarrow> bool" where
  "is_replacement (HMeltSuperseded _ _ _ _) = True"
| "is_replacement _ = False"

fun follows_plan_of :: "string \<Rightarrow> HopJournal \<Rightarrow> HopRecord \<Rightarrow> bool" where
  "follows_plan_of a j (HPlanned _) = False"
| "follows_plan_of a j (HMeltSuperseded b _ _ cost) \<longleftrightarrow> b = a \<and> cost \<le> hj_planned_cost j"
| "follows_plan_of a j (HSettled b n) \<longleftrightarrow> b = a \<and> n = hj_delivered_sats j"

text \<open>One pairing, then replacements within its cost and number, and settlements of its amount.\<close>

definition one_pairing :: "string \<Rightarrow> HopRecord list \<Rightarrow> bool" where
  "one_pairing a rs \<longleftrightarrow> rs = [] \<or> (\<exists>j rest. rs = HPlanned j # rest \<and> hj_attempt_id j = a \<and> list_all (follows_plan_of a j) rest \<and>
     length (filter is_replacement rest) \<le> MAX_MELT_SUPERSESSIONS)"

definition linked :: "hop_event list \<Rightarrow> HopRecord list \<Rightarrow> bool" where
  "linked l rs \<longleftrightarrow> (\<forall>p. Melted p \<in> set l \<longrightarrow> (\<exists>q n. active_melt rs = Some (q, n) \<and> (p = q \<or> dead p l)))"

definition attempt_ok :: "'l hop_codec \<Rightarrow> string \<Rightarrow> ('l, 'w) hop_state \<Rightarrow> bool" where
  "attempt_ok c a s \<longleftrightarrow> log_ok (hop_log s a) \<and>
     (hf_torn (file_of a s) \<or> (\<exists>rs. decode_records c (file_of a s) = Inr rs \<and> one_pairing a rs \<and> linked (hop_log s a) rs))"

definition hop_ok :: "'l hop_codec \<Rightarrow> ('l, 'w) hop_state \<Rightarrow> bool" where
  "hop_ok c s \<longleftrightarrow> (\<forall>a. attempt_ok c a s)"

definition hop_codec_ok :: "'l hop_codec \<Rightarrow> bool" where
  "hop_codec_ok c \<longleftrightarrow> (\<forall>r l. enc_hop c r = Inr l \<longrightarrow> dec_hop c l = Inr r)"

text \<open>The journal of an attempt reads as given.\<close>

definition reads :: "'l hop_codec \<Rightarrow> string \<Rightarrow> HopRecord list \<Rightarrow> ('l, 'w) hop_state \<Rightarrow> bool" where
  "reads c a rs s \<longleftrightarrow> decode_records c (file_of a s) = Inr rs"

lemma reads_ok: "hop_ok c s \<Longrightarrow> reads c a rs s \<Longrightarrow> one_pairing a rs \<and> linked (hop_log s a) rs"
  unfolding hop_ok_def attempt_ok_def reads_def decode_records_def by (metis Inl_Inr_False sum.inject(2))

lemma decode_snoc:
  "hop_codec_ok c \<Longrightarrow> enc_hop c r = Inr l \<Longrightarrow> decode_records c f = Inr rs \<Longrightarrow>
   decode_records c (f\<lparr>hf_lines := hf_lines f @ [l]\<rparr>) = Inr (rs @ [r])"
  by (auto simp: decode_records_def hop_codec_ok_def split: if_splits)

lemma file_put [simp]: "file_of b (put_file a f s) = (if b = a then f else file_of b s)"
  by (simp add: file_of_def put_file_def)

lemma put_file_other [simp]: "hop_log (put_file a f s) = hop_log s" "hop_world (put_file a f s) = hop_world s"
  by (simp_all add: put_file_def)

text \<open>A step that leaves the files alone and adds at most one event to the log of one attempt.\<close>

lemma linked_snoc: "linked l rs \<Longrightarrow> (\<And>q. ev = Melted q \<Longrightarrow> \<exists>n. active_melt rs = Some (q, n)) \<Longrightarrow> linked (l @ [ev]) rs"
  unfolding linked_def using dead_snoc by fastforce

lemma hop_ok_frame:
  fixes s t :: "('l, 'w) hop_state"
  shows "hop_ok c s \<Longrightarrow> hop_files t = hop_files s \<Longrightarrow> hop_log t = hop_log s \<Longrightarrow> hop_ok c t"
  by (simp add: hop_ok_def attempt_ok_def file_of_def)

lemma reads_frame:
  fixes s t :: "('l, 'w) hop_state"
  shows "hop_files t = hop_files s \<Longrightarrow> reads c a rs t = reads c a rs s"
  by (simp add: reads_def file_of_def)

lemma hop_ok_log:
  assumes "hop_ok c s" and "reads c a rs s" and "hop_files t = hop_files s"
    and "hop_log t = (hop_log s)(a := hop_log s a @ [ev])"
    and "\<And>q. ev = Melted q \<Longrightarrow> \<exists>n. active_melt rs = Some (q, n)"
  shows "hop_ok c t"
proof -
  have lk: "linked (hop_log s a) rs" and op: "one_pairing a rs" using reads_ok [OF assms(1,2)] by auto
  have "log_ok (hop_log s a @ [ev])"
    using assms(1) lk assms(5) by (intro log_ok_snoc) (fastforce simp: hop_ok_def attempt_ok_def linked_def)+
  moreover have "linked (hop_log s a @ [ev]) rs" using lk assms(5) by (rule linked_snoc)
  ultimately have "attempt_ok c a t"
    using op assms(2-4) by (auto simp: attempt_ok_def reads_def file_of_def)
  moreover have "attempt_ok c b t" if "b \<noteq> a" for b
    using assms(1,3,4) that by (simp add: hop_ok_def attempt_ok_def file_of_def)
  ultimately show ?thesis unfolding hop_ok_def by metis
qed

text \<open>A step that adds a record to the journal of one attempt, or tears it.\<close>

lemma hop_ok_put:
  assumes "hop_ok c s" and "hf_torn f \<or> decode_records c f = Inr rs \<and> one_pairing a rs \<and> linked (hop_log s a) rs"
  shows "hop_ok c (put_file a f s)"
  using assms by (auto simp: hop_ok_def attempt_ok_def)

lemma draw_fault_frame: "draw_fault s = (f, t) \<Longrightarrow> hop_files t = hop_files s \<and> hop_log t = hop_log s"
  by (auto simp: draw_fault_def split: list.splits)

lemma replay_reads: "hop_replay c a s = (Inr rs, t) \<Longrightarrow> reads c a rs t"
  by (auto simp: hop_replay_def reads_def split: prod.splits option.splits)

lemma replay_frame: "hop_replay c a s = (r, t) \<Longrightarrow> hop_files t = hop_files s \<and> hop_log t = hop_log s"
  by (auto simp: hop_replay_def dest: draw_fault_frame split: prod.splits option.splits)

lemma append_ok:
  assumes "hop_codec_ok c" and "hop_ok c s" and "hop_append_sync c r s = (x, t)" and a: "a = record_attempt_id r"
    and rs: "reads c a rs s" and "one_pairing a (rs @ [r])" and "linked (hop_log s a) (rs @ [r])"
  shows "hop_ok c t \<and> hop_log t = hop_log s \<and> (x = Inr () \<longrightarrow> reads c a (rs @ [r]) t)"
proof -
  obtain f u where d: "draw_fault s = (f, u)" by (cases "draw_fault s") auto
  have u: "hop_ok c u" "reads c a rs u" "hop_log u = hop_log s"
    using draw_fault_frame [OF d] hop_ok_frame assms(2) rs reads_frame by blast+
  have same: "hop_ok c (put_file a (file_of a u) u)" "file_of a (put_file a (file_of a u) u) = file_of a u"
    using u reads_ok [OF u(1,2)] by (auto intro!: hop_ok_put simp: reads_def)
  have new: "decode_records c ((file_of a u)\<lparr>hf_lines := hf_lines (file_of a u) @ [l]\<rparr>) = Inr (rs @ [r])"
    if "enc_hop c r = Inr l" for l using decode_snoc [OF assms(1) that] u(2) by (simp add: reads_def)
  have put: "hop_ok c (put_file a ((file_of a u)\<lparr>hf_lines := hf_lines (file_of a u) @ [l]\<rparr>) (put_file a (file_of a u) u))"
    if "enc_hop c r = Inr l" for l
    by (rule hop_ok_put [OF same(1)]) (use new [OF that] assms(6,7) u(3) in auto)
  have torn: "hop_ok c (put_file a ((file_of a u)\<lparr>hf_torn := True\<rparr>) (put_file a (file_of a u) u))"
    by (rule hop_ok_put [OF same(1)]) simp
  show ?thesis
    using assms(3) u same new put torn
    by (auto simp: hop_append_sync_def d Let_def a [symmetric] reads_def try_bind_def map_err_def
        split: option.splits hop_fault.splits sum.splits if_splits)
qed

section \<open>Runs\<close>

definition otherwise :: "('a \<Rightarrow> 's \<Rightarrow> bool) \<Rightarrow> 'e + 'a \<Rightarrow> 's \<Rightarrow> bool" where
  "otherwise Q r s = (case r of Inl _ \<Rightarrow> True | Inr x \<Rightarrow> Q x s)"

lemma otherwise_simps [simp]: "otherwise Q (Inl e) s" "otherwise Q (Inr x) = Q x"
  by (simp_all add: otherwise_def fun_eq_iff)

lemma secure_try:
  "secure I p (otherwise (\<lambda>x. secure I (k x) (otherwise Q))) s \<Longrightarrow> secure I (hop_try p k) (otherwise Q) s"
  unfolding hop_try_def secure_pbind
  by (erule secure_mono) (auto simp: otherwise_def split: sum.splits)

lemma secure_fail [simp]: "secure I (hop_fail e) (otherwise Q) s"
  by (simp add: hop_fail_def)

text \<open>A run stands at a quote: the journal has the pairing, and this is its quote in force.\<close>

definition stands :: "'l hop_codec \<Rightarrow> HopJournal \<Rightarrow> string \<Rightarrow> nat \<Rightarrow> ('l, 'w) hop_state \<Rightarrow> bool" where
  "stands c j q n s \<longleftrightarrow> hop_ok c s \<and>
     (\<exists>rs. reads c (hj_attempt_id j) rs s \<and> planned_of rs = Some j \<and> active_melt rs = Some (q, n))"

lemma stands_hop_ok: "stands c j q n s \<Longrightarrow> hop_ok c s"
  by (simp add: stands_def)

lemma stands_frame:
  fixes s t :: "('l, 'w) hop_state"
  shows "stands c j q n s \<Longrightarrow> hop_files t = hop_files s \<Longrightarrow> hop_log t = hop_log s \<Longrightarrow> stands c j q n t"
  unfolding stands_def using hop_ok_frame reads_frame by metis

lemma secure_call:
  assumes "hop_ok c s" and "\<And>r t. hop_files t = hop_files s \<Longrightarrow> hop_log t = hop_log s \<Longrightarrow> Q r t"
  shows "secure (hop_ok c) (call_mint m) Q s"
  using assms hop_ok_frame [OF assms(1)] by (auto simp: call_mint_def split: prod.splits)

lemma secure_read:
  assumes "hop_ok c s"
    and "\<And>rs t. hop_ok c t \<Longrightarrow> reads c a rs t \<Longrightarrow> hop_files t = hop_files s \<Longrightarrow> Q rs t"
  shows "secure (hop_ok c) (journal_read c a) (otherwise Q) s"
proof -
  obtain r t where r: "hop_replay c a s = (r, t)" by (cases "hop_replay c a s") auto
  with replay_frame hop_ok_frame [OF assms(1)] have "hop_ok c t" "hop_files t = hop_files s" by blast+
  with r assms(2) replay_reads [of c a s] show ?thesis
    by (cases r) (auto simp: journal_read_def)
qed

lemma secure_ask:
  assumes "stands c j q n s"
    and "\<And>leg t. stands c j q n t \<Longrightarrow> (leg = MeltFailedLeg \<longrightarrow> dead q (hop_log t (hj_attempt_id j))) \<Longrightarrow> Q leg t"
  shows "secure (hop_ok c) (ask_melt e (hj_attempt_id j) q) (otherwise Q) s"
proof -
  obtain rs where rs: "hop_ok c s" "reads c (hj_attempt_id j) rs s" "planned_of rs = Some j" "active_melt rs = Some (q, n)"
    using assms(1) by (auto simp: stands_def)
  have ok: "hop_ok c (s\<lparr>hop_world := w\<rparr>)" for w by (rule hop_ok_frame [OF rs(1)]) simp_all
  have ask: "stands c j q n (log_event (hj_attempt_id j) (Asked q leg) (s\<lparr>hop_world := w\<rparr>))" for leg w
  proof -
    have "hop_ok c (log_event (hj_attempt_id j) (Asked q leg) (s\<lparr>hop_world := w\<rparr>))"
      by (rule hop_ok_log [OF rs(1,2)]) (auto simp: log_event_def)
    then show ?thesis unfolding stands_def using rs by (auto simp: reads_def file_of_def log_event_def)
  qed
  have log: "hop_log (log_event a (Asked q MeltFailedLeg) t) a = hop_log t a @ [Asked q MeltFailedLeg]" for a and t :: "('a, 'b) hop_state"
    by (simp add: log_event_def)
  show ?thesis
    unfolding ask_melt_def using ok stands_hop_ok [OF ask] assms(2) [OF ask]
    by (auto simp: log dead_now split: prod.splits sum.splits)
qed

lemma secure_melt:
  assumes "stands c j q n s" and "\<And>x t. stands c j q n t \<Longrightarrow> Q x t"
  shows "secure (hop_ok c) (do_melt e (hj_attempt_id j) q) (otherwise Q) s"
proof -
  obtain rs where rs: "hop_ok c s" "reads c (hj_attempt_id j) rs s" "planned_of rs = Some j" "active_melt rs = Some (q, n)"
    using assms(1) by (auto simp: stands_def)
  have "stands c j q n (log_event (hj_attempt_id j) (Melted q) (s\<lparr>hop_world := w\<rparr>))" for w
  proof -
    have "hop_ok c (log_event (hj_attempt_id j) (Melted q) (s\<lparr>hop_world := w\<rparr>))"
      by (rule hop_ok_log [OF rs(1,2)]) (use rs in \<open>auto simp: log_event_def\<close>)
    then show ?thesis unfolding stands_def using rs by (auto simp: reads_def file_of_def log_event_def)
  qed
  from assms(2) [OF this] stands_hop_ok [OF this] show ?thesis
    by (auto simp: do_melt_def otherwise_def split: prod.splits sum.splits)
qed

lemma active_melt_count:
  "list_all (follows_plan_of a j) rest \<Longrightarrow> snd (foldl active_step (cur, m) rest) = m + length (filter is_replacement rest)"
proof (induction rest arbitrary: cur m)
  case (Cons r rest)
  then show ?case by (cases r) auto
qed simp

lemma active_melt_snoc [simp]:
  "active_melt (rs @ [HSettled a sats]) = active_melt rs"
  "active_melt rs = Some (p, n) \<Longrightarrow> active_melt (rs @ [HMeltSuperseded a p q cost]) = Some (q, Suc n)"
  by (auto simp: active_melt_def split: prod.splits)

lemma planned_of_snoc: "planned_of rs = Some j \<Longrightarrow> planned_of (rs @ rs') = Some j"
  by (induction rs rule: planned_of.induct) auto

lemma one_pairing_planned: "one_pairing a rs \<Longrightarrow> planned_of rs = None \<longleftrightarrow> rs = []"
  by (auto simp: one_pairing_def)

lemma one_pairing_snoc:
  assumes "one_pairing a rs" and "planned_of rs = Some j" and "active_melt rs = Some (q, n)"
    and "follows_plan_of a j r" and "is_replacement r \<Longrightarrow> n < MAX_MELT_SUPERSESSIONS"
  shows "one_pairing a (rs @ [r])"
proof -
  obtain rest where rest: "rs = HPlanned j # rest" "hj_attempt_id j = a" "list_all (follows_plan_of a j) rest"
      "length (filter is_replacement rest) \<le> MAX_MELT_SUPERSESSIONS"
    using assms(1,2) by (auto simp: one_pairing_def)
  then have "n = length (filter is_replacement rest)"
    using assms(3) active_melt_count [OF rest(3), of "Some (hj_melt_quote_id j)" 0]
    by (auto simp: active_melt_def split: prod.splits)
  then show ?thesis using rest assms(4,5) by (auto simp: one_pairing_def)
qed

lemma secure_append:
  assumes "hop_codec_ok c" and "hop_ok c s" and "reads c (record_attempt_id r) rs s"
    and "one_pairing (record_attempt_id r) (rs @ [r])" and "linked (hop_log s (record_attempt_id r)) (rs @ [r])"
    and "\<And>t. hop_ok c t \<Longrightarrow> reads c (record_attempt_id r) (rs @ [r]) t \<Longrightarrow> Q () t"
  shows "secure (hop_ok c) (journal_append c r) (otherwise Q) s"
proof -
  obtain x t where x: "hop_append_sync c r s = (x, t)" by (cases "hop_append_sync c r s") auto
  with append_ok [OF assms(1,2) x refl assms(3,4,5)] assms(6) show ?thesis
    by (auto simp: journal_append_def otherwise_def split: sum.splits)
qed

lemma secure_supersede:
  fixes s :: "('l, 'w) hop_state"
  assumes "hop_codec_ok c" and "stands c j p n s" and "dead p (hop_log s (hj_attempt_id j))"
    and "n < MAX_MELT_SUPERSESSIONS" and "cost \<le> hj_planned_cost j" and "\<And>t. stands c j q (Suc n) t \<Longrightarrow> Q () t"
  shows "secure (hop_ok c) (journal_append c (HMeltSuperseded (hj_attempt_id j) p q cost)) (otherwise Q) s"
proof -
  obtain rs where rs: "hop_ok c s" "reads c (hj_attempt_id j) rs s" "planned_of rs = Some j" "active_melt rs = Some (p, n)"
    using assms(2) by (auto simp: stands_def)
  note ok = reads_ok [OF rs(1,2)]
  show ?thesis
  proof (rule secure_append [OF assms(1) rs(1)])
    show "reads c (record_attempt_id (HMeltSuperseded (hj_attempt_id j) p q cost)) rs s" using rs(2) by simp
    show "one_pairing (record_attempt_id (HMeltSuperseded (hj_attempt_id j) p q cost))
        (rs @ [HMeltSuperseded (hj_attempt_id j) p q cost])"
      using one_pairing_snoc [of "hj_attempt_id j" rs j p n] ok rs assms(4,5) by simp
    show "linked (hop_log s (record_attempt_id (HMeltSuperseded (hj_attempt_id j) p q cost)))
        (rs @ [HMeltSuperseded (hj_attempt_id j) p q cost])"
      using ok assms(3) rs(4) by (auto simp: linked_def)
    fix t :: "('l, 'w) hop_state"
    assume "hop_ok c t" "reads c (record_attempt_id (HMeltSuperseded (hj_attempt_id j) p q cost))
        (rs @ [HMeltSuperseded (hj_attempt_id j) p q cost]) t"
    then have "stands c j q (Suc n) t" using rs planned_of_snoc [OF rs(3)] by (auto simp: stands_def)
    then show "Q () t" by (rule assms(6))
  qed
qed

text \<open>The journal of a settled attempt: whatever is settled is the amount of the pairing.\<close>

definition settled :: "'l hop_codec \<Rightarrow> string \<Rightarrow> HopSettled \<Rightarrow> ('l, 'w) hop_state \<Rightarrow> bool" where
  "settled c a r s \<longleftrightarrow> hop_ok c s \<and> (\<exists>rs j. reads c a rs s \<and> planned_of rs = Some j \<and>
     settled_of rs = Some (hs_minted_sats r) \<and> hs_minted_sats r = hj_delivered_sats j)"

lemma settled_of_amount: "list_all (follows_plan_of a j) rest \<Longrightarrow> settled_of rest = Some m \<Longrightarrow> m = hj_delivered_sats j"
  by (induction rest rule: settled_of.induct) auto

lemma one_pairing_settled:
  "one_pairing a rs \<Longrightarrow> settled_of rs = Some m \<Longrightarrow> \<exists>j. planned_of rs = Some j \<and> m = hj_delivered_sats j"
  by (auto simp: one_pairing_def dest: settled_of_amount)

lemma settled_of_snoc: "settled_of (rs @ [HSettled a m]) \<noteq> None"
  by (induction rs rule: settled_of.induct) auto

lemma settledI:
  assumes "hop_ok c s" and "reads c a rs s" and "settled_of rs = Some m" and "hs_minted_sats r = m"
  shows "settled c a r s"
  unfolding settled_def using assms one_pairing_settled [of a rs m] reads_ok [OF assms(1,2)] by blast

lemma secure_settle:
  fixes s :: "('l, 'w) hop_state"
  assumes "hop_codec_ok c" and "stands c j q n s" and "hs_minted_sats r = hj_delivered_sats j"
  shows "secure (hop_ok c) (journal_append c (HSettled (hj_attempt_id j) (hj_delivered_sats j)))
     (otherwise (\<lambda>_. settled c (hj_attempt_id j) r)) s"
proof -
  let ?r = "HSettled (hj_attempt_id j) (hj_delivered_sats j)"
  obtain rs where rs: "hop_ok c s" "reads c (hj_attempt_id j) rs s" "planned_of rs = Some j" "active_melt rs = Some (q, n)"
    using assms(2) by (auto simp: stands_def)
  note ok = reads_ok [OF rs(1,2)]
  have one: "one_pairing (hj_attempt_id j) (rs @ [?r])" by (rule one_pairing_snoc [OF _ rs(3,4)]) (use ok in auto)
  have "settled c (hj_attempt_id j) r t" if "hop_ok c t" "reads c (hj_attempt_id j) (rs @ [?r]) t" for t :: "('l, 'w) hop_state"
  proof -
    obtain m where m: "settled_of (rs @ [?r]) = Some m" using settled_of_snoc by fastforce
    then have "m = hj_delivered_sats j" using one_pairing_settled [OF one] planned_of_snoc [OF rs(3)] by fastforce
    with settledI [OF that m] assms(3) show ?thesis by simp
  qed
  with rs ok one show ?thesis by (intro secure_append [OF assms(1) rs(1)]) (auto simp: linked_def)
qed

text \<open>A run is ready to replace a quote: it stands at the quote, and the quote is dead.\<close>

definition ready :: "'l hop_codec \<Rightarrow> HopJournal \<Rightarrow> string \<Rightarrow> nat \<Rightarrow> ('l, 'w) hop_state \<Rightarrow> bool" where
  "ready c j q n s \<longleftrightarrow> stands c j q n s \<and> dead q (hop_log s (hj_attempt_id j))"

lemma stands_call:
  assumes "stands c j q n s" and "\<And>x t. stands c j q n t \<Longrightarrow> secure (hop_ok c) (k x) (otherwise Q) t"
  shows "secure (hop_ok c) (hop_try (call_mint m) k) (otherwise Q) s"
  using assms stands_frame [OF assms(1)] stands_hop_ok [OF assms(1)]
  by (intro secure_try secure_call) (auto simp: otherwise_def split: sum.splits)

lemma ready_call:
  assumes "ready c j q n s" and "\<And>x t. ready c j q n t \<Longrightarrow> secure (hop_ok c) (k x) (otherwise Q) t"
  shows "secure (hop_ok c) (hop_try (call_mint m) k) (otherwise Q) s"
  using assms stands_frame [of c j q n s] stands_hop_ok [of c j q n s]
  by (intro secure_try secure_call) (auto simp: otherwise_def ready_def split: sum.splits)

lemma secure_melt_loop:
  fixes s :: "('l, 'w) hop_state"
  assumes "hop_codec_ok c" and "stands c j q n s"
  shows "secure (hop_ok c) (melt_loop c e j q n here fee) (otherwise (\<lambda>_ t. \<exists>q n. stands c j q n t)) s"
  using assms(2)
proof (induction "MAX_MELT_SUPERSESSIONS - n" arbitrary: n q here fee s rule: less_induct)
  case less
  have next_quote: "secure (hop_ok c) (hop_try (journal_append c (HMeltSuperseded (hj_attempt_id j) q q' cost)) (\<lambda>_.
      hop_try (do_melt e (hj_attempt_id j) q') (\<lambda>paid. melt_loop c e j q' (Suc n) True (Some paid))))
      (otherwise (\<lambda>_ t. \<exists>q n. stands c j q n t)) t"
    if "ready c j q n t" "n < MAX_MELT_SUPERSESSIONS" "cost \<le> hj_planned_cost j"
    for q' cost and t :: "('l, 'w) hop_state"
    using that less.hyps by (intro secure_try secure_supersede [OF assms(1)] secure_melt) (auto simp: ready_def)
  have start: "stands c j q n s" by (rule less.prems)
  show ?case
    unfolding melt_loop.simps [of c e j q] Let_def
    apply (rule secure_try, rule secure_ask [OF start])
    subgoal for leg t
    proof (cases leg)
      case MeltUnpaid
      show "stands c j q n t \<Longrightarrow> ?thesis"
        unfolding MeltUnpaid by (simp, rule secure_try, erule secure_melt) auto
    next
      case MeltFailedLeg
      assume "stands c j q n t" "leg = MeltFailedLeg \<longrightarrow> dead q (hop_log t (hj_attempt_id j))"
      then have "ready c j q n t" using MeltFailedLeg by (simp add: ready_def)
      then show ?thesis
        unfolding MeltFailedLeg MeltLeg.case
        apply (rule ready_call)
        apply (intro secure_pair secure_if)
           apply (auto simp: ready_def) [3]
        apply (erule ready_call, rule secure_pair, erule ready_call, rule secure_if)
        apply (auto simp: not_le not_less intro!: next_quote)
        done
    qed auto
    done
qed

lemma secure_mint_stage:
  assumes "hop_codec_ok c" and "stands c j q n s"
  shows "secure (hop_ok c) (mint_stage c e j res) (otherwise (settled c (hj_attempt_id j))) s"
proof -
  have settle: "secure (hop_ok c) (if m \<noteq> hj_delivered_sats j then hop_fail (MintedAmountMismatch (hj_delivered_sats j) m)
      else hop_try (journal_append c (HSettled (hj_attempt_id j) m)) (\<lambda>_. Done (Inr r))) (otherwise (settled c (hj_attempt_id j))) t"
    if "stands c j q n t" "hs_minted_sats r = m" for m r t
    using secure_settle [OF assms(1) that(1)] that(2) by (intro secure_if) (auto intro!: secure_try)
  show ?thesis
    unfolding mint_stage_def Let_def
    apply (rule secure_pair, rule stands_call [OF assms(2)])
    subgoal for fee earlier leg t
      apply (cases leg)
         apply (simp_all)
         apply (erule stands_call, simp add: settle)
        apply (erule stands_call, simp add: settle)
       apply (intro secure_try, simp, rule secure_try, simp, erule secure_settle [OF assms(1)], simp)
      apply (rule secure_try, simp)
      done
    done
qed

lemma secure_resume:
  fixes s :: "('l, 'w) hop_state"
  assumes "hop_codec_ok c" and "hop_ok c s" and "reads c (hj_attempt_id j) rs s" and "planned_of rs = Some j"
  shows "secure (hop_ok c) (resume_hop c e j) (otherwise (settled c (hj_attempt_id j))) s"
  unfolding resume_hop_def
proof (rule secure_try, rule secure_read [OF assms(2)])
  fix rs' and t :: "('l, 'w) hop_state"
  assume t: "hop_ok c t" "reads c (hj_attempt_id j) rs' t" "hop_files t = hop_files s"
  have "rs' = rs" using t(2) assms(3) reads_frame [OF t(3)] by (auto simp: reads_def)
  then have "stands c j q n t" if "active_melt rs' = Some (q, n)" for q n
    using t assms(4) that by (auto simp: stands_def)
  then show "secure (hop_ok c) (case active_melt rs' of
      None \<Rightarrow> hop_fail (HopJournalError ''Planned record was established but active melt is missing'')
    | Some (active, n) \<Rightarrow> hop_try (melt_loop c e j active n False None) (mint_stage c e j)) (otherwise (settled c (hj_attempt_id j))) t"
    by (auto split: option.splits intro!: secure_try secure_mono [OF secure_melt_loop [OF assms(1)]]
        secure_mint_stage [OF assms(1)] simp: otherwise_def split: sum.splits)
qed

lemma secure_run_hop:
  fixes s :: "('l, 'w) hop_state"
  assumes "hop_codec_ok c" and "hop_ok c s"
  shows "secure (hop_ok c) (run_hop c e j) (otherwise (settled c (hj_attempt_id j))) s"
  unfolding run_hop_def
proof (rule secure_try, rule secure_read [OF assms(2)])
  fix rs and t :: "('l, 'w) hop_state"
  assume t: "hop_ok c t" "reads c (hj_attempt_id j) rs t"
  note ok = reads_ok [OF t]
  have first: "secure (hop_ok c) (hop_try (journal_append c (HPlanned j)) (\<lambda>_. resume_hop c e j)) (otherwise (settled c (hj_attempt_id j))) t"
    if "planned_of rs = None"
  proof -
    have "rs = []" using ok that one_pairing_planned by blast
    with t ok show ?thesis
      by (intro secure_try secure_append [OF assms(1) t(1)] secure_resume [OF assms(1)])
        (auto simp: one_pairing_def linked_def active_melt_def)
  qed
  show "secure (hop_ok c) (case settled_of rs of
        Some minted \<Rightarrow> Done (Inr \<lparr>hs_minted_sats = minted, recovered_strand = False, unused_fee_reserve_sats = 0\<rparr>)
      | None \<Rightarrow> (case planned_of rs of
          None \<Rightarrow> hop_try (journal_append c (HPlanned j)) (\<lambda>_. resume_hop c e j)
        | Some persisted \<Rightarrow> if persisted = j then resume_hop c e j
            else hop_fail (PairingConflict (hj_attempt_id j) persisted j))) (otherwise (settled c (hj_attempt_id j))) t"
    using first secure_resume [OF assms(1) t] settledI [OF t] by (auto split: option.splits)
qed

text \<open>The sweep calls the wallets and runs hops, so it keeps the journals too.\<close>

lemma secure_always: "secure I p Q s \<Longrightarrow> I s \<Longrightarrow> secure I p (\<lambda>_. I) s"
  by (drule (1) secure_end) (erule secure_mono, simp)

lemma hop_ok_call:
  assumes "hop_ok c s" and "\<And>x t. hop_ok c t \<Longrightarrow> secure (hop_ok c) (k x) (otherwise Q) t"
  shows "secure (hop_ok c) (hop_try (call_mint m) k) (otherwise Q) s"
  using assms hop_ok_frame [OF assms(1)]
  by (intro secure_try secure_call) (auto simp: otherwise_def split: sum.splits)

lemma hop_ok_recover:
  assumes "hop_ok c s" and "\<And>x t. hop_ok c t \<Longrightarrow> secure (hop_ok c) (k x) (otherwise Q) t"
  shows "secure (hop_ok c) (hop_try (recover_mint w m) k) (otherwise Q) s"
  unfolding recover_mint_def using assms
  by (intro secure_try hop_ok_call) (auto split: option.splits)

lemma secure_sweep_one:
  assumes "hop_codec_ok c" and "hop_ok c s"
  shows "secure (hop_ok c) (sweep_one c e w j) (\<lambda>_. hop_ok c) s"
proof -
  have run: "secure (hop_ok c) (run_hop c e j) (otherwise (\<lambda>_. hop_ok c)) u" if "hop_ok c u" for u
    by (rule secure_mono [OF secure_run_hop [OF assms(1) that]]) (auto simp: otherwise_def settled_def split: sum.splits)
  have rest: "secure (hop_ok c) (hop_try (recover_mint w source) (\<lambda>s. hop_try (recover_mint w target) (\<lambda>t.
       case require_both_mints_recovered [s, t] j of Inl err \<Rightarrow> hop_fail err | Inr _ \<Rightarrow> run_hop c e j)))
       (otherwise (\<lambda>_. hop_ok c)) u" if "hop_ok c u" for source target u
    using that by (intro hop_ok_recover) (auto split: sum.splits intro: run)
  have "secure (hop_ok c) (sweep_one c e w j) (otherwise (\<lambda>_. hop_ok c)) s"
    unfolding sweep_one_def open_hop_wallets_def using assms(2)
    using hop_ok_frame [OF assms(2)]
    by (intro secure_try)
      (auto simp: otherwise_def split: sum.split option.split intro!: secure_call rest)
  then show ?thesis using assms(2) by (rule secure_always)
qed

lemma secure_sweep_ids:
  assumes "hop_codec_ok c" and "hop_ok c s"
  shows "secure (hop_ok c) (sweep_ids c e w as swept) (otherwise (\<lambda>_. hop_ok c)) s"
  using assms(2)
proof (induction as arbitrary: swept s)
  case (Cons a as)
  then show ?case
    by (auto intro!: secure_try secure_read secure_mono [OF secure_sweep_one [OF assms(1)]] split: option.splits)
qed simp

lemma secure_sweep:
  assumes "hop_codec_ok c" and "hop_ok c s"
  shows "secure (hop_ok c) (sweep_hops c e w) (otherwise (\<lambda>_. hop_ok c)) s"
  using secure_sweep_ids [OF assms] assms(2) by (simp add: sweep_hops_def)

section \<open>Histories\<close>

text \<open>Runs and sweeps one after the other, each of which may be cut off at any action. Between them the
  mints do what they like and the file system draws new faults.\<close>

inductive hop_history :: "'l hop_codec \<Rightarrow> ('l, 'w) hop_state \<Rightarrow> bool" for c where
  fresh: "hop_files s = [] \<Longrightarrow> hop_log s = (\<lambda>_. []) \<Longrightarrow> hop_history c s"
| one_run: "hop_history c s \<Longrightarrow> crash (run_hop c e j) s t \<Longrightarrow> hop_history c t"
| one_sweep: "hop_history c s \<Longrightarrow> crash (sweep_hops c e w) s t \<Longrightarrow> hop_history c t"
| outside: "hop_history c s \<Longrightarrow> hop_history c (s\<lparr>hop_world := w, hop_faults := fs\<rparr>)"

lemma hop_history_ok: "hop_history c s \<Longrightarrow> hop_codec_ok c \<Longrightarrow> hop_ok c s"
proof (induction rule: hop_history.induct)
  case (fresh s)
  then show ?case
    by (auto simp: hop_ok_def attempt_ok_def log_ok_def file_of_def decode_records_def one_pairing_def linked_def)
next
  case (one_run s e j t)
  then show ?case by (intro secure_crash [OF one_run(2) secure_run_hop]) auto
next
  case (one_sweep s e w t)
  then show ?case by (intro secure_crash [OF one_sweep(2) secure_sweep]) auto
next
  case (outside s w fs)
  show ?case by (rule hop_ok_frame [of c s]) (simp_all add: outside)
qed

text \<open>C6. 
  Pay-once across a hop, \<^verbatim>\<open>run_hop\<close>: whatever the mints answer, whatever the file system
  loses, and wherever each run is cut off, two different melt quotes are melted for one attempt
  only if the source mint said in between that the first had failed. The journal that can be read
  holds one pairing for the attempt, at most three replacements, none dearer than the cost that
  was authorised, and settlements of exactly the planned amount.
\<close>

theorem hop_replaces_only_failed_melts:
  assumes "hop_codec_ok c" and "hop_history c s"
  shows "(\<forall>i k p q. i < k \<and> k < length (hop_log s a) \<and> hop_log s a ! i = Melted p \<and> hop_log s a ! k = Melted q \<and> p \<noteq> q \<longrightarrow>
            (\<exists>m. i < m \<and> m < k \<and> hop_log s a ! m = Asked p MeltFailedLeg)) \<and>
         (\<forall>rs. decode_records c (file_of a s) = Inr rs \<longrightarrow> one_pairing a rs)"
proof (intro conjI allI impI)
  note ok = hop_history_ok [OF assms(2,1)]
  then have log: "log_ok (hop_log s a)" by (simp add: hop_ok_def attempt_ok_def)
  fix i k p q
  assume "i < k \<and> k < length (hop_log s a) \<and> hop_log s a ! i = Melted p \<and> hop_log s a ! k = Melted q \<and> p \<noteq> q"
  then show "\<exists>m. i < m \<and> m < k \<and> hop_log s a ! m = Asked p MeltFailedLeg" using log_ok_between [OF log] by blast
next
  fix rs
  assume "decode_records c (file_of a s) = Inr rs"
  then show "one_pairing a rs" using reads_ok [OF hop_history_ok [OF assms(2,1)]] by (simp add: reads_def)
qed

text \<open>C22. 
  A settled hop is final, \<^verbatim>\<open>run_hop\<close>: when a run reports a settlement, the journal has the
  completion record of the amount that the pairing planned, and any later run of the attempt, with
  whatever pairing it brings and whatever mints, reports the same amount and touches neither mint.
\<close>

theorem settled_hop_is_final:
  assumes "hop_codec_ok c" and "hop_history c s" and "exec (run_hop c e j) s = (Inr r, t)"
    and "hop_faults t = []" and "hj_attempt_id j' = hj_attempt_id j"
  shows "exec (run_hop c e' j') t =
       (Inr \<lparr>hs_minted_sats = hs_minted_sats r, recovered_strand = False, unused_fee_reserve_sats = 0\<rparr>, t) \<and>
     (\<exists>rs p. decode_records c (file_of (hj_attempt_id j) t) = Inr rs \<and> planned_of rs = Some p \<and>
       hs_minted_sats r = hj_delivered_sats p)"
proof -
  have "settled c (hj_attempt_id j) r t"
    using secure_exec [OF secure_run_hop [OF assms(1) hop_history_ok [OF assms(2,1)]] assms(3)] by simp
  with assms(4,5) show ?thesis
    by (auto simp: settled_def reads_def run_hop_def hop_try_def journal_read_def hop_replay_def draw_fault_def)
qed

text \<open>A hop whose first melt is lost on the way, and fails, and whose replacement is paid.\<close>

definition plain_hop_codec :: "HopRecord hop_codec" where
  "plain_hop_codec = \<lparr>enc_hop = Inr, dec_hop = Inr\<rparr>"

definition flaky_mint :: "nat HopEffects" where
  "flaky_mint = \<lparr>e_melt_leg = (\<lambda>q w. (Inr (if w = 0 then MeltUnpaid else if q = ''m1'' then MeltFailedLeg else MeltPaid), w + 1)),
     e_mint_leg = (\<lambda>_ w. (Inr MintPaid, w)), e_target_invoice = (\<lambda>_ w. (Inr (MintUnpaid, ''lnbc''), w)),
     e_supersede_melt_quote = (\<lambda>_ w. (Inr (''m2'', 104), w)), e_require_source_covers = (\<lambda>_ w. (Inr (), w)),
     e_melt = (\<lambda>q w. (if q = ''m1'' then Inl (HopMint ''timeout'') else Inr 1, w)), e_mint = (\<lambda>_ n w. (Inr n, w))\<rparr>"

definition sample_hop :: HopJournal where
  "sample_hop = \<lparr>hj_attempt_id = ''a'', hj_source_mint = ''https://s'', hj_melt_quote_id = ''m1'',
     hj_target_mint = ''https://t'', hj_mint_quote_id = ''n1'', hj_delivered_sats = 100,
     hj_planned_cost = 105, hj_fee_reserve = 2, hj_input_fee = 1\<rparr>"

definition fresh_home :: "(HopRecord, nat) hop_state" where
  "fresh_home = \<lparr>hop_files = [], hop_faults = [], hop_world = 0, hop_log = (\<lambda>_. [])\<rparr>"

definition after_loss :: "(HopRecord, nat) hop_state" where
  "after_loss = snd (exec (run_hop plain_hop_codec flaky_mint sample_hop) fresh_home)"

definition retry :: "(HopError + HopSettled) \<times> (HopRecord, nat) hop_state" where
  "retry = exec (run_hop plain_hop_codec flaky_mint sample_hop) after_loss"

lemma plain_hop_codec_ok: "hop_codec_ok plain_hop_codec"
  by (simp add: hop_codec_ok_def plain_hop_codec_def)

lemma after_loss_history: "hop_history plain_hop_codec after_loss"
  unfolding after_loss_def by (rule hop_history.one_run [OF hop_history.fresh crash_exec]) (simp_all add: fresh_home_def)

lemma retry_history: "hop_history plain_hop_codec (snd retry)"
  unfolding retry_def by (rule hop_history.one_run [OF after_loss_history crash_exec])

lemma retry_settles: "fst retry = Inr \<lparr>hs_minted_sats = 100, recovered_strand = False, unused_fee_reserve_sats = 3\<rparr>"
  by code_simp

lemma retry_faults: "hop_faults (snd retry) = []"
  by code_simp

lemma retry_log:
  "hop_log (snd retry) ''a'' = [Asked ''m1'' MeltUnpaid, Melted ''m1'', Asked ''m1'' MeltFailedLeg, Melted ''m2'', Asked ''m2'' MeltPaid]"
  by code_simp

theorem hop_replaces_only_failed_melts_witness:
  "\<exists>m > 1. m < (3::nat) \<and> hop_log (snd retry) ''a'' ! m = Asked ''m1'' MeltFailedLeg"
proof -
  have "\<exists>m. (1::nat) < m \<and> m < 3 \<and> hop_log (snd retry) ''a'' ! m = Asked ''m1'' MeltFailedLeg"
    by (rule hop_replaces_only_failed_melts [OF plain_hop_codec_ok retry_history, THEN conjunct1, rule_format, of 1 3 "''a''" "''m1''" "''m2''"])
      (simp add: retry_log)
  then show ?thesis by blast
qed

theorem settled_hop_is_final_witness:
  "exec (run_hop plain_hop_codec flaky_mint (sample_hop\<lparr>hj_melt_quote_id := ''m7''\<rparr>)) (snd retry) =
     (Inr \<lparr>hs_minted_sats = 100, recovered_strand = False, unused_fee_reserve_sats = 0\<rparr>, snd retry)"
  using settled_hop_is_final [OF plain_hop_codec_ok after_loss_history, of flaky_mint sample_hop _ "snd retry"
      "sample_hop\<lparr>hj_melt_quote_id := ''m7''\<rparr>" flaky_mint] retry_settles retry_faults
  by (simp add: retry_def [symmetric] prod_eq_iff)

section \<open>Two runs at once\<close>

text \<open>Mints that do what they are asked, and remember which quotes were paid.\<close>

definition honest_mints :: "string list HopEffects" where
  "honest_mints = \<lparr>e_melt_leg = (\<lambda>q w. (Inr (if q \<in> set w then MeltPaid else MeltUnpaid), w)),
     e_mint_leg = (\<lambda>_ w. (Inr MintPaid, w)), e_target_invoice = (\<lambda>_ w. (Inr (MintPaid, ''lnbc''), w)),
     e_supersede_melt_quote = (\<lambda>_ w. (Inl HopPanic, w)), e_require_source_covers = (\<lambda>_ w. (Inr (), w)),
     e_melt = (\<lambda>q w. (Inr 1, w @ [q])), e_mint = (\<lambda>_ n w. (Inr n, w))\<rparr>"

definition rival_hop :: HopJournal where
  "rival_hop = sample_hop\<lparr>hj_melt_quote_id := ''m9'', hj_mint_quote_id := ''n9''\<rparr>"

definition quiet_home :: "(HopRecord, string list) hop_state" where
  "quiet_home = \<lparr>hop_files = [], hop_faults = [], hop_world = [], hop_log = (\<lambda>_. [])\<rparr>"

text \<open>One run reads the journal and waits, the rival runs to its end, and the first goes on.\<close>

definition first_step :: "('s, 'a) proc \<Rightarrow> 's \<Rightarrow> ('s, 'a) proc \<times> 's" where
  "first_step p s = (case p of Done a \<Rightarrow> (Done a, s) | Act f c \<Rightarrow> (c s, f s))"

definition rival_run :: "(HopError + HopSettled) \<times> (HopRecord, string list) hop_state" where
  "rival_run = exec (run_hop plain_hop_codec honest_mints rival_hop)
     (snd (first_step (run_hop plain_hop_codec honest_mints sample_hop) quiet_home))"

definition late_run :: "(HopError + HopSettled) \<times> (HopRecord, string list) hop_state" where
  "late_run = exec (fst (first_step (run_hop plain_hop_codec honest_mints sample_hop) quiet_home)) (snd rival_run)"

definition both_settled :: bool where
  "both_settled \<longleftrightarrow> list_all (\<lambda>r. case r of Inr x \<Rightarrow> hs_minted_sats x = 100 | Inl _ \<Rightarrow> False) [fst late_run, fst rival_run] \<and>
     hop_world (snd late_run) = [''m9'', ''m1'']"

lemma both_settled: both_settled
  by code_simp

lemma reach_first_step: "reach starts env s0 [p] s \<Longrightarrow> reach starts env s0 [fst (first_step p s)] (snd (first_step p s))"
  using reach.act [of starts env s0 "[p]" s 0] by (auto simp: first_step_def split: proc.splits)


section \<open>A journal that cannot be read\<close>

text \<open>
  One torn journal stops the whole sweep, \<^verbatim>\<open>sweep_hops\<close>: when the attempt that comes first in
  the directory has a torn journal, the sweep fails at once. It resumes no other hop, whatever their
  journals hold, and reports none.
\<close>

theorem torn_journal_stops_the_sweep:
  assumes "attempt_ids s = a # as" and "hf_torn (file_of a s)" and "hop_faults s = []"
  shows "exec (sweep_hops c e w) s =
    (Inl (HopJournalError ''last record is missing its commit newline (torn write)''), s)"
  using assms
  by (simp add: sweep_hops_def hop_try_def journal_read_def hop_replay_def draw_fault_def decode_records_def)

text \<open>The second attempt has planned a hop that nobody resumes.\<close>

definition torn_home :: "(HopRecord, nat) hop_state" where
  "torn_home = fresh_home\<lparr>hop_files := [(''a'', \<lparr>hf_lines = [], hf_torn = True\<rparr>),
     (''b'', \<lparr>hf_lines = [HPlanned (sample_hop\<lparr>hj_attempt_id := ''b''\<rparr>)], hf_torn = False\<rparr>)]\<rparr>"

theorem torn_journal_stops_the_sweep_witness:
  "exec (sweep_hops plain_hop_codec flaky_mint
       \<lparr>sw_open = (\<lambda>s t w. (Inr (s, t), w)), sw_recover = (\<lambda>_ w. (Inr None, w))\<rparr>) torn_home =
     (Inl (HopJournalError ''last record is missing its commit newline (torn write)''), torn_home)"
  by (rule torn_journal_stops_the_sweep [of _ "''a''" "[''b'']"])
    (simp_all add: torn_home_def fresh_home_def attempt_ids_def file_of_def)

end
