(* ===== verification/Session.thy ===== *)
theory Session
  imports Prelude "HOL-Library.List_Lexorder" "HOL-Library.Char_ord" "HOL-Library.Multiset"
begin

text \<open>
  Session jobs, \<^verbatim>\<open>session.rs\<close>: the follow-up event and its parser, the tags of
  claims, results and accepts, the rules for deadlines, resuming, garbage collection, delivery,
  payment and replies, and the bounded contexts of the prompts. All of it is pure. A string is its
  UTF-8 bytes; trimming knows the ASCII white space. SHA-256 in hexadecimal and the job hash of the
  private protocol are arguments.
\<close>

section \<open>Events\<close>

type_synonym TagSpec = "string list"

record EventDraft =
  ed_kind :: u16
  ed_tags :: "TagSpec list"
  ed_content :: string

definition tag_first :: "TagSpec \<Rightarrow> string option" where
  "tag_first t = (case t of [] \<Rightarrow> None | x # _ \<Rightarrow> Some x)"

definition tag_at :: "nat \<Rightarrow> TagSpec \<Rightarrow> string option" where
  "tag_at n t = (if n < length t then Some (t ! n) else None)"

definition tag_value :: "TagSpec \<Rightarrow> string option" where
  "tag_value t = tag_at 1 t"

definition is_ws :: "char \<Rightarrow> bool" where
  "is_ws c \<longleftrightarrow> c \<in> {CHR '' '', CHR 0x09, CHR 0x0A, CHR 0x0B, CHR 0x0C, CHR 0x0D}"

definition trim_start :: "string \<Rightarrow> string" where
  "trim_start s = dropWhile is_ws s"

definition trim :: "string \<Rightarrow> string" where
  "trim s = rev (dropWhile is_ws (rev (dropWhile is_ws s)))"

definition SESSION_TAG :: string where "SESSION_TAG = ''session''"
definition SESSION_TAG_VALUE :: string where "SESSION_TAG_VALUE = ''1''"
definition SESSION_PROTOCOL :: u32 where "SESSION_PROTOCOL = 1"
definition NEEDS_INPUT_MARKER :: string where "NEEDS_INPUT_MARKER = ''MAXPLAYER-NEEDS-INPUT-V1''"
definition INLINE_ANSWER_MARKER :: string where "INLINE_ANSWER_MARKER = ''MAXPLAYER-ANSWER-V1''"
definition RESUME_START_MARGIN_SECS :: u64 where "RESUME_START_MARGIN_SECS = 120"
definition PUSH_MARGIN_SECS :: u64 where "PUSH_MARGIN_SECS = 300"
definition REVIEW_CONTEXT_MAX_BYTES :: nat where "REVIEW_CONTEXT_MAX_BYTES = 128 * 1024"
definition RESET_HISTORY_MAX_BYTES :: nat where "RESET_HISTORY_MAX_BYTES = 64 * 1024"
definition JOB_CLAIM_KIND :: u16 where "JOB_CLAIM_KIND = 3402"
definition JOB_RESULT_KIND :: u16 where "JOB_RESULT_KIND = 3403"
definition JOB_ACCEPT_KIND :: u16 where "JOB_ACCEPT_KIND = 3406"
definition SESSION_FOLLOWUP_KIND :: u16 where "SESSION_FOLLOWUP_KIND = 3412"
definition MAXPLAYER_TAG :: string where "MAXPLAYER_TAG = ''maxplayer''"
definition PROTOCOL_VERSION :: string where "PROTOCOL_VERSION = ''1''"

datatype SessionError = WrongKind u16 | Malformed string

section \<open>The follow-up\<close>

datatype FollowUpStatus = Turn | Close

fun FollowUpStatus_as_str :: "FollowUpStatus \<Rightarrow> string" where
  "FollowUpStatus_as_str Turn = ''turn''"
| "FollowUpStatus_as_str Close = ''close''"

record FollowUp =
  fu_offer_id :: string
  fu_seller_pubkey :: string
  fu_status :: FollowUpStatus
  prev_result_id :: "string option"
  fu_turn :: "u32 option"
  fu_deadline_unix :: "u64 option"
  fu_text :: "string option"

definition validate_shape :: "FollowUp \<Rightarrow> SessionError + unit" where
  "validate_shape f =
     (if fu_offer_id f = [] \<or> fu_seller_pubkey f = [] then Inl (Malformed ''missing root or seller'')
      else case fu_status f of
        Turn \<Rightarrow>
          if (case prev_result_id f of None \<Rightarrow> True | Some s \<Rightarrow> s = []) then Inl (Malformed ''turn without reply'')
          else if (case fu_turn f of None \<Rightarrow> True | Some n \<Rightarrow> n < 2) then Inl (Malformed ''turn number must be >= 2'')
          else if fu_deadline_unix f = None then Inl (Malformed ''turn without deadline'')
          else Inr ()
      | Close \<Rightarrow>
          if fu_turn f \<noteq> None \<or> fu_deadline_unix f \<noteq> None \<or> fu_text f \<noteq> None
          then Inl (Malformed ''close carries turn fields'') else Inr ())"

definition or_default :: "'a \<Rightarrow> 'a option \<Rightarrow> 'a" where
  "or_default d x = (case x of None \<Rightarrow> d | Some y \<Rightarrow> y)"

definition print_word :: "'n::len word \<Rightarrow> string" where
  "print_word w = nat_digits (unat w)"

definition followup_draft :: "FollowUp \<Rightarrow> SessionError + EventDraft" where
  "followup_draft f =
     try_bind (validate_shape f) (\<lambda>_.
       let turn_tags =
             [[''turn'', print_word (or_default 0 (fu_turn f))],
              [''param'', ''deadline'', print_word (or_default 0 (fu_deadline_unix f))]] @
             (case fu_text f of None \<Rightarrow> [] | Some text \<Rightarrow> [[''i'', text]])
       in Inr \<lparr>ed_kind = SESSION_FOLLOWUP_KIND,
         ed_tags =
           [[''e'', fu_offer_id f, [], ''root'']] @
           (if fu_status f = Turn then [[''e'', or_default [] (prev_result_id f), [], ''reply'']] else []) @
           [[''status'', FollowUpStatus_as_str (fu_status f)]] @
           (if fu_status f = Turn then turn_tags else []) @
           [[''p'', fu_seller_pubkey f], [''t'', MAXPLAYER_TAG], [''v'', PROTOCOL_VERSION]],
         ed_content = []\<rparr>)"

definition single_tag :: "TagSpec list \<Rightarrow> string \<Rightarrow> SessionError + TagSpec option" where
  "single_tag tags name =
     (case filter (\<lambda>t. tag_first t = Some name) tags of
        [] \<Rightarrow> Inr None
      | [one] \<Rightarrow> Inr (Some one)
      | _ \<Rightarrow> Inl (Malformed ''duplicate tag''))"

definition marked_tag :: "TagSpec list \<Rightarrow> string \<Rightarrow> SessionError + string option" where
  "marked_tag tags marker =
     (case filter (\<lambda>t. tag_first t = Some ''e'' \<and> tag_at 3 t = Some marker) tags of
        [] \<Rightarrow> Inr None
      | [one] \<Rightarrow> Inr (tag_value one)
      | _ \<Rightarrow> Inl (Malformed ''duplicate e marker''))"

definition parse_deadline :: "TagSpec list \<Rightarrow> SessionError + u64 option" where
  "parse_deadline tags =
     (case filter (\<lambda>t. tag_first t = Some ''param'' \<and> tag_at 1 t = Some ''deadline'') tags of
        [] \<Rightarrow> Inr None
      | [one] \<Rightarrow> (case Option.bind (tag_at 2 one) parse_unsigned of
                    None \<Rightarrow> Inl (Malformed ''deadline'') | Some n \<Rightarrow> Inr (Some n))
      | _ \<Rightarrow> Inl (Malformed ''duplicate deadline''))"

definition parse_followup :: "EventDraft \<Rightarrow> SessionError + FollowUp" where
  "parse_followup event =
     (let tags = ed_tags event; value_of = (\<lambda>t. Option.bind t tag_value) in
      if ed_kind event \<noteq> SESSION_FOLLOWUP_KIND then Inl (WrongKind (ed_kind event))
      else
      try_bind (marked_tag tags ''root'') (\<lambda>root.
      try_bind (ok_or (Malformed ''missing root'') root) (\<lambda>offer.
      try_bind (single_tag tags ''status'') (\<lambda>st.
      try_bind (if value_of st = Some ''turn'' then Inr Turn
                else if value_of st = Some ''close'' then Inr Close
                else Inl (Malformed ''status'')) (\<lambda>status.
      try_bind (single_tag tags ''p'') (\<lambda>p.
      try_bind (ok_or (Malformed ''missing p'') (value_of p)) (\<lambda>seller.
      try_bind (single_tag tags ''turn'') (\<lambda>tt.
      try_bind (case value_of tt of
                  None \<Rightarrow> Inr None
                | Some v \<Rightarrow> (case parse_unsigned v of None \<Rightarrow> Inl (Malformed ''turn'') | Some n \<Rightarrow> Inr (Some n))) (\<lambda>turn.
      try_bind (parse_deadline tags) (\<lambda>deadline.
      try_bind (marked_tag tags ''reply'') (\<lambda>reply.
      try_bind (single_tag tags ''i'') (\<lambda>i.
        let f = \<lparr>fu_offer_id = offer, fu_seller_pubkey = seller, fu_status = status, prev_result_id = reply,
                 fu_turn = turn, fu_deadline_unix = deadline, fu_text = value_of i\<rparr>
        in try_bind (validate_shape f) (\<lambda>_. Inr f)))))))))))))"

datatype Ignore = NotTheAwardBuyer | NotThisSeat | OtherJob | TurnOutOfOrder u32 u32 | SessionEnded

definition admit_followup ::
  "FollowUp \<Rightarrow> string \<Rightarrow> string \<Rightarrow> string \<Rightarrow> string \<Rightarrow> u32 \<Rightarrow> bool \<Rightarrow> Ignore + unit"
where
  "admit_followup f author award_buyer seat job_offer last_delivered session_live =
     (if author \<noteq> award_buyer then Inl NotTheAwardBuyer
      else if fu_seller_pubkey f \<noteq> seat then Inl NotThisSeat
      else if fu_offer_id f \<noteq> job_offer then Inl OtherJob
      else if \<not> session_live then Inl SessionEnded
      else if fu_status f = Turn \<and> or_default 0 (fu_turn f) \<noteq> saturating_add last_delivered 1
      then Inl (TurnOutOfOrder (saturating_add last_delivered 1) (or_default 0 (fu_turn f)))
      else Inr ())"

section \<open>Tags of claims, results and accepts\<close>

definition claim_supports_sessions :: "TagSpec list \<Rightarrow> bool" where
  "claim_supports_sessions tags =
     (case filter (\<lambda>t. tag_first t = Some SESSION_TAG) tags of
        [one] \<Rightarrow> length one = 2 \<and> tag_value one = Some SESSION_TAG_VALUE
      | _ \<Rightarrow> False)"

text \<open>Inserting before the first \<open>t\<close> tag, or at the end.\<close>

definition insert_before_t :: "TagSpec list \<Rightarrow> TagSpec list \<Rightarrow> TagSpec list" where
  "insert_before_t extra tags =
     takeWhile (\<lambda>t. tag_first t \<noteq> Some ''t'') tags @ extra @ dropWhile (\<lambda>t. tag_first t \<noteq> Some ''t'') tags"

record SessionsConfig =
  sc_enabled :: bool
  lifetime_secs :: u64
  disk_budget_bytes :: u64
  wrap_up_secs :: u64
  sc_session_cap_sats :: "u64 option"

definition advertise_on_claim :: "EventDraft \<Rightarrow> SessionsConfig \<Rightarrow> bool \<Rightarrow> EventDraft" where
  "advertise_on_claim draft cfg docker_container_seat =
     (if ed_kind draft \<noteq> JOB_CLAIM_KIND \<or> \<not> sc_enabled cfg \<or> \<not> docker_container_seat then draft
      else if claim_supports_sessions (ed_tags draft) then draft
      else draft\<lparr>ed_tags := insert_before_t [[SESSION_TAG, SESSION_TAG_VALUE]] (ed_tags draft)\<rparr>)"

datatype TurnStatus = DoneTurn | NeedsInput | OutOfTime

fun TurnStatus_as_str :: "TurnStatus \<Rightarrow> string" where
  "TurnStatus_as_str DoneTurn = ''done''"
| "TurnStatus_as_str NeedsInput = ''needs_input''"
| "TurnStatus_as_str OutOfTime = ''out_of_time''"

definition TurnStatus_parse :: "string \<Rightarrow> TurnStatus option" where
  "TurnStatus_parse s =
     (if s = ''done'' then Some DoneTurn
      else if s = ''needs_input'' then Some NeedsInput
      else if s = ''out_of_time'' then Some OutOfTime else None)"

definition from_turn :: "bool \<Rightarrow> string \<Rightarrow> TurnStatus" where
  "from_turn cancelled message =
     (if cancelled then OutOfTime
      else if starts_with NEEDS_INPUT_MARKER (trim_start message) then NeedsInput
      else DoneTurn)"

definition append_result_tags ::
  "EventDraft \<Rightarrow> string option \<Rightarrow> TurnStatus \<Rightarrow> bool \<Rightarrow> string option \<Rightarrow> EventDraft"
where
  "append_result_tags draft followup status context_reset creq =
     (if ed_kind draft \<noteq> JOB_RESULT_KIND then draft
      else draft\<lparr>ed_tags := insert_before_t
        ((case followup of None \<Rightarrow> [] | Some i \<Rightarrow> [[''e'', i, [], ''reply'']]) @
         (if status \<noteq> DoneTurn then [[''turn_status'', TurnStatus_as_str status]] else []) @
         (if context_reset then [[''context'', ''reset'']] else []) @
         (case creq of None \<Rightarrow> [] | Some q \<Rightarrow> [[''creq'', q]])) (ed_tags draft)\<rparr>)"

definition result_turn_status :: "TagSpec list \<Rightarrow> SessionError + TurnStatus" where
  "result_turn_status tags =
     (case find (\<lambda>t. tag_first t = Some ''turn_status'') tags of
        None \<Rightarrow> Inr DoneTurn
      | Some t \<Rightarrow> ok_or (Malformed ''turn_status'') (Option.bind (tag_value t) TurnStatus_parse))"

definition result_context_reset :: "TagSpec list \<Rightarrow> bool" where
  "result_context_reset tags \<longleftrightarrow> list_ex (\<lambda>t. t = [''context'', ''reset'']) tags"

definition bind_accept_to_result :: "EventDraft \<Rightarrow> string \<Rightarrow> EventDraft" where
  "bind_accept_to_result draft result =
     (if ed_kind draft \<noteq> JOB_ACCEPT_KIND then draft
      else draft\<lparr>ed_tags := insert_before_t [[''e'', result, [], ''reply'']] (ed_tags draft)\<rparr>)"

section \<open>Deadlines\<close>

definition wrap_up_at :: "u64 \<Rightarrow> u64 \<Rightarrow> u64" where
  "wrap_up_at deadline wrap_up = saturating_sub deadline wrap_up"

definition turn_can_start :: "u64 \<Rightarrow> u64 \<Rightarrow> u64 \<Rightarrow> bool" where
  "turn_can_start now deadline wrap_up \<longleftrightarrow>
     deadline \<ge> saturating_add (saturating_add (saturating_add now wrap_up) PUSH_MARGIN_SECS) RESUME_START_MARGIN_SECS"

section \<open>Parking\<close>

datatype SessionState = SRunning | Parked | SClosed | SExpired

fun SessionState_as_str :: "SessionState \<Rightarrow> string" where
  "SessionState_as_str SRunning = ''running''"
| "SessionState_as_str Parked = ''parked''"
| "SessionState_as_str SClosed = ''closed''"
| "SessionState_as_str SExpired = ''expired''"

definition SessionState_parse :: "string \<Rightarrow> SessionState option" where
  "SessionState_parse s =
     (if s = ''running'' then Some SRunning
      else if s = ''parked'' then Some Parked
      else if s = ''closed'' then Some SClosed
      else if s = ''expired'' then Some SExpired else None)"

definition is_live :: "SessionState \<Rightarrow> bool" where
  "is_live s \<longleftrightarrow> s \<in> {SRunning, Parked}"

datatype HolderObservation = HolderMissing | HolderNotRunning | HolderRunning string | HolderUnanswered string

datatype HolderNetwork = NetUp | NoAddress | NoDefaultRoute | ProbeFailed string | RestoreFailed string | NotProbed

datatype ResumeGate = StartTurn | ExpireSession string

definition resume_gate :: "string option \<Rightarrow> HolderObservation \<Rightarrow> u32 \<Rightarrow> HolderNetwork \<Rightarrow> ResumeGate" where
  "resume_gate recorded observed protocol network =
     (if protocol < SESSION_PROTOCOL then ExpireSession ''orchestrator_too_old''
      else case recorded of
        None \<Rightarrow> ExpireSession ''holder_unrecorded''
      | Some r \<Rightarrow>
          if r = [] then ExpireSession ''holder_unrecorded''
          else (case observed of
             HolderMissing \<Rightarrow> ExpireSession ''holder_missing''
           | HolderNotRunning \<Rightarrow> ExpireSession ''holder_not_running''
           | HolderUnanswered _ \<Rightarrow> ExpireSession ''holder_network_lost''
           | HolderRunning started \<Rightarrow>
               if started \<noteq> r then ExpireSession ''holder_restarted''
               else if network \<noteq> NetUp then ExpireSession ''holder_network_lost''
               else StartTurn))"

record SessionSize =
  sz_job_id :: string
  sz_state :: SessionState
  sz_last_turn_at :: u64
  sz_disk_bytes :: u64

definition expired_by_lifetime :: "SessionSize list \<Rightarrow> u64 \<Rightarrow> u64 \<Rightarrow> string list" where
  "expired_by_lifetime sessions now lifetime =
     map sz_job_id (filter (\<lambda>s. sz_state s = Parked \<and> now \<ge> saturating_add (sz_last_turn_at s) lifetime) sessions)"

fun evict_loop :: "u64 \<Rightarrow> u64 \<Rightarrow> SessionSize list \<Rightarrow> string list" where
  "evict_loop budget tot [] = []"
| "evict_loop budget tot (s # ss) =
     (if tot \<le> budget then []
      else sz_job_id s # evict_loop budget (saturating_sub tot (sz_disk_bytes s)) ss)"

definition parked_by_age :: "SessionSize list \<Rightarrow> SessionSize list" where
  "parked_by_age sessions =
     sort_key (\<lambda>s. unat (sz_last_turn_at s)) (sort_key sz_job_id (filter (\<lambda>s. sz_state s = Parked) sessions))"

text \<open>The total is an unchecked \<open>sum\<close>: it wraps in a release build.\<close>

definition evict_over_budget :: "SessionSize list \<Rightarrow> u64 \<Rightarrow> string list" where
  "evict_over_budget sessions budget =
     evict_loop budget (sum_list (map sz_disk_bytes (filter (\<lambda>s. sz_state s = Parked) sessions))) (parked_by_age sessions)"

section \<open>Delivery\<close>

definition delivery_branch :: "bool \<Rightarrow> string \<Rightarrow> u32 \<Rightarrow> string option \<Rightarrow> string" where
  "delivery_branch private offer turn followup =
     (if private then
        (case followup of
           Some f \<Rightarrow> ''refs/heads/delivery/'' @ (if turn \<ge> 2 then f else offer)
         | None \<Rightarrow> ''refs/heads/delivery/'' @ offer)
      else ''maxplayer/'' @ take 8 offer @ (if turn \<ge> 2 then ''-t'' @ print_word turn else []))"

definition public_job_hash :: "(string \<Rightarrow> string) \<Rightarrow> string \<Rightarrow> string \<Rightarrow> u64 \<Rightarrow> string" where
  "public_job_hash sha256_hex i text amount = sha256_hex (i @ ''|'' @ text @ ''|'' @ print_word amount)"

definition turn_job_hash ::
  "(string \<Rightarrow> string) \<Rightarrow> (string \<Rightarrow> string option) \<Rightarrow> bool \<Rightarrow> string \<Rightarrow> string \<Rightarrow> u32 \<Rightarrow> (string \<times> string) option \<Rightarrow> u64 \<Rightarrow>
   SessionError + string"
where
  "turn_job_hash sha256_hex private_job_hash private offer offer_task turn followup amount =
     (if turn \<noteq> 1 \<and> followup = None then Inl (Malformed ''turn >= 2 without follow-up'')
      else if private then ok_or (Malformed ''job id'') (private_job_hash offer)
      else Inr (public_job_hash sha256_hex offer offer_task amount))"

definition verify_turn_parent :: "string list \<Rightarrow> string \<Rightarrow> string + unit" where
  "verify_turn_parent parents previous =
     (case parents of
        [one] \<Rightarrow> if one = previous then Inr () else Inl ''turn commit does not descend from the previous turn''
      | _ \<Rightarrow> Inl ''turn commit must have exactly one parent'')"

datatype SessionDelivery = Git | Inline string

definition session_delivery_content :: "bool \<Rightarrow> TurnStatus \<Rightarrow> string \<Rightarrow> SessionDelivery option" where
  "session_delivery_content tree_changed status message =
     (if tree_changed then Some Git
      else
        (let msg = trim message;
             marked = starts_with INLINE_ANSWER_MARKER msg \<or> starts_with NEEDS_INPUT_MARKER msg
         in if marked \<or> status = OutOfTime \<and> msg \<noteq> [] then Some (Inline message) else None))"

definition collect_dir_name :: "string \<Rightarrow> u32 \<Rightarrow> string" where
  "collect_dir_name job turn = (if turn \<le> 1 then job else job @ ''-t'' @ print_word turn)"

section \<open>Payment\<close>

definition payment_id :: "string \<Rightarrow> u32 \<Rightarrow> string option \<Rightarrow> string" where
  "payment_id job turn followup = (case followup of Some f \<Rightarrow> if turn \<ge> 2 then f else job | None \<Rightarrow> job)"

record PaymentTarget =
  pt_job_id :: string
  pt_turn :: u32
  receipt_key :: string

definition resolve_payment :: "string \<Rightarrow> (string \<Rightarrow> (string \<times> u32) option) \<Rightarrow> PaymentTarget" where
  "resolve_payment payload lookup_turn =
     (case lookup_turn payload of
        Some (job, turn) \<Rightarrow> \<lparr>pt_job_id = job, pt_turn = turn, receipt_key = payload\<rparr>
      | None \<Rightarrow> \<lparr>pt_job_id = payload, pt_turn = 1, receipt_key = payload\<rparr>)"

datatype TurnState = TReceived | TWaitingPayment | TReviewing | TRunning | TDelivered | TPaid | TRefused

fun TurnState_as_str :: "TurnState \<Rightarrow> string" where
  "TurnState_as_str TReceived = ''received''"
| "TurnState_as_str TWaitingPayment = ''waiting_payment''"
| "TurnState_as_str TReviewing = ''reviewing''"
| "TurnState_as_str TRunning = ''running''"
| "TurnState_as_str TDelivered = ''delivered''"
| "TurnState_as_str TPaid = ''paid''"
| "TurnState_as_str TRefused = ''refused''"

definition TurnState_parse :: "string \<Rightarrow> TurnState option" where
  "TurnState_parse s = find (\<lambda>t. TurnState_as_str t = s)
     [TReceived, TWaitingPayment, TReviewing, TRunning, TDelivered, TPaid, TRefused]"

datatype PaymentGate = GateRun | GateWait | GateDropExpired

definition payment_gate :: "bool \<Rightarrow> u64 \<Rightarrow> u64 \<Rightarrow> PaymentGate" where
  "payment_gate previous_settled now deadline =
     (if previous_settled then GateRun else if now \<ge> deadline then GateDropExpired else GateWait)"

datatype ReplyRefusal =
    NoSessionSupport
  | CollectFirst u32
  | ReplySessionEnded
  | TurnInFlight
  | PerJobCap u64 u64
  | SessionCap u64 u64 u64

record ReplyPreflight =
  rp_supports_sessions :: bool
  rp_session_live :: bool
  uncollected_turn :: "u32 option"
  turn_in_flight :: bool
  price_sats :: u64
  per_job_cap_sats :: u64
  session_committed_sats :: u64
  session_cap_sats :: u64

definition reply_preflight :: "ReplyPreflight \<Rightarrow> ReplyRefusal + unit" where
  "reply_preflight p =
     (if \<not> rp_supports_sessions p then Inl NoSessionSupport
      else if \<not> rp_session_live p then Inl ReplySessionEnded
      else case uncollected_turn p of
        Some turn \<Rightarrow> Inl (CollectFirst turn)
      | None \<Rightarrow>
          if turn_in_flight p then Inl TurnInFlight
          else if price_sats p > per_job_cap_sats p then Inl (PerJobCap (price_sats p) (per_job_cap_sats p))
          else if saturating_add (session_committed_sats p) (price_sats p) > session_cap_sats p
          then Inl (SessionCap (session_committed_sats p) (price_sats p) (session_cap_sats p))
          else Inr ())"

section \<open>Contexts\<close>

record DeliveryLine =
  dl_turn :: u32
  dl_status :: TurnStatus
  dl_commit :: "string option"

definition nl :: string where "nl = [CHR 0x0A]"

definition delivery_text :: "DeliveryLine \<Rightarrow> string" where
  "delivery_text d = ''turn '' @ print_word (dl_turn d) @ '': '' @ TurnStatus_as_str (dl_status d) @ '', commit '' @
     or_default ''inline'' (dl_commit d) @ nl"

definition followup_text :: "nat \<Rightarrow> nat \<Rightarrow> nat \<Rightarrow> u32 \<times> string \<Rightarrow> string" where
  "followup_text omit tot i x =
     (case x of (n, f) \<Rightarrow>
        if i < omit \<and> i + 1 < tot
        then ''FOLLOW-UP turn '' @ print_word n @ '': [omitted, '' @ nat_digits (length f) @ '' bytes]'' @ nl
        else ''FOLLOW-UP turn '' @ print_word n @ '':'' @ nl @ f @ nl)"

definition render_review :: "string \<Rightarrow> (u32 \<times> string) list \<Rightarrow> DeliveryLine list \<Rightarrow> nat \<Rightarrow> string" where
  "render_review task followups deliveries omit =
     ''ORIGINAL TASK:'' @ nl @ task @ nl @ concat (map delivery_text deliveries) @
     concat (map (\<lambda>(i, x). followup_text omit (length followups) i x) (enumerate 0 followups))"

function review_loop :: "string \<Rightarrow> (u32 \<times> string) list \<Rightarrow> DeliveryLine list \<Rightarrow> nat \<Rightarrow> string" where
  "review_loop task followups deliveries omit =
     (let s = render_review task followups deliveries omit in
      if length s \<le> REVIEW_CONTEXT_MAX_BYTES \<or> omit + 1 \<ge> length followups then s
      else review_loop task followups deliveries (omit + 1))"
  by auto
termination by (relation "measure (\<lambda>(_, followups, _, omit). length followups - omit)") auto

declare review_loop.simps [simp del]

definition followup_review_context_numbered :: "string \<Rightarrow> (u32 \<times> string) list \<Rightarrow> DeliveryLine list \<Rightarrow> string" where
  "followup_review_context_numbered task followups deliveries = review_loop task followups deliveries 0"

definition followup_review_context :: "string \<Rightarrow> string list \<Rightarrow> DeliveryLine list \<Rightarrow> string" where
  "followup_review_context task followups deliveries =
     followup_review_context_numbered task (map (\<lambda>(i, f). (of_nat i + 2, f)) (enumerate 0 followups)) deliveries"

definition render_history :: "string \<Rightarrow> string list \<Rightarrow> string list \<Rightarrow> string" where
  "render_history task followups kept =
     (let dropped = length followups - length kept in
      ''The conversation could not be reloaded. Original task:'' @ nl @ task @ nl @
      (if dropped > 0 then ''('' @ nat_digits dropped @ '' earlier follow-up(s) omitted)'' @ nl else []) @
      concat (map (\<lambda>f. ''Buyer follow-up:'' @ nl @ f @ nl) kept))"

fun history_loop :: "string \<Rightarrow> string list \<Rightarrow> string list \<Rightarrow> string" where
  "history_loop task followups [] = render_history task followups []"
| "history_loop task followups (f # kept) =
     (let s = render_history task followups (f # kept) in
      if length s \<le> RESET_HISTORY_MAX_BYTES \<or> length (f # kept) \<le> 1 then s
      else history_loop task followups kept)"

definition reset_history :: "string \<Rightarrow> string list \<Rightarrow> string" where
  "reset_history task followups = history_loop task followups followups"

definition prompt_session_section :: string where
  "prompt_session_section =
     ''This job is a session: the buyer may send follow-ups after you deliver. If you need an answer from the buyer before you can continue, end your final message with a line that begins `'' @ NEEDS_INPUT_MARKER @
     ''` followed by your question; the turn then ends and the buyer replies in the next turn.''"

section \<open>A follow-up reads back\<close>

lemmas tag_simps = tag_first_def tag_at_def tag_value_def single_tag_def marked_tag_def parse_deadline_def
  print_word_def or_default_def MAXPLAYER_TAG_def PROTOCOL_VERSION_def

text \<open>C25. A follow-up that a buyer drafts is what the seller parses: every field survives the
  event, turn number and deadline through their decimal printing, whatever the text and the ids
  contain; only a close, which continues no result, loses a result id.\<close>

theorem followup_parses_back:
  assumes "followup_draft f = Inr d"
  shows "parse_followup d = Inr (if fu_status f = Close then f\<lparr>prev_result_id := None\<rparr> else f)"
proof -
  obtain off seller st prev n t body where f: "f = \<lparr>fu_offer_id = off, fu_seller_pubkey = seller, fu_status = st,
      prev_result_id = prev, fu_turn = n, fu_deadline_unix = t, fu_text = body\<rparr>" by (cases f)
  from assms have shape: "validate_shape f = Inr ()" by (auto simp: followup_draft_def elim!: try_bind_InrE)
  show ?thesis
  proof (cases st)
    case Turn
    obtain r where r: "prev = Some r" "r \<noteq> []" using shape by (auto simp: f Turn validate_shape_def split: if_splits option.splits)
    obtain k where k: "n = Some k" using shape by (auto simp: f Turn validate_shape_def split: if_splits option.splits)
    obtain u where u: "t = Some u" using shape by (auto simp: f Turn validate_shape_def split: if_splits option.splits)
    show ?thesis using assms shape unfolding f Turn r k u
      by (cases body) (auto simp: followup_draft_def tag_simps parse_followup_def Let_def numeral_3_eq_3 simp del: One_nat_def)
  next
    case Close
    have "n = None" "t = None" "body = None"
      using shape by (auto simp: f Close validate_shape_def split: if_splits)
    with assms shape show ?thesis unfolding f Close
      by (auto simp: followup_draft_def validate_shape_def tag_simps parse_followup_def Let_def numeral_3_eq_3 simp del: One_nat_def)
  qed
qed

theorem followup_parses_back_witness:
  "\<exists>d. followup_draft \<lparr>fu_offer_id = ''o'', fu_seller_pubkey = ''s'', fu_status = Turn, prev_result_id = Some ''r'',
     fu_turn = Some 2, fu_deadline_unix = Some 90, fu_text = Some ''more''\<rparr> = Inr d \<and>
   parse_followup d = Inr \<lparr>fu_offer_id = ''o'', fu_seller_pubkey = ''s'', fu_status = Turn, prev_result_id = Some ''r'',
     fu_turn = Some 2, fu_deadline_unix = Some 90, fu_text = Some ''more''\<rparr>"
proof -
  let ?f = "\<lparr>fu_offer_id = ''o'', fu_seller_pubkey = ''s'', fu_status = Turn, prev_result_id = Some ''r'',
     fu_turn = Some 2, fu_deadline_unix = Some 90, fu_text = Some ''more''\<rparr>"
  obtain d where d: "followup_draft ?f = Inr d" by (simp add: followup_draft_def validate_shape_def Let_def)
  with followup_parses_back [OF d] show ?thesis by simp
qed

section \<open>Eviction\<close>

lemma evict_loop_prefix:
  assumes "unat tot = (\<Sum>s\<leftarrow>ss. unat (sz_disk_bytes s))"
  shows "\<exists>k. evict_loop budget tot ss = map sz_job_id (take k ss) \<and>
    (\<Sum>s\<leftarrow>drop k ss. unat (sz_disk_bytes s)) \<le> unat budget \<and>
    (\<forall>j < k. unat budget < (\<Sum>s\<leftarrow>drop j ss. unat (sz_disk_bytes s)))"
  using assms
proof (induction ss arbitrary: tot)
  case (Cons s ss)
  show ?case
  proof (cases "tot \<le> budget")
    case True
    then show ?thesis using Cons.prems by (intro exI [of _ 0]) (simp add: word_le_nat_alt)
  next
    case False
    have "unat (saturating_sub tot (sz_disk_bytes s)) = (\<Sum>s\<leftarrow>ss. unat (sz_disk_bytes s))"
      using Cons.prems by (simp add: unat_saturating_sub)
    from Cons.IH [OF this] obtain k where k: "evict_loop budget (saturating_sub tot (sz_disk_bytes s)) ss = map sz_job_id (take k ss)"
      "(\<Sum>s\<leftarrow>drop k ss. unat (sz_disk_bytes s)) \<le> unat budget" "\<forall>j < k. unat budget < (\<Sum>s\<leftarrow>drop j ss. unat (sz_disk_bytes s))"
      by blast
    have "unat budget < (\<Sum>s\<leftarrow>drop j (s # ss). unat (sz_disk_bytes s))" if "j < Suc k" for j
      using that k(3) Cons.prems False by (cases j) (auto simp: word_le_nat_alt)
    then show ?thesis using False k by (intro exI [of _ "Suc k"]) simp
  qed
qed (auto intro: exI [of _ 0])

lemma unat_sum_list:
  "(\<Sum>x\<leftarrow>xs. unat (f x)) < 2 ^ LENGTH('n) \<Longrightarrow> unat (\<Sum>x\<leftarrow>xs. f x) = (\<Sum>x\<leftarrow>xs. unat (f x))"
  for f :: "'a \<Rightarrow> 'n::len word"
  by (simp add: unat_sum_list_mod)

lemma sum_list_perm: "mset xs = mset ys \<Longrightarrow> (\<Sum>x\<leftarrow>xs. f x) = (\<Sum>x\<leftarrow>ys. f x)" for f :: "'a \<Rightarrow> nat"
proof -
  assume "mset xs = mset ys"
  then have "mset (map f xs) = mset (map f ys)" by simp
  then show ?thesis by (metis sum_mset_sum_list)
qed

text \<open>When the parked sessions exceed the disk budget, what is evicted is a prefix of the
  parked sessions by age, ties by job id: the shortest prefix after which the rest fits the budget,
  and never a running session. The sizes must not overflow their unchecked sum.\<close>

theorem eviction_is_oldest_first_and_minimal:
  assumes "(\<Sum>s\<leftarrow>filter (\<lambda>s. sz_state s = Parked) sessions. unat (sz_disk_bytes s)) < 2 ^ 64"
  shows "\<exists>k. evict_over_budget sessions budget = map sz_job_id (take k (parked_by_age sessions)) \<and>
    (\<Sum>s\<leftarrow>drop k (parked_by_age sessions). unat (sz_disk_bytes s)) \<le> unat budget \<and>
    (\<forall>j < k. unat budget < (\<Sum>s\<leftarrow>drop j (parked_by_age sessions). unat (sz_disk_bytes s))) \<and>
    sorted (map (\<lambda>s. unat (sz_last_turn_at s)) (parked_by_age sessions)) \<and>
    mset (parked_by_age sessions) = filter_mset (\<lambda>s. sz_state s = Parked) (mset sessions)"
proof -
  let ?parked = "filter (\<lambda>s. sz_state s = Parked) sessions"
  have perm: "mset (parked_by_age sessions) = mset ?parked" by (simp add: parked_by_age_def)
  have "unat (\<Sum>s\<leftarrow>?parked. sz_disk_bytes s) = (\<Sum>s\<leftarrow>?parked. unat (sz_disk_bytes s))"
    using assms by (intro unat_sum_list) simp
  also have "\<dots> = (\<Sum>s\<leftarrow>parked_by_age sessions. unat (sz_disk_bytes s))"
    by (rule sum_list_perm [OF perm [symmetric]])
  finally have tot: "unat (\<Sum>s\<leftarrow>?parked. sz_disk_bytes s) = (\<Sum>s\<leftarrow>parked_by_age sessions. unat (sz_disk_bytes s))" .
  from evict_loop_prefix [OF tot, of budget] obtain k where
    "evict_over_budget sessions budget = map sz_job_id (take k (parked_by_age sessions))"
    "(\<Sum>s\<leftarrow>drop k (parked_by_age sessions). unat (sz_disk_bytes s)) \<le> unat budget"
    "\<forall>j < k. unat budget < (\<Sum>s\<leftarrow>drop j (parked_by_age sessions). unat (sz_disk_bytes s))"
    unfolding evict_over_budget_def by blast
  moreover have "sorted (map (\<lambda>s. unat (sz_last_turn_at s)) (parked_by_age sessions))"
    unfolding parked_by_age_def by (rule sorted_sort_key)
  ultimately show ?thesis using perm by auto
qed

theorem eviction_is_oldest_first_and_minimal_witness:
  "\<exists>k. evict_over_budget [\<lparr>sz_job_id = ''a'', sz_state = SRunning, sz_last_turn_at = 1, sz_disk_bytes = 90\<rparr>,
       \<lparr>sz_job_id = ''b'', sz_state = Parked, sz_last_turn_at = 2, sz_disk_bytes = 50\<rparr>] 40 =
     map sz_job_id (take k [\<lparr>sz_job_id = ''b'', sz_state = Parked, sz_last_turn_at = 2, sz_disk_bytes = 50\<rparr>])"
  using eviction_is_oldest_first_and_minimal [of "[\<lparr>sz_job_id = ''a'', sz_state = SRunning, sz_last_turn_at = 1, sz_disk_bytes = 90\<rparr>,
       \<lparr>sz_job_id = ''b'', sz_state = Parked, sz_last_turn_at = 2, sz_disk_bytes = 50\<rparr>]" 40]
  by (auto simp: parked_by_age_def)

section \<open>Bounded contexts\<close>

lemma history_loop_cut:
  "kept = drop k fs \<Longrightarrow> \<exists>m \<ge> k. history_loop task fs kept = render_history task fs (drop m fs) \<and> m \<le> max k (length fs - 1) \<and>
     (length (render_history task fs (drop m fs)) \<le> RESET_HISTORY_MAX_BYTES \<or> length fs \<le> m + 1) \<and>
     (\<forall>j. k \<le> j \<and> j < m \<longrightarrow> RESET_HISTORY_MAX_BYTES < length (render_history task fs (drop j fs)))"
proof (induction task fs kept arbitrary: k rule: history_loop.induct)
  case (1 task fs)
  then show ?case by (intro exI [of _ k]) auto
next
  case (2 task fs f kept)
  let ?s = "render_history task fs (f # kept)"
  have next_: "kept = drop (Suc k) fs" using 2(2) by (metis drop_Suc list.sel(3) tl_drop)
  have len: "Suc (length kept) = length fs - k" using arg_cong [OF 2(2), of length] by simp
  show ?case
  proof (cases "length ?s \<le> RESET_HISTORY_MAX_BYTES \<or> length (f # kept) \<le> 1")
    case True
    then have "history_loop task fs (f # kept) = ?s" by (simp add: Let_def)
    with True len show ?thesis unfolding 2(2) by (intro exI [of _ k]) auto
  next
    case False
    from 2(1) [OF refl False next_] obtain m where "m \<ge> Suc k" "history_loop task fs kept = render_history task fs (drop m fs)"
      "m \<le> max (Suc k) (length fs - 1)"
      "length (render_history task fs (drop m fs)) \<le> RESET_HISTORY_MAX_BYTES \<or> length fs \<le> m + 1"
      "\<forall>j. Suc k \<le> j \<and> j < m \<longrightarrow> RESET_HISTORY_MAX_BYTES < length (render_history task fs (drop j fs))" by blast
    moreover have "RESET_HISTORY_MAX_BYTES < length (render_history task fs (drop k fs))" using False 2(2) by simp
    ultimately show ?thesis using False len by (intro exI [of _ m]) (auto simp: Let_def le_less_Suc_eq not_less_eq_eq dest: le_neq_implies_less)
  qed
qed

lemma review_loop_cut:
  "\<exists>m \<ge> k. review_loop task fs ds k = render_review task fs ds m \<and>
     (length (render_review task fs ds m) \<le> REVIEW_CONTEXT_MAX_BYTES \<or> length fs \<le> m + 1) \<and>
     (\<forall>j. k \<le> j \<and> j < m \<longrightarrow> REVIEW_CONTEXT_MAX_BYTES < length (render_review task fs ds j))"
proof (induction task fs ds k rule: review_loop.induct)
  case (1 task fs ds k)
  show ?case
  proof (cases "length (render_review task fs ds k) \<le> REVIEW_CONTEXT_MAX_BYTES \<or> k + 1 \<ge> length fs")
    case True
    then show ?thesis by (subst review_loop.simps) (auto simp: Let_def)
  next
    case False
    with 1 obtain m where "m \<ge> k + 1" "review_loop task fs ds (k + 1) = render_review task fs ds m"
      "length (render_review task fs ds m) \<le> REVIEW_CONTEXT_MAX_BYTES \<or> length fs \<le> m + 1"
      "\<forall>j. k + 1 \<le> j \<and> j < m \<longrightarrow> REVIEW_CONTEXT_MAX_BYTES < length (render_review task fs ds j)" by blast
    then show ?thesis using False
      by (subst review_loop.simps, intro exI [of _ m]) (auto simp: Let_def not_less_eq_eq dest: le_neq_implies_less)
  qed
qed

text \<open>C27. The two loops that bound the context of a prompt end, keep the newest follow-up,
  and drop the oldest follow-ups only as far as the size bound requires: the result is within the
  bound or has dropped all but the newest, and with one follow-up less dropped it was too long.\<close>

theorem contexts_drop_only_what_does_not_fit:
  "(\<exists>m. reset_history task fs = render_history task fs (drop m fs) \<and> m \<le> length fs - 1 \<and>
     (length (reset_history task fs) \<le> RESET_HISTORY_MAX_BYTES \<or> length fs \<le> m + 1) \<and>
     (\<forall>j < m. RESET_HISTORY_MAX_BYTES < length (render_history task fs (drop j fs)))) \<and>
   (\<exists>m. followup_review_context_numbered task ns ds = render_review task ns ds m \<and>
     (length (followup_review_context_numbered task ns ds) \<le> REVIEW_CONTEXT_MAX_BYTES \<or> length ns \<le> m + 1) \<and>
     (\<forall>j < m. REVIEW_CONTEXT_MAX_BYTES < length (render_review task ns ds j)))"
  using history_loop_cut [of fs 0 fs task] review_loop_cut [of 0 task ns ds]
  by (auto simp: reset_history_def followup_review_context_numbered_def)

theorem contexts_drop_only_what_does_not_fit_witness:
  "\<exists>m. reset_history ''task'' [''a'', ''b''] = render_history ''task'' [''a'', ''b''] (drop m [''a'', ''b'']) \<and> m \<le> 1"
  using contexts_drop_only_what_does_not_fit [of "''task''" "[''a'', ''b'']" "[]" "[]"] by auto

section \<open>The question marker\<close>

lemma starts_with_hd: "starts_with p s \<Longrightarrow> p \<noteq> [] \<Longrightarrow> s \<noteq> [] \<and> hd s = hd p"
  by (cases s; cases p) (auto simp: starts_with_def)

lemma trim_hd: "\<not> is_ws c \<Longrightarrow> trim (c # s) \<noteq> [] \<and> hd (trim (c # s)) = c"
  by (simp add: trim_def dropWhile_append)

text \<open>The prompt of a session tells the agent to end its final message with a line that
  begins with the marker. A message that does so after any other text is not recognised as a
  question: the turn counts as done, and when the tree did not change nothing is delivered.\<close>

theorem question_as_prompted_is_not_recognised:
  assumes "\<not> is_ws c" and "c \<noteq> CHR ''M''"
  shows "from_turn False (c # m @ nl @ NEEDS_INPUT_MARKER @ q) = DoneTurn \<and>
    session_delivery_content False DoneTurn (c # m @ nl @ NEEDS_INPUT_MARKER @ q) = None"
  using assms starts_with_hd [of NEEDS_INPUT_MARKER] starts_with_hd [of INLINE_ANSWER_MARKER] trim_hd [OF assms(1)]
  by (force simp: from_turn_def session_delivery_content_def trim_start_def Let_def NEEDS_INPUT_MARKER_def INLINE_ANSWER_MARKER_def)

theorem question_as_prompted_is_not_recognised_witness:
  "from_turn False (''Two designs fit.'' @ nl @ NEEDS_INPUT_MARKER @ '' Which one?'') = DoneTurn"
  using question_as_prompted_is_not_recognised [of "CHR ''T''" "''wo designs fit.''" "'' Which one?''"]
  by (simp add: is_ws_def)

end
