(* ===== verification/Contribution.thy ===== *)
theory Contribution
  imports Session Receipt Crossmint
begin

text \<open>
  What a delivery is and what a contribution binds, \<^verbatim>\<open>delivery.rs\<close>, \<^verbatim>\<open>delivery_sentinel.rs\<close> and
  \<^verbatim>\<open>contribution.rs\<close>: commit ids and advertised deliveries, the execution sentinel, the pinned target and
  base, the authorship tuple that the seller signs, the content policy of the buyer, and the tags on
  offers and results. All of it is pure. Strings are their UTF-8 bytes, trimming knows the
  ASCII white space, the JSON printer and SHA-256 are arguments.
\<close>

section \<open>Deliveries\<close>

definition is_ascii_hexdigit :: "char \<Rightarrow> bool" where
  "is_ascii_hexdigit c \<longleftrightarrow> is_hex_lower c \<or> CHR ''A'' \<le> c \<and> c \<le> CHR ''F''"

definition is_ascii_control :: "char \<Rightarrow> bool" where
  "is_ascii_control c \<longleftrightarrow> (of_char c :: nat) < 32 \<or> (of_char c :: nat) = 127"

datatype DeliveryError = InvalidCommitOid | MissingRepo | InvalidBranch | TipMismatch string string | DeliveryOther string

definition CommitOid_parse :: "string \<Rightarrow> DeliveryError + string" where
  "CommitOid_parse value =
     (if \<not> (length value = 40 \<or> length value = 64) \<or> \<not> list_all is_ascii_hexdigit value then Inl InvalidCommitOid
      else Inr (map to_ascii_lowercase value))"

record GitDelivery =
  gd_repo :: string
  gd_branch :: string
  gd_commit_oid :: string

text \<open>The rule for branch names that deliveries, bases and forks share.\<close>

definition bad_branch :: "string \<Rightarrow> bool" where
  "bad_branch b \<longleftrightarrow> b = [] \<or> starts_with ''-'' b \<or> list_ex is_ascii_control b"

definition GitDelivery_new :: "string \<Rightarrow> string \<Rightarrow> string \<Rightarrow> DeliveryError + GitDelivery" where
  "GitDelivery_new repo branch oid =
     (if repo = [] then Inl MissingRepo
      else if bad_branch branch then Inl InvalidBranch
      else Inr \<lparr>gd_repo = repo, gd_branch = branch, gd_commit_oid = oid\<rparr>)"

definition git_delivery_kind :: "GitDelivery \<Rightarrow> DeliveryKind" where
  "git_delivery_kind d = Fork"

definition from_fetched_tip :: "GitDelivery \<Rightarrow> string \<Rightarrow> DeliveryError + string" where
  "from_fetched_tip advertised fetched =
     (if fetched \<noteq> gd_commit_oid advertised then Inl (TipMismatch (gd_commit_oid advertised) fetched)
      else Inr (gd_commit_oid advertised))"

section \<open>The execution sentinel\<close>

definition SENTINEL_MARKER :: string where "SENTINEL_MARKER = ''maxplayer-execution-sentinel/v1''"

datatype DeliveryMode = ModeFromScratch | ModeContribution

fun DeliveryMode_as_str :: "DeliveryMode \<Rightarrow> string" where
  "DeliveryMode_as_str ModeFromScratch = ''from-scratch''"
| "DeliveryMode_as_str ModeContribution = ''contribution''"

definition job_bound_token :: "string \<Rightarrow> string" where
  "job_bound_token job_hash = SENTINEL_MARKER @ '' job-hash='' @ job_hash"

definition render_manifest :: "string \<Rightarrow> DeliveryMode \<Rightarrow> nat \<Rightarrow> nat \<Rightarrow> string" where
  "render_manifest job_hash mode files bytes =
     job_bound_token job_hash @ [CHR 0x0A] @ ''mode: '' @ DeliveryMode_as_str mode @ [CHR 0x0A] @
     ''files: '' @ nat_digits files @ [CHR 0x0A] @ ''bytes: '' @ nat_digits bytes @ [CHR 0x0A]"

text \<open>\<open>str::contains\<close> and \<open>str::replace\<close> with the empty string: occurrences from the left that do not overlap.\<close>

fun contains_str :: "string \<Rightarrow> string \<Rightarrow> bool" where
  "contains_str pat [] \<longleftrightarrow> pat = []"
| "contains_str pat (c # cs) \<longleftrightarrow> starts_with pat (c # cs) \<or> contains_str pat cs"

function remove_str :: "string \<Rightarrow> string \<Rightarrow> string" where
  "remove_str pat s =
     (case s of [] \<Rightarrow> []
      | c # cs \<Rightarrow> if pat \<noteq> [] \<and> starts_with pat s then remove_str pat (drop (length pat) s) else c # remove_str pat cs)"
  by auto
termination by (relation "measure (\<lambda>(_, s). length s)") auto

declare remove_str.simps [simp del]

definition content_carries_sentinel :: "string \<Rightarrow> string \<Rightarrow> string \<Rightarrow> bool" where
  "content_carries_sentinel content job_hash subtract_path =
     (let token = job_bound_token job_hash in
      if subtract_path = [] then contains_str token content
      else contains_str token (remove_str subtract_path content))"

section \<open>Pins\<close>

datatype ContributionError =
    MalformedPin string
  | MalformedBase string
  | MalformedForkRef string
  | MalformedOffer string
  | MissingAuthorship

definition JOB_CLASS_CONTRIBUTION :: string where "JOB_CLASS_CONTRIBUTION = ''contribution''"
definition ACCEPTS_FORK :: string where "ACCEPTS_FORK = ''fork''"
definition CONTRIBUTION_TUPLE_DOMAIN :: string where "CONTRIBUTION_TUPLE_DOMAIN = ''maxplayer/v1/contribution-tuple''"
definition TAG_JOB_CLASS :: string where "TAG_JOB_CLASS = ''job-class''"
definition TAG_TARGET_REPO :: string where "TAG_TARGET_REPO = ''target-repo''"
definition TAG_BASE :: string where "TAG_BASE = ''base''"
definition TAG_ACCEPTS :: string where "TAG_ACCEPTS = ''accepts''"
definition SIG_SELLER_CONTRIBUTION :: string where "SIG_SELLER_CONTRIBUTION = ''seller-contribution''"

record TargetRepoPin =
  owner_pubkey :: string
  clone_url :: string

definition TargetRepoPin_new :: "string \<Rightarrow> string \<Rightarrow> ContributionError + TargetRepoPin" where
  "TargetRepoPin_new owner url =
     (let owner = map to_ascii_lowercase (trim owner); url = trim url in
      if length owner \<noteq> 64 \<or> \<not> list_all is_ascii_hexdigit owner
      then Inl (MalformedPin ''target-repo owner pubkey must be 64 hex chars'')
      else if url = [] then Inl (MalformedPin ''target-repo clone url is empty'')
      else Inr \<lparr>owner_pubkey = owner, clone_url = url\<rparr>)"

definition pin_tag :: "TargetRepoPin \<Rightarrow> TagSpec" where
  "pin_tag p = [TAG_TARGET_REPO, owner_pubkey p, clone_url p]"

record ContributionBase =
  cb_branch :: string
  cb_oid :: string

definition ContributionBase_new :: "string \<Rightarrow> string \<Rightarrow> ContributionError + ContributionBase" where
  "ContributionBase_new branch oid =
     (let branch = trim branch in
      if bad_branch branch then Inl (MalformedBase ''base branch is invalid'')
      else if \<not> (length oid = 40 \<and> list_all is_hex_lower oid)
      then Inl (MalformedBase ''base_oid must be exactly 40 lowercase hex chars (a git sha1 commit oid)'')
      else Inr \<lparr>cb_branch = branch, cb_oid = oid\<rparr>)"

definition base_tag :: "ContributionBase \<Rightarrow> TagSpec" where
  "base_tag b = [TAG_BASE, cb_branch b, cb_oid b]"

record ForkRef =
  fork_repo :: string
  fork_branch :: string

definition ForkRef_new :: "string \<Rightarrow> string \<Rightarrow> ContributionError + ForkRef" where
  "ForkRef_new repo branch =
     (let repo = trim repo; branch = trim branch in
      if repo = [] then Inl (MalformedForkRef ''fork repo is empty'')
      else if bad_branch branch then Inl (MalformedForkRef ''fork branch is invalid'')
      else Inr \<lparr>fork_repo = repo, fork_branch = branch\<rparr>)"

definition unique_branch :: "string \<Rightarrow> string" where
  "unique_branch job = ''maxplayer/contribution/'' @ job"

record ContributionOffer =
  co_target :: TargetRepoPin
  co_base :: ContributionBase
  co_accepts :: "string list"

definition accepts_fork :: "ContributionOffer \<Rightarrow> bool" where
  "accepts_fork o' = list_ex (\<lambda>a. a = ACCEPTS_FORK) (co_accepts o')"

section \<open>Authorship\<close>

record AuthorshipTuple =
  at_job_id :: string
  at_seller_pubkey :: string
  at_target :: TargetRepoPin
  at_base_oid :: string
  at_fork :: ForkRef
  at_commit_oid :: string

definition tuple_fields :: "AuthorshipTuple \<Rightarrow> json list" where
  "tuple_fields t = map JStr
     [CONTRIBUTION_TUPLE_DOMAIN, at_job_id t, at_seller_pubkey t, owner_pubkey (at_target t), clone_url (at_target t),
      at_base_oid t, fork_repo (at_fork t), fork_branch (at_fork t), at_commit_oid t]"

definition tuple_canonical_json :: "crypto \<Rightarrow> AuthorshipTuple \<Rightarrow> string" where
  "tuple_canonical_json c t = json_text c (tuple_fields t)"

definition tuple_digest_bytes :: "crypto \<Rightarrow> AuthorshipTuple \<Rightarrow> string" where
  "tuple_digest_bytes c t = sha256 c (tuple_canonical_json c t)"

section \<open>The content policy\<close>

record ChangedPath =
  cp_path :: string
  cp_bytes :: u64

record ContentPolicy =
  allowed_paths :: "string list"
  forbidden_paths :: "string list"
  max_diff_bytes :: "u64 option"

datatype ContentRefusal = EmptyDiff | Forbidden string | OutOfScope string | TooLarge u64 u64

definition policy_floor :: ContentPolicy where
  "policy_floor = \<lparr>allowed_paths = [], forbidden_paths = [], max_diff_bytes = None\<rparr>"

definition path_matches :: "string \<Rightarrow> string \<Rightarrow> bool" where
  "path_matches path dir =
     (let dir = trim_end_slashes dir in
      if dir = [] then True
      else path = dir \<or> (case strip_prefix dir path of None \<Rightarrow> False | Some rest \<Rightarrow> starts_with ''/'' rest))"

fun scan_paths :: "ContentPolicy \<Rightarrow> ChangedPath list \<Rightarrow> ContentRefusal + unit" where
  "scan_paths p [] = Inr ()"
| "scan_paths p (e # es) =
     (if list_ex (path_matches (cp_path e)) (forbidden_paths p) then Inl (Forbidden (cp_path e))
      else if allowed_paths p \<noteq> [] \<and> \<not> list_ex (path_matches (cp_path e)) (allowed_paths p) then Inl (OutOfScope (cp_path e))
      else scan_paths p es)"

text \<open>The sum of the sizes is a plain sum of \<open>u64\<close>, which wraps in a release build.\<close>

definition evaluate_policy :: "ContentPolicy \<Rightarrow> ChangedPath list \<Rightarrow> ContentRefusal + unit" where
  "evaluate_policy p changed =
     (if changed = [] then Inl EmptyDiff
      else try_bind (scan_paths p changed) (\<lambda>_.
        case max_diff_bytes p of
          None \<Rightarrow> Inr ()
        | Some limit \<Rightarrow>
            (let total_bytes = sum_list (map cp_bytes changed) in
             if total_bytes > limit then Inl (TooLarge total_bytes limit) else Inr ())))"

section \<open>Tags\<close>

definition tag_row :: "TagSpec list \<Rightarrow> string \<Rightarrow> TagSpec option" where
  "tag_row tags name = find (\<lambda>t. tag_first t = Some name) tags"

definition is_contribution_tags :: "TagSpec list \<Rightarrow> bool" where
  "is_contribution_tags tags \<longleftrightarrow> Option.bind (tag_row tags TAG_JOB_CLASS) (tag_at 1) = Some JOB_CLASS_CONTRIBUTION"

definition contribution_offer_tags :: "ContributionOffer \<Rightarrow> TagSpec list" where
  "contribution_offer_tags offer =
     [[TAG_JOB_CLASS, JOB_CLASS_CONTRIBUTION], pin_tag (co_target offer), base_tag (co_base offer), TAG_ACCEPTS # co_accepts offer]"

definition parse_target_repo :: "TagSpec list \<Rightarrow> ContributionError + TargetRepoPin" where
  "parse_target_repo tags =
     try_bind (ok_or (MalformedOffer ''missing target-repo tag'') (tag_row tags TAG_TARGET_REPO)) (\<lambda>row.
     try_bind (ok_or (MalformedOffer ''target-repo missing owner'') (tag_at 1 row)) (\<lambda>owner.
     try_bind (ok_or (MalformedOffer ''target-repo missing clone url'') (tag_at 2 row)) (\<lambda>url.
       TargetRepoPin_new owner url)))"

definition parse_contribution_offer :: "TagSpec list \<Rightarrow> ContributionError + ContributionOffer option" where
  "parse_contribution_offer tags =
     (if \<not> is_contribution_tags tags then Inr None
      else
      try_bind (parse_target_repo tags) (\<lambda>target.
      try_bind (ok_or (MalformedOffer ''missing base tag'') (tag_row tags TAG_BASE)) (\<lambda>row.
      try_bind (ok_or (MalformedOffer ''base missing branch'') (tag_at 1 row)) (\<lambda>branch.
      try_bind (ok_or (MalformedOffer ''base missing oid'') (tag_at 2 row)) (\<lambda>oid.
      try_bind (ContributionBase_new branch oid) (\<lambda>base.
        let accepts = (case tag_row tags TAG_ACCEPTS of None \<Rightarrow> [] | Some row \<Rightarrow> tl row) in
        if accepts = [] then Inl (MalformedOffer ''accepts tag missing a value (v1 requires accepts=fork)'')
        else if \<not> list_ex (\<lambda>a. a = ACCEPTS_FORK) accepts then Inl (MalformedOffer ''v1 supports only accepts=fork'')
        else Inr (Some \<lparr>co_target = target, co_base = base, co_accepts = accepts\<rparr>)))))))"

datatype ContributionServeGate = NotContribution | Serve | RefuseDisabled | MalformedContribution ContributionError

definition contribution_serve_gate :: "TagSpec list \<Rightarrow> bool \<Rightarrow> ContributionServeGate" where
  "contribution_serve_gate tags enabled =
     (case parse_contribution_offer tags of
        Inr None \<Rightarrow> NotContribution
      | Inr (Some _) \<Rightarrow> if enabled then Serve else RefuseDisabled
      | Inl e \<Rightarrow> MalformedContribution e)"

definition contribution_sig_value :: "TagSpec list \<Rightarrow> string option" where
  "contribution_sig_value tags =
     Option.bind (find (\<lambda>t. tag_first t = Some ''sig'' \<and> tag_at 1 t = Some SIG_SELLER_CONTRIBUTION) tags) (tag_at 2)"

definition parse_contribution_result_echo :: "TagSpec list \<Rightarrow> ContributionError + (ContributionOffer \<times> string) option" where
  "parse_contribution_result_echo tags =
     try_bind (parse_contribution_offer tags) (\<lambda>parsed.
       case parsed of
         None \<Rightarrow> Inr None
       | Some echo \<Rightarrow> try_bind (ok_or MissingAuthorship (contribution_sig_value tags)) (\<lambda>sig. Inr (Some (echo, sig))))"

definition contribution_sig_tag :: "string \<Rightarrow> TagSpec" where
  "contribution_sig_tag sig_hex = [''sig'', SIG_SELLER_CONTRIBUTION, sig_hex]"

definition contribution_result_tags :: "ContributionOffer \<Rightarrow> string \<Rightarrow> TagSpec list" where
  "contribution_result_tags offer sig_hex = contribution_offer_tags offer @ [contribution_sig_tag sig_hex]"

definition seller_contribution_result_parts ::
  "string \<Rightarrow> string \<Rightarrow> string \<Rightarrow> string \<Rightarrow> string \<Rightarrow> string \<Rightarrow> string \<Rightarrow> string \<Rightarrow> string \<Rightarrow>
   ContributionError + (ContributionOffer \<times> AuthorshipTuple)"
where
  "seller_contribution_result_parts job seller owner url branch oid repo fork commit =
     try_bind (TargetRepoPin_new owner url) (\<lambda>target.
     try_bind (ContributionBase_new branch oid) (\<lambda>base.
     try_bind (ForkRef_new repo fork) (\<lambda>fork.
       Inr (\<lparr>co_target = target, co_base = base, co_accepts = [ACCEPTS_FORK]\<rparr>,
            \<lparr>at_job_id = job, at_seller_pubkey = seller, at_target = target, at_base_oid = oid,
             at_fork = fork, at_commit_oid = commit\<rparr>))))"

definition verify_tuple_sig :: "crypto \<Rightarrow> AuthorshipTuple \<Rightarrow> string \<Rightarrow> string \<Rightarrow> unit + unit" where
  "verify_tuple_sig c t sig_hex seller =
     (if schnorr_ok c sig_hex (tuple_digest_bytes c t) seller then Inr () else Inl ())"

section \<open>What is bound\<close>

lemma tuple_fields_inj: "tuple_fields t = tuple_fields u \<Longrightarrow> t = u"
  by (auto simp: tuple_fields_def)

lemma tuple_fields_domain: "tuple_fields t \<noteq> canonical_fields p"
  by (cases "protocol p")
    (simp_all add: tuple_fields_def canonical_fields_def CONTRIBUTION_TUPLE_DOMAIN_def RECEIPT_PREIMAGE_DOMAIN_def RECEIPT_PREIMAGE_DOMAIN_V2_def)

text \<open>
  What the seller's authorship signature covers, \<^verbatim>\<open>AuthorshipTuple::digest_bytes\<close>: two tuples have the same digest
  only when every field agrees, and a tuple and a receipt never have the same digest, unless two
  texts that are hashed are a SHA-256 collision. So a signature for one job, target, base, fork or
  commit, or the co-signature on a receipt, cannot be shown for another tuple.
\<close>

theorem authorship_digest_binds_every_field:
  assumes "inj (json_text c)"
  shows "(tuple_digest_bytes c t = tuple_digest_bytes c u \<longleftrightarrow> t = u \<or>
      (tuple_canonical_json c t \<noteq> tuple_canonical_json c u \<and> sha256 c (tuple_canonical_json c t) = sha256 c (tuple_canonical_json c u))) \<and>
    (tuple_digest_bytes c t = digest_bytes c p \<longleftrightarrow>
      (tuple_canonical_json c t \<noteq> canonical_json c p \<and> sha256 c (tuple_canonical_json c t) = sha256 c (canonical_json c p)))"
  using assms tuple_fields_domain [of t p]
  by (auto simp: tuple_digest_bytes_def tuple_canonical_json_def digest_bytes_def canonical_json_def dest: injD tuple_fields_inj)

section \<open>Offers parse back\<close>

lemma trim_id:
  assumes "s \<noteq> []" and "\<not> is_ws (hd s)" and "\<not> is_ws (last s)"
  shows "trim s = s"
proof -
  have "dropWhile is_ws s = s" "dropWhile is_ws (rev s) = rev s" using assms by (simp_all add: dropWhile_eq_self_iff hd_rev)
  then show ?thesis by (simp add: trim_def)
qed

lemma trim_ends:
  assumes "trim s \<noteq> []"
  shows "\<not> is_ws (hd (trim s)) \<and> \<not> is_ws (last (trim s))"
proof -
  let ?a = "dropWhile is_ws s"
  have t: "trim s = rev (dropWhile is_ws (rev ?a))" by (simp add: trim_def)
  then have ne: "dropWhile is_ws (rev ?a) \<noteq> []" using assms by auto
  obtain ys where ys: "rev ?a = ys @ dropWhile is_ws (rev ?a)" by (metis takeWhile_dropWhile_id)
  then have a: "?a = trim s @ rev ys" using t by (metis rev_append rev_rev_ident)
  then have "hd ?a = hd (trim s)" "?a \<noteq> []" using assms by (metis hd_append2, auto)
  then show ?thesis using hd_dropWhile [of is_ws s] hd_dropWhile [OF ne] t ne by (simp add: last_rev)
qed

lemma trim_trim [simp]: "trim (trim s) = trim s"
proof (cases "trim s = []")
  case True
  then show ?thesis by (simp only: True) (simp add: trim_def)
next
  case False
  then show ?thesis using trim_id trim_ends by blast
qed

lemma lowercase_idem [simp]: "to_ascii_lowercase (to_ascii_lowercase c) = to_ascii_lowercase c"
  by (auto simp: to_ascii_lowercase_def)

lemma hex_not_ws: "is_ascii_hexdigit c \<Longrightarrow> \<not> is_ws c"
  by (auto simp: is_ws_def is_ascii_hexdigit_def is_hex_lower_def less_eq_char_def)

text \<open>What a constructor accepted it accepts again, unchanged.\<close>

lemma pin_again:
  assumes "TargetRepoPin_new owner url = Inr p"
  shows "TargetRepoPin_new (owner_pubkey p) (clone_url p) = Inr p"
proof -
  have p: "owner_pubkey p = map to_ascii_lowercase (trim owner)" "length (owner_pubkey p) = 64"
      "list_all is_ascii_hexdigit (owner_pubkey p)" "clone_url p = trim url" "trim url \<noteq> []"
    using assms by (auto simp: TargetRepoPin_new_def Let_def split: if_splits)
  then have ne: "owner_pubkey p \<noteq> []" by auto
  then have "trim (owner_pubkey p) = owner_pubkey p"
    using trim_id [OF ne] hex_not_ws p(3) by (simp add: list_all_iff)
  moreover have "map to_ascii_lowercase (owner_pubkey p) = owner_pubkey p" by (simp add: p(1))
  ultimately show ?thesis using p(2-5) by (simp add: TargetRepoPin_new_def Let_def)
qed

lemma base_again: "ContributionBase_new branch oid = Inr b \<Longrightarrow> ContributionBase_new (cb_branch b) (cb_oid b) = Inr b"
  by (auto simp: ContributionBase_new_def Let_def split: if_splits)

text \<open>An offer that the constructors built, and that accepts forks.\<close>

definition wf_offer :: "ContributionOffer \<Rightarrow> bool" where
  "wf_offer offer \<longleftrightarrow> TargetRepoPin_new (owner_pubkey (co_target offer)) (clone_url (co_target offer)) = Inr (co_target offer) \<and>
     ContributionBase_new (cb_branch (co_base offer)) (cb_oid (co_base offer)) = Inr (co_base offer) \<and> accepts_fork offer"

lemma parts_wf:
  "seller_contribution_result_parts job seller owner url branch oid repo fork commit = Inr (offer, tuple) \<Longrightarrow> wf_offer offer"
  by (auto simp: seller_contribution_result_parts_def wf_offer_def accepts_fork_def elim!: result_elims intro: pin_again base_again)

definition other_tag :: "TagSpec \<Rightarrow> bool" where
  "other_tag t \<longleftrightarrow> tag_first t \<notin> Some ` {TAG_JOB_CLASS, TAG_TARGET_REPO, TAG_BASE, TAG_ACCEPTS}"

lemma find_append: "find P (xs @ ys) = (case find P xs of None \<Rightarrow> find P ys | Some x \<Rightarrow> Some x)"
  by (induction xs) auto

lemma tag_row_skip: "list_all other_tag pre \<Longrightarrow> name \<in> {TAG_JOB_CLASS, TAG_TARGET_REPO, TAG_BASE, TAG_ACCEPTS} \<Longrightarrow> tag_row (pre @ rest) name = tag_row rest name"
  unfolding tag_row_def find_append
  by (induction pre) (auto simp: other_tag_def)

lemmas tag_names = TAG_JOB_CLASS_def TAG_TARGET_REPO_def TAG_BASE_def TAG_ACCEPTS_def

lemma offer_rows:
  assumes "list_all other_tag pre"
  shows "tag_row (pre @ contribution_offer_tags offer @ post) TAG_JOB_CLASS = Some [TAG_JOB_CLASS, JOB_CLASS_CONTRIBUTION]"
    and "tag_row (pre @ contribution_offer_tags offer @ post) TAG_TARGET_REPO = Some (pin_tag (co_target offer))"
    and "tag_row (pre @ contribution_offer_tags offer @ post) TAG_BASE = Some (base_tag (co_base offer))"
    and "tag_row (pre @ contribution_offer_tags offer @ post) TAG_ACCEPTS = Some (TAG_ACCEPTS # co_accepts offer)"
  using assms
  by (simp_all add: tag_row_skip) (simp_all add: tag_row_def contribution_offer_tags_def tag_first_def pin_tag_def base_tag_def tag_names)


lemma contribution_never_from_scratch:
  "is_contribution_tags tags \<Longrightarrow> parse_contribution_offer tags \<noteq> Inr None \<and> contribution_serve_gate tags enabled \<noteq> NotContribution"
  by (auto simp: parse_contribution_offer_def contribution_serve_gate_def Let_def split: sum.splits option.splits if_splits elim!: result_elims)

lemma scan_paths_iff:
  "scan_paths p es = Inr () \<longleftrightarrow> (\<forall>e \<in> set es. \<not> (\<exists>d \<in> set (forbidden_paths p). path_matches (cp_path e) d) \<and>
     (allowed_paths p = [] \<or> (\<exists>d \<in> set (allowed_paths p). path_matches (cp_path e) d)))"
  by (induction es) (auto simp: list_ex_iff)


section \<open>The sentinel\<close>

lemma starts_with_iff: "starts_with p s \<longleftrightarrow> (\<exists>r. s = p @ r)"
  by (metis append_eq_conv_conj starts_with_def append_take_drop_id)

lemma contains_str_iff: "contains_str p s \<longleftrightarrow> (\<exists>a b. s = a @ p @ b)"
proof (induction s)
  case (Cons c cs)
  show ?case
    unfolding contains_str.simps Cons.IH starts_with_iff by (metis append_Cons append_Nil list.exhaust list.sel(3))
qed simp

lemma remove_str_absent: "\<not> contains_str p s \<Longrightarrow> remove_str p s = s"
  by (induction s) (subst remove_str.simps; auto)+

lemma contains_skip: "list_all (\<lambda>c. c \<noteq> k) xs \<Longrightarrow> contains_str (k # p) (xs @ ys) = contains_str (k # p) ys"
  by (induction xs) (auto simp: starts_with_iff)

lemma hex_not_m: "list_all is_hex_lower h \<Longrightarrow> list_all (\<lambda>c. c \<noteq> CHR ''m'') h"
  by (auto simp: list_all_iff is_hex_lower_def less_eq_char_def)

lemma digits_not_m: "list_all (\<lambda>c. c \<noteq> CHR ''m'') (nat_digits n)"
  using nat_digits_digits [of n] by (auto simp: list_all_iff is_digit_def less_eq_char_def)

lemma mode_tail_no_token:
  "\<not> contains_str (CHR ''m'' # CHR ''a'' # p) (CHR 0x0A # ''mode: '' @ DeliveryMode_as_str mode @ CHR 0x0A #
     ''files: '' @ nat_digits f @ CHR 0x0A # ''bytes: '' @ nat_digits b @ [CHR 0x0A])"
proof -
  have tail: "\<not> contains_str (CHR ''m'' # CHR ''a'' # p) (CHR 0x0A # ''files: '' @ nat_digits f @ CHR 0x0A # ''bytes: '' @ nat_digits b @ [CHR 0x0A])"
    using contains_skip [of "CHR ''m''" "nat_digits f" "CHR ''a'' # p" "CHR 0x0A # ''bytes: '' @ nat_digits b @ [CHR 0x0A]"]
      contains_skip [of "CHR ''m''" "nat_digits b" "CHR ''a'' # p" "[CHR 0x0A]"]
    by (simp add: digits_not_m starts_with_def)
  then show ?thesis by (cases mode) (simp_all add: starts_with_def)
qed

text \<open>
  The sentinel proves the job it names, \<^verbatim>\<open>content_carries_sentinel\<close>: the manifest that the node renders for a
  job is recognised as that job's, as long as the label that is subtracted does not occur in it; and
  for job hashes in hexadecimal of one length, it is not recognised as another job's.
\<close>

theorem sentinel_names_its_job:
  assumes "list_all is_hex_lower h" and "list_all is_hex_lower h'" and "length h' = length h"
    and "\<not> contains_str label (render_manifest h mode files bytes)"
  shows "content_carries_sentinel (render_manifest h mode files bytes) h' label \<longleftrightarrow> h' = h"
proof -
  let ?tail = "CHR 0x0A # ''mode: '' @ DeliveryMode_as_str mode @ CHR 0x0A # ''files: '' @ nat_digits files @ CHR 0x0A # ''bytes: '' @ nat_digits bytes @ [CHR 0x0A]"
  have m: "render_manifest h mode files bytes = job_bound_token h @ ?tail" by (simp add: render_manifest_def)
  have tok: "job_bound_token k = CHR ''m'' # CHR ''a'' # drop 2 (job_bound_token k)" for k
    by (simp add: job_bound_token_def SENTINEL_MARKER_def)
  have skip: "\<not> contains_str (job_bound_token h') (h @ ?tail)"
    using contains_skip [OF hex_not_m [OF assms(1)], of "CHR ''a'' # drop 2 (job_bound_token h')" ?tail] mode_tail_no_token tok [of h'] by metis
  have "contains_str (job_bound_token h') (job_bound_token h @ ?tail) \<longleftrightarrow> starts_with (job_bound_token h') (job_bound_token h @ ?tail)"
    using skip by (simp add: job_bound_token_def SENTINEL_MARKER_def starts_with_def)
  also have "\<dots> \<longleftrightarrow> h' = h" using assms(3) by (auto simp: starts_with_def job_bound_token_def SENTINEL_MARKER_def)
  finally show ?thesis
    using assms(4) remove_str_absent [OF assms(4)] by (simp add: content_carries_sentinel_def m Let_def)
qed

lemma sample_label: "\<not> contains_str ''zz'' (render_manifest ''0a'' ModeFromScratch 3 120)"
  by code_simp

theorem sentinel_names_its_job_witness:
  "content_carries_sentinel (render_manifest ''0a'' ModeFromScratch 3 120) ''0a'' ''zz'' \<and>
   \<not> content_carries_sentinel (render_manifest ''0a'' ModeFromScratch 3 120) ''0b'' ''zz''"
  using sentinel_names_its_job [OF _ _ _ sample_label, of "''0a''"] sentinel_names_its_job [OF _ _ _ sample_label, of "''0b''"]
  by (simp add: is_hex_lower_def less_eq_char_def)

definition sample_owner :: string where "sample_owner = replicate 64 CHR ''A''"

lemma sample_parts:
  "seller_contribution_result_parts ''j'' ''s'' sample_owner '' https://g '' ''main'' (replicate 40 CHR ''1'') ''https://f'' ''b'' ''c'' =
   Inr (\<lparr>co_target = \<lparr>owner_pubkey = replicate 64 CHR ''a'', clone_url = ''https://g''\<rparr>,
           co_base = \<lparr>cb_branch = ''main'', cb_oid = replicate 40 CHR ''1''\<rparr>, co_accepts = [''fork'']\<rparr>,
        \<lparr>at_job_id = ''j'', at_seller_pubkey = ''s'', at_target = \<lparr>owner_pubkey = replicate 64 CHR ''a'', clone_url = ''https://g''\<rparr>,
         at_base_oid = replicate 40 CHR ''1'', at_fork = \<lparr>fork_repo = ''https://f'', fork_branch = ''b''\<rparr>, at_commit_oid = ''c''\<rparr>)"
  by code_simp


theorem authorship_digest_binds_every_field_witness:
  "tuple_digest_bytes demo_crypto \<lparr>at_job_id = ''j'', at_seller_pubkey = ''s'', at_target = \<lparr>owner_pubkey = ''o'', clone_url = ''u''\<rparr>,
         at_base_oid = ''b'', at_fork = \<lparr>fork_repo = ''f'', fork_branch = ''b''\<rparr>, at_commit_oid = ''c''\<rparr> \<noteq> digest_bytes demo_crypto demo_preimage"
  using authorship_digest_binds_every_field [of demo_crypto] by (simp add: demo_crypto_def demo_json_inj)

end
