(* ===== verification/Authorize_Pay.thy ===== *)
theory Authorize_Pay
  imports Budget Payment Hop_Safety Contribution
begin

text \<open>
  The pay path of the buyer, \<^verbatim>\<open>authorize_pay.rs\<close>: every check before money moves, the plan of a hop, the
  charge against the budget, the hop and the payment under that charge, and the operator's completion
  of a payment that is stuck at its lock. A call is a program over the files of the home (the spend
  ledger, the hop journals, the payment journals) and the outside world. Its atomic actions are the
  reservation in the ledger, the actions of the hop, the run of the payment state machine (which holds
  the lock of its journal) and each call of the world. Keys, git, wallets, the private protocol and
  the relays are arguments; messages are cut before the interpolation, and \<open>PayPanic\<close> is the panic of
  the plan.
\<close>

section \<open>Requests\<close>

datatype JobClass = FromScratch | ContributionJob

record ContributionPayBinds =
  cpb_target_owner_pubkey :: string
  cpb_target_clone_url :: string
  cpb_base_branch :: string
  cpb_base_oid :: string
  cpb_tuple_signature :: string

record 'p AuthorizePayRequest =
  ap_private_evidence :: "'p option"
  ap_job_id :: string
  ap_payment_id :: "string option"
  ap_result_id :: string
  ap_job_class :: JobClass
  ap_delivery_integrity_hash :: string
  ap_job_hash :: string
  ap_seller_pubkey :: string
  ap_amount_sats :: u64
  ap_repo :: string
  ap_branch :: string
  ap_commit_oid :: string
  ap_inline_answer :: "string option"
  ap_seller_signature :: string
  ap_creq_hash :: "string option"
  ap_accepted_mints :: "string list"
  ap_realized_mint :: "string option"
  ap_contribution :: "ContributionPayBinds option"
  ap_is_free :: bool

record AuthorizePayOutcome =
  apo_state :: PaymentState
  apo_attempt_id :: string
  apo_amount_sats :: u64
  apo_charged_sats :: u64
  apo_spent_total_sats :: u64

record CompleteLockedRequest =
  cl_job_id :: string
  cl_result_id :: string
  cl_delivery_integrity_hash :: string
  cl_job_hash :: string
  cl_seller_pubkey :: string
  cl_amount_sats :: u64
  cl_seller_signature :: string
  cl_creq_hash :: "string option"
  cl_accepted_mints :: "string list"
  cl_realized_mint :: "string option"

record CompleteLockedOutcome =
  clo_state :: PaymentState
  clo_attempt_id :: string
  clo_amount_sats :: u64
  clo_spent_total_sats :: u64

datatype AuthorizePayError =
    PayInput string
  | PayBudget BudgetRefuse
  | PayFund string
  | PayDelivery DeliveryError
  | PayHop HopError
  | PayPayment PaymentError
  | PayWallet string
  | PayHome string
  | PayEffects string
  | CancelledMintUnreachable string string
  | CosigRefused string
  | NoSentinel string
  | PayPanic

datatype PreflightError = PreflightUnreachable string string string | PreflightOther string

fun from_preflight :: "PreflightError \<Rightarrow> AuthorizePayError" where
  "from_preflight (PreflightUnreachable _ at_mint detail) = CancelledMintUnreachable at_mint detail"
| "from_preflight (PreflightOther message) = PayEffects message"

fun from_plan :: "plan_error \<Rightarrow> AuthorizePayError" where
  "from_plan (PlanInput e) = PayInput e"
| "from_plan PlanPanic = PayPanic"

section \<open>The outside\<close>

text \<open>A private receipt: its preimage, the id of the signed result, whether its offer is public, the
  test of a realised mint against the signed claim, and the relay repository of its job.\<close>

record private_receipt =
  pr_preimage :: ReceiptPreimage
  pr_result :: string
  pr_public :: bool
  pr_mint_ok :: "string \<Rightarrow> string + unit"
  pr_job_repo :: "string + string"

text \<open>What completing a payment reads of the accepted bind. The evidence of a private bind comes with
  the result of validating the request that the bind seals.\<close>

record bind_view =
  bv_private :: "(AuthorizePayError + private_receipt) option"
  bv_result_id :: string
  bv_seller_signature :: string
  bv_accepted_mints :: "string list"
  bv_funding_mint :: "string option"
  bv_delivery_kind :: "string option"

datatype ContributionBaseSource = JobRepo string | PublicTarget string string

record ('l, 'b, 'h) pay_codecs =
  pc_crypto :: crypto
  pc_enc :: "LedgerRecord \<Rightarrow> 'l"
  pc_dec :: "'l \<Rightarrow> string + LedgerRecord"
  pc_hop :: "'h hop_codec"
  pc_journal :: "'b record_codec"

record ('u, 'p, 'w) pay_ops =
  po_urls :: "'u url_ops"
  po_mint_text :: "'u \<Rightarrow> string"
  po_default_mint :: string
  po_allow_real_mints :: bool
  po_policy :: "ContentPolicy option"
  po_nostr_key :: "string \<Rightarrow> string + string"
  po_cashu_key :: "string \<Rightarrow> string + string"
  po_validate_private :: "'p AuthorizePayRequest \<Rightarrow> 'p \<Rightarrow> 'w \<Rightarrow> (AuthorizePayError + private_receipt) \<times> 'w"
  po_load_bind :: "string \<Rightarrow> 'w \<Rightarrow> (string + bind_view option) \<times> 'w"
  po_secret_key :: "'w \<Rightarrow> (string + string) \<times> 'w"
  po_public_key :: "string \<Rightarrow> string + string"
  po_result_hash :: "string \<Rightarrow> string"
  po_verify_contribution ::
    "GitDelivery \<Rightarrow> ContributionBaseSource \<Rightarrow> string \<Rightarrow> ContentPolicy \<Rightarrow> 'w \<Rightarrow> (DeliveryError + unit) \<times> 'w"
  po_fetch :: "GitDelivery \<Rightarrow> 'w \<Rightarrow> (string + string) \<times> 'w"
  po_read_sentinel :: "string \<Rightarrow> 'w \<Rightarrow> (string + string option) \<times> 'w"
  po_hop_wallets :: "'w sweep_wallets"
  po_quotes :: "string \<Rightarrow> string \<Rightarrow> 'w quote_wallets"
  po_fee_buffer :: u64
  po_hop_effects :: "string \<Rightarrow> string \<Rightarrow> 'w HopEffects"
  po_open_wallet :: "string \<Rightarrow> 'w \<Rightarrow> (string + unit) \<times> 'w"
  po_spawn :: "'w \<Rightarrow> (string + unit) \<times> 'w"
  po_preflight :: "u64 \<Rightarrow> 'w \<Rightarrow> (PreflightError + u64) \<times> 'w"
  po_journal_dir :: "'w \<Rightarrow> (string + unit) \<times> 'w"
  po_refusal_written :: "'w \<Rightarrow> bool"
  po_payment_effects :: "string \<Rightarrow> DeliveryKind \<Rightarrow> private_receipt option \<Rightarrow> 'w PaymentEffects"

text \<open>The home: its files, the budget gates of its processes, the faults of the ledger and the clock, and
  the world beside it. A refusal record is named by job and commit and holds its class and time.\<close>

record ('l, 'b, 'h, 'w) pay_state =
  spend_ledger :: "'l ledger_file"
  pay_gates :: "nat \<Rightarrow> BudgetGate"
  spend_io :: budget_io
  clock_secs :: u64
  hop_home :: "('h, 'w) hop_state"
  pay_journals :: "string \<Rightarrow> 'b fs_journal"
  sentinel_refusals :: "string \<times> string \<Rightarrow> (string \<times> u64) option"

abbreviation world_of :: "('l, 'b, 'h, 'w) pay_state \<Rightarrow> 'w" where
  "world_of s \<equiv> hop_world (hop_home s)"

definition put_world :: "'w \<Rightarrow> ('l, 'b, 'h, 'w) pay_state \<Rightarrow> ('l, 'b, 'h, 'w) pay_state" where
  "put_world w s = s\<lparr>hop_home := (hop_home s)\<lparr>hop_world := w\<rparr>\<rparr>"

type_synonym ('l, 'b, 'h, 'w, 'a) pay_run = "(('l, 'b, 'h, 'w) pay_state, AuthorizePayError + 'a) proc"

definition pay_try ::
  "('l, 'b, 'h, 'w, 'a) pay_run \<Rightarrow> ('a \<Rightarrow> ('l, 'b, 'h, 'w, 'c) pay_run) \<Rightarrow> ('l, 'b, 'h, 'w, 'c) pay_run"
where
  "pay_try p k = pbind p (\<lambda>r. case r of Inl e \<Rightarrow> Done (Inl e) | Inr x \<Rightarrow> k x)"

definition pay_lift :: "AuthorizePayError + 'a \<Rightarrow> ('l, 'b, 'h, 'w, 'a) pay_run" where
  "pay_lift r = Done r"

definition outside :: "('e \<Rightarrow> AuthorizePayError) \<Rightarrow> ('w \<Rightarrow> ('e + 'a) \<times> 'w) \<Rightarrow> ('l, 'b, 'h, 'w, 'a) pay_run" where
  "outside h m = atomic (\<lambda>s. case m (world_of s) of (r, w) \<Rightarrow> (map_err h r, put_world w s))"

text \<open>A program on the hop journals, run on the home.\<close>

primrec hop_proc :: "(('h, 'w) hop_state, 'a) proc \<Rightarrow> (('l, 'b, 'h, 'w) pay_state, 'a) proc" where
  "hop_proc (Done r) = Done r"
| "hop_proc (Act f k) = Act (\<lambda>s. s\<lparr>hop_home := f (hop_home s)\<rparr>) (\<lambda>s. hop_proc (k (hop_home s)))"

definition in_hops :: "('h, 'w, 'a) hop_run \<Rightarrow> ('l, 'b, 'h, 'w, 'a) pay_run" where
  "in_hops p = pbind (hop_proc p) (\<lambda>r. Done (map_err PayHop r))"

section \<open>What is derived\<close>

record 'u DerivedPayment =
  dp_terms :: PaymentTerms
  dp_key :: PaymentKey
  dp_seller_nostr :: string
  dp_plan :: "'u PayPlan"

definition as_input :: "PaymentError + 'a \<Rightarrow> AuthorizePayError + 'a" where
  "as_input = map_err (\<lambda>_. PayInput ''invalid identity'')"

definition derive_payment ::
  "('u, 'p, 'w) pay_ops \<Rightarrow> string \<Rightarrow> string \<Rightarrow> string \<Rightarrow> string \<Rightarrow> string \<Rightarrow> u64 \<Rightarrow> string list \<Rightarrow> string option \<Rightarrow>
   string option \<Rightarrow> AuthorizePayError + 'u DerivedPayment"
where
  "derive_payment ops job result delivery jhash seller_key sats accepted realized creq =
     try_bind (as_input (JobId_new job)) (\<lambda>job.
     try_bind (as_input (ResultId_new result)) (\<lambda>result.
     try_bind (as_input (DeliveryIntegrityHash_from_hex delivery)) (\<lambda>delivery.
     try_bind (as_input (JobHash_from_hex jhash)) (\<lambda>jhash.
     try_bind (map_err (\<lambda>e. PayInput (''seller_pubkey: '' @ e)) (po_nostr_key ops seller_key)) (\<lambda>seller_nostr.
     try_bind (map_err (\<lambda>e. PayInput (''cashu pubkey from nostr key: '' @ e)) (po_cashu_key ops (''02'' @ seller_nostr))) (\<lambda>p2pk.
     let selected = (case realized of Some m \<Rightarrow> m | None \<Rightarrow> po_default_mint ops) in
     try_bind (map_err from_plan (plan_payment (po_urls ops) selected accepted (po_allow_real_mints ops))) (\<lambda>plan.
     let terms = \<lparr>t_mint = po_mint_text ops (realized_mint plan), t_amount = sats, t_unit = ''sat'',
                  seller_nostr_pubkey = seller_nostr, seller_p2pk_lock = p2pk\<rparr> in
       Inr \<lparr>dp_terms = terms, dp_key = PaymentKey_new job result delivery jhash terms creq,
            dp_seller_nostr = seller_nostr, dp_plan = plan\<rparr>)))))))"

definition receipt_preimage_for :: "PaymentKey \<Rightarrow> string \<Rightarrow> string \<Rightarrow> DeliveryKind \<Rightarrow> ReceiptPreimage" where
  "receipt_preimage_for key buyer_hex seller_hex kind =
     \<lparr>protocol = ProtoV1, pre_job_hash = job_hash key, offer_id = job_id key, pre_amount = amount key,
      pre_unit = unit_of key, buyer_pubkey = buyer_hex, pre_seller_pubkey = seller_hex,
      pre_delivery_integrity_hash = delivery_integrity_hash key, delivery_kind = DeliveryKind_as_str kind,
      exec_metadata_commitment_of = EXEC_METADATA_COMMITMENT_EMPTY, pre_creq_hash = creq_hash key\<rparr>"

definition receipt_preimage_bound ::
  "PaymentKey \<Rightarrow> string \<Rightarrow> string \<Rightarrow> DeliveryKind \<Rightarrow> private_receipt option \<Rightarrow> string + ReceiptPreimage"
where
  "receipt_preimage_bound key buyer_hex seller_hex kind private =
     (let computed = receipt_preimage_for key buyer_hex seller_hex kind in
      case private of
        None \<Rightarrow> Inr computed
      | Some p \<Rightarrow>
          (let computed = computed\<lparr>protocol := ProtoV2\<rparr> in
           try_bind (if \<not> pr_public p then pr_mint_ok p (mint key) else Inr ()) (\<lambda>_.
             if computed \<noteq> pr_preimage p \<or> result_id key \<noteq> pr_result p
             then Inl ''payment key differs from immutable private result'' else Inr computed)))"

definition cap_charge :: "HopJournal option \<Rightarrow> u64 \<Rightarrow> u64 \<Rightarrow> u64" where
  "cap_charge hop sats estimated_input_fee =
     (case hop of Some pairing \<Rightarrow> hj_planned_cost pairing | None \<Rightarrow> saturating_add sats estimated_input_fee)"

section \<open>Checks before money\<close>

definition contribution_policy :: "('u, 'p, 'w) pay_ops \<Rightarrow> ContentPolicy" where
  "contribution_policy ops = (case po_policy ops of Some cfg \<Rightarrow> cfg | None \<Rightarrow> policy_floor)"

definition contribution_base_source :: "private_receipt option \<Rightarrow> string \<Rightarrow> string \<Rightarrow> string + ContributionBaseSource" where
  "contribution_base_source private target_clone_url base_branch =
     (case private of
        Some p \<Rightarrow> if \<not> pr_public p then try_bind (pr_job_repo p) (\<lambda>r. Inr (JobRepo r))
                  else Inr (PublicTarget target_clone_url base_branch)
      | None \<Rightarrow> Inr (PublicTarget target_clone_url base_branch))"

definition wallet_open_mint_url :: "PaymentTerms \<Rightarrow> string" where
  "wallet_open_mint_url terms = t_mint terms"

text \<open>The class of a request, and the hash the buyer expects, before anything is derived.\<close>

definition entry_checks :: "'p AuthorizePayRequest \<Rightarrow> AuthorizePayError + unit" where
  "entry_checks r =
     (if is_blank (ap_delivery_integrity_hash r) then Inl (PayInput ''delivery_integrity_hash is required (buyer tip-match)'')
      else if ap_delivery_integrity_hash r \<noteq> ap_commit_oid r
      then Inl (PayInput ''delivery_integrity_hash does not match seller-advertised commit_oid'')
      else if ap_job_class r = ContributionJob \<and> ap_contribution r = None
      then Inl (PayInput ''job_class=contribution requires contribution binds'')
      else Inr ())"

text \<open>The delivery a request names: none for an answer carried inline, whose digest is checked here.\<close>

definition delivery_of ::
  "('u, 'p, 'w) pay_ops \<Rightarrow> private_receipt option \<Rightarrow> 'p AuthorizePayRequest \<Rightarrow>
   AuthorizePayError + (GitDelivery option \<times> DeliveryKind)"
where
  "delivery_of ops private r =
     (case ap_inline_answer r of
        Some answer \<Rightarrow>
          (let derived = (case private of Some p \<Rightarrow> pre_delivery_integrity_hash (pr_preimage p)
                                        | None \<Rightarrow> po_result_hash ops answer) in
           if derived \<noteq> ap_delivery_integrity_hash r
           then Inl (PayInput ''inline answer digest does not match the accepted delivery_integrity_hash'')
           else Inr (None, DeliveryKind.Inline))
      | None \<Rightarrow>
          try_bind (map_err PayDelivery (CommitOid_parse (ap_commit_oid r))) (\<lambda>oid.
          try_bind (map_err PayDelivery (GitDelivery_new (ap_repo r) (ap_branch r) oid)) (\<lambda>d.
            Inr (Some d, git_delivery_kind d))))"

definition as_tuple_input :: "ContributionError + 'a \<Rightarrow> AuthorizePayError + 'a" where
  "as_tuple_input = map_err (\<lambda>_. PayInput ''invalid contribution bind'')"

definition authorship_of :: "ContributionPayBinds \<Rightarrow> string \<Rightarrow> string \<Rightarrow> GitDelivery \<Rightarrow> AuthorizePayError + AuthorshipTuple" where
  "authorship_of binds job seller_hex fork =
     try_bind (as_tuple_input (TargetRepoPin_new (cpb_target_owner_pubkey binds) (cpb_target_clone_url binds))) (\<lambda>target.
     try_bind (as_tuple_input (ForkRef_new (gd_repo fork) (gd_branch fork))) (\<lambda>f.
       Inr \<lparr>at_job_id = job, at_seller_pubkey = seller_hex, at_target = target, at_base_oid = cpb_base_oid binds,
            at_fork = f, at_commit_oid = gd_commit_oid fork\<rparr>))"

text \<open>The contribution gates: the fork, its base and its content are verified, and the tuple the seller
  must have signed is rebuilt from the buyer's binds.\<close>

definition contribution_stage ::
  "crypto \<Rightarrow> ('u, 'p, 'w) pay_ops \<Rightarrow> private_receipt option \<Rightarrow> 'p AuthorizePayRequest \<Rightarrow> string \<Rightarrow> GitDelivery option \<Rightarrow>
   ('l, 'b, 'h, 'w, ContributionCosig option) pay_run"
where
  "contribution_stage c ops private r seller_hex delivery =
     (case ap_contribution r of
        None \<Rightarrow> Done (Inr None)
      | Some binds \<Rightarrow>
          pay_try (pay_lift (map_err (\<lambda>_. PayInput ''contribution base_oid'') (CommitOid_parse (cpb_base_oid binds)))) (\<lambda>base_oid.
          case delivery of
            None \<Rightarrow> Done (Inl (PayInput ''a contribution job cannot settle an inline delivery''))
          | Some fork \<Rightarrow>
              pay_try (pay_lift (map_err PayInput (contribution_base_source private (cpb_target_clone_url binds) (cpb_base_branch binds)))) (\<lambda>source.
              pay_try (outside PayDelivery (po_verify_contribution ops fork source base_oid (contribution_policy ops))) (\<lambda>_.
              pay_try (pay_lift (authorship_of binds (ap_job_id r) seller_hex fork)) (\<lambda>tuple.
                Done (Inr (Some \<lparr>tuple_digest = tuple_digest_bytes c tuple, tuple_signature_hex = cpb_tuple_signature binds\<rparr>)))))))"

definition cosig_stage ::
  "crypto \<Rightarrow> ReceiptAuthority \<Rightarrow> ReceiptPreimage \<Rightarrow> string \<Rightarrow> ContributionCosig option \<Rightarrow> AuthorizePayError + unit"
where
  "cosig_stage c authority pre signature contribution =
     map_err (\<lambda>_. CosigRefused ''pre-pay seller co-signature'') (verify_seller_prepay_cosig c authority pre signature contribution)"

text \<open>The fetch of the delivery into the buyer's store and the match of its tip.\<close>

definition delivery_stage ::
  "('u, 'p, 'w) pay_ops \<Rightarrow> GitDelivery option \<Rightarrow> PaymentKey \<Rightarrow> ('l, 'b, 'h, 'w, unit) pay_run"
where
  "delivery_stage ops delivery key =
     (case delivery of
        None \<Rightarrow> Done (Inr ())
      | Some d \<Rightarrow>
          pbind (atomic (\<lambda>s. case po_fetch ops d (world_of s) of (r, w) \<Rightarrow> (r, put_world w s))) (\<lambda>fetched.
            pay_lift (map_err PayPayment (verify_pay_path_delivery
              (\<lambda>d. try_bind fetched (\<lambda>tip. map_err (\<lambda>_. ''tip mismatch'') (from_fetched_tip d tip))) d key))))"

definition delivery_tree_carries_sentinel ::
  "('u, 'p, 'w) pay_ops \<Rightarrow> string \<Rightarrow> string \<Rightarrow> string \<Rightarrow> 'w \<Rightarrow> (string + bool) \<times> 'w"
where
  "delivery_tree_carries_sentinel ops commit expected_job_hash subtract_path w =
     (case po_read_sentinel ops commit w of
        (Inl e, w) \<Rightarrow> (Inl e, w)
      | (Inr None, w) \<Rightarrow> (Inr False, w)
      | (Inr (Some content), w) \<Rightarrow> (Inr (content_carries_sentinel content expected_job_hash subtract_path), w))"

text \<open>The record of a refusal is written when the directory and the file can be.\<close>

definition journal_sentinel_refusal ::
  "('u, 'p, 'w) pay_ops \<Rightarrow> string \<Rightarrow> string \<Rightarrow> string \<Rightarrow> ('l, 'b, 'h, 'w) pay_state \<Rightarrow> ('l, 'b, 'h, 'w) pay_state"
where
  "journal_sentinel_refusal ops job commit cls s =
     (if po_refusal_written ops (world_of s)
      then s\<lparr>sentinel_refusals := (sentinel_refusals s)((job, commit) := Some (cls, clock_secs s))\<rparr> else s)"

definition refuse_sentinel ::
  "('u, 'p, 'w) pay_ops \<Rightarrow> string \<Rightarrow> string \<Rightarrow> string \<Rightarrow> string \<Rightarrow> ('l, 'b, 'h, 'w, unit) pay_run"
where
  "refuse_sentinel ops job commit cls why =
     pbind (atomic (\<lambda>s. ((), journal_sentinel_refusal ops job commit cls s))) (\<lambda>_. Done (Inl (NoSentinel why)))"

definition sentinel_stage ::
  "('u, 'p, 'w) pay_ops \<Rightarrow> 'p AuthorizePayRequest \<Rightarrow> GitDelivery option \<Rightarrow> ('l, 'b, 'h, 'w, unit) pay_run"
where
  "sentinel_stage ops r delivery =
     (case delivery of
        Some d \<Rightarrow>
          if ap_job_class r \<noteq> FromScratch then Done (Inr ())
          else pbind (atomic (\<lambda>s. case delivery_tree_carries_sentinel ops (gd_commit_oid d) (ap_job_hash r) (ap_job_id r) (world_of s) of
                        (v, w) \<Rightarrow> (v, put_world w s))) (\<lambda>v.
                 case v of
                   Inr True \<Rightarrow> Done (Inr ())
                 | Inr False \<Rightarrow> refuse_sentinel ops (ap_job_id r) (gd_commit_oid d) ''missing_or_replayed''
                     ''delivery carries no execution sentinel bound to the job''
                 | Inl e \<Rightarrow> refuse_sentinel ops (ap_job_id r) (gd_commit_oid d) ''verify_error'' ''delivery sentinel could not be verified'')
      | None \<Rightarrow> Done (Inr ()))"

record 'u checked_pay =
  ck_key :: PaymentKey
  ck_terms :: PaymentTerms
  ck_plan :: "'u PayPlan"
  ck_authority :: ReceiptAuthority
  ck_private :: "private_receipt option"
  ck_kind :: DeliveryKind

text \<open>The key of the buyer, read from the home.\<close>

definition buyer_key :: "('u, 'p, 'w) pay_ops \<Rightarrow> ('l, 'b, 'h, 'w, string) pay_run" where
  "buyer_key ops =
     pay_try (outside PayHome (po_secret_key ops)) (\<lambda>secret.
       pay_lift (map_err (\<lambda>e. PayHome (''buyer key parse: '' @ e)) (po_public_key ops secret)))"

text \<open>From the key of the buyer to the sentinel: everything that is verified against the derived payment.\<close>

definition verify_stage ::
  "crypto \<Rightarrow> ('u, 'p, 'w) pay_ops \<Rightarrow> 'p AuthorizePayRequest \<Rightarrow> private_receipt option \<Rightarrow> 'u DerivedPayment \<Rightarrow>
   GitDelivery option \<Rightarrow> DeliveryKind \<Rightarrow> ('l, 'b, 'h, 'w, 'u checked_pay) pay_run"
where
  "verify_stage c ops r private derived delivery kind =
     (let key = with_payment_id (ap_payment_id r) (dp_key derived); seller_hex = dp_seller_nostr derived in
      pay_try (buyer_key ops) (\<lambda>buyer_hex.
      let authority = \<lparr>buyer = buyer_hex, seller = seller_hex\<rparr> in
      pay_try (contribution_stage c ops private r seller_hex delivery) (\<lambda>contribution.
      pay_try (pay_lift (map_err PayInput (receipt_preimage_bound key buyer_hex seller_hex kind private))) (\<lambda>pre.
      pay_try (pay_lift (cosig_stage c authority pre (ap_seller_signature r) contribution)) (\<lambda>_.
      pay_try (delivery_stage ops delivery key) (\<lambda>_.
      pay_try (sentinel_stage ops r delivery) (\<lambda>_.
        Done (Inr \<lparr>ck_key = key, ck_terms = dp_terms derived, ck_plan = dp_plan derived, ck_authority = authority,
                   ck_private = private, ck_kind = kind\<rparr>))))))))"

definition check_payment ::
  "crypto \<Rightarrow> ('u, 'p, 'w) pay_ops \<Rightarrow> 'p AuthorizePayRequest \<Rightarrow> ('l, 'b, 'h, 'w, 'u checked_pay) pay_run"
where
  "check_payment c ops r =
     (if ap_is_free r then Done (Inl (PayInput ''free trade (payment=none): there is nothing to pay''))
      else
      pay_try (case ap_private_evidence r of
                 None \<Rightarrow> Done (Inr None)
               | Some e \<Rightarrow> pay_try (outside id (po_validate_private ops r e)) (\<lambda>p. Done (Inr (Some p)))) (\<lambda>private.
      pay_try (pay_lift (entry_checks r)) (\<lambda>_.
      pay_try (pay_lift (derive_payment ops (ap_job_id r) (ap_result_id r) (ap_delivery_integrity_hash r) (ap_job_hash r)
          (ap_seller_pubkey r) (ap_amount_sats r) (ap_accepted_mints r) (ap_realized_mint r) (ap_creq_hash r))) (\<lambda>derived.
      pay_try (pay_lift (delivery_of ops private r)) (\<lambda>(delivery, kind).
        verify_stage c ops r private derived delivery kind)))))"

section \<open>Paying\<close>

text \<open>The pairing of a hop: the one on disk, or quotes raised now.\<close>

definition hop_stage ::
  "('l, 'b, 'h) pay_codecs \<Rightarrow> ('u, 'p, 'w) pay_ops \<Rightarrow> 'u checked_pay \<Rightarrow> string \<Rightarrow> u64 \<Rightarrow>
   ('l, 'b, 'h, 'w, ('w HopEffects \<times> HopJournal) option) pay_run"
where
  "hop_stage K ops k a sats =
     (case hop_source (ck_plan k) of
        None \<Rightarrow> Done (Inr None)
      | Some source \<Rightarrow>
          pay_try (in_hops (open_hop_wallets (po_hop_wallets ops) (po_mint_text ops source) (wallet_open_mint_url (ck_terms k)))) (\<lambda>(source, target).
          pay_try (in_hops (journalled_pairing (pc_hop K) a)) (\<lambda>existing.
          pay_try (case existing of
                     Some pairing \<Rightarrow> Done (Inr pairing)
                   | None \<Rightarrow> outside PayHop (plan_quotes (po_quotes ops source target) (po_fee_buffer ops) a sats)) (\<lambda>pairing.
            Done (Inr (Some (po_hop_effects ops source target, pairing)))))))"

text \<open>A reservation or a credit of process \<open>p\<close> in the ledger.\<close>

definition gate_reserve :: "('l, 'b, 'h) pay_codecs \<Rightarrow> nat \<Rightarrow> string \<Rightarrow> u64 \<Rightarrow> ('l, 'b, 'h, 'w, unit) pay_run" where
  "gate_reserve K p a sats = atomic (\<lambda>s.
     case reserve (pc_enc K) (pc_dec K) (spend_io s) (clock_secs s) sats (Some a) (pay_gates s p, spend_ledger s) of
       (r, g, d) \<Rightarrow> (map_err PayBudget r, s\<lparr>pay_gates := (pay_gates s)(p := g), spend_ledger := d\<rparr>))"

definition gate_credit :: "('l, 'b, 'h) pay_codecs \<Rightarrow> nat \<Rightarrow> string \<Rightarrow> u64 \<Rightarrow> ('l, 'b, 'h, 'w, unit) pay_run" where
  "gate_credit K p a credit = atomic (\<lambda>s.
     case credit_reserve (pc_enc K) (pc_dec K) (spend_io s) (clock_secs s) a credit (pay_gates s p, spend_ledger s) of
       (r, g, d) \<Rightarrow> (map_err PayBudget r, s\<lparr>pay_gates := (pay_gates s)(p := g), spend_ledger := d\<rparr>))"

definition gate_spent :: "nat \<Rightarrow> ('l, 'b, 'h, 'w, u64) pay_run" where
  "gate_spent p = atomic (\<lambda>s. (Inr (spent (pay_gates s p)), s))"

text \<open>A run of the payment state machine on the journal of attempt \<open>a\<close>, under the lock of that file.\<close>

definition on_attempt ::
  "string \<Rightarrow> ('b fs_journal \<times> 'w \<Rightarrow> (PaymentError + PaymentState) \<times> 'b fs_journal \<times> 'w) \<Rightarrow> ('l, 'b, 'h, 'w, PaymentState) pay_run"
where
  "on_attempt a m = atomic (\<lambda>s. case m (pay_journals s a, world_of s) of
     (r, j, w) \<Rightarrow> (map_err PayPayment r, put_world w (s\<lparr>pay_journals := (pay_journals s)(a := j)\<rparr>)))"

definition attempt_pay ::
  "('l, 'b, 'h) pay_codecs \<Rightarrow> 'w PaymentEffects \<Rightarrow> 'u checked_pay \<Rightarrow> string \<Rightarrow> ('w HopEffects \<times> HopJournal) option \<Rightarrow>
   ('l, 'b, 'h, 'w, PaymentState \<times> u64) pay_run"
where
  "attempt_pay K E k a hop =
     pay_try (case hop of
                None \<Rightarrow> Done (Inr 0)
              | Some (e, pairing) \<Rightarrow> pay_try (in_hops (run_hop (pc_hop K) e pairing)) (\<lambda>settled. Done (Inr (unused_fee_reserve_sats settled))))
       (\<lambda>credit.
     pay_try (on_attempt a (advance (pc_crypto K) (fs_ops (pc_journal K)) E (ck_key k) (ck_terms k) (ck_authority k))) (\<lambda>state.
       Done (Inr (state, credit))))"

definition pay_checked ::
  "('l, 'b, 'h) pay_codecs \<Rightarrow> ('u, 'p, 'w) pay_ops \<Rightarrow> nat \<Rightarrow> 'p AuthorizePayRequest \<Rightarrow> 'u checked_pay \<Rightarrow>
   ('l, 'b, 'h, 'w, AuthorizePayOutcome) pay_run"
where
  "pay_checked K ops p r k =
     (let a = Payment.attempt_id (pc_crypto K) (ck_key k); sats = ap_amount_sats r in
      pay_try (hop_stage K ops k a sats) (\<lambda>hop.
      pay_try (outside PayFund (po_open_wallet ops (wallet_open_mint_url (ck_terms k)))) (\<lambda>_.
      pay_try (outside PayEffects (po_spawn ops)) (\<lambda>_.
      pay_try (outside from_preflight (po_preflight ops (t_amount (ck_terms k)))) (\<lambda>estimated_input_fee.
      pay_try (outside PayHome (po_journal_dir ops)) (\<lambda>_.
      let charged = cap_charge (map_option snd hop) sats estimated_input_fee in
      pay_try (gate_reserve K p a charged) (\<lambda>_.
      pay_try (attempt_pay K (po_payment_effects ops (ap_seller_signature r) (ck_kind k) (ck_private k)) k a hop) (\<lambda>(state, credit).
      pay_try (if credit > 0 then pbind (gate_credit K p (a @ '':hop-fee-reconcile'') credit) (\<lambda>_. Done (Inr ())) else Done (Inr ())) (\<lambda>_.
      pay_try (gate_spent p) (\<lambda>spent_total.
        Done (Inr \<lparr>apo_state = state, apo_attempt_id = a, apo_amount_sats = sats, apo_charged_sats = charged,
                   apo_spent_total_sats = spent_total\<rparr>)))))))))))"

definition authorize_pay ::
  "('l, 'b, 'h) pay_codecs \<Rightarrow> ('u, 'p, 'w) pay_ops \<Rightarrow> nat \<Rightarrow> 'p AuthorizePayRequest \<Rightarrow>
   ('l, 'b, 'h, 'w, AuthorizePayOutcome) pay_run"
where
  "authorize_pay K ops p r = pay_try (check_payment (pc_crypto K) ops r) (pay_checked K ops p r)"

section \<open>Completing a locked payment\<close>

definition private_of_bind :: "CompleteLockedRequest \<Rightarrow> bind_view option \<Rightarrow> AuthorizePayError + private_receipt option" where
  "private_of_bind r bind =
     (case bind of
        None \<Rightarrow> Inr None
      | Some b \<Rightarrow>
          (case bv_private b of
             None \<Rightarrow> Inr None
           | Some validated \<Rightarrow>
               try_bind validated (\<lambda>private.
                 if cl_result_id r \<noteq> bv_result_id b \<or> cl_seller_signature r \<noteq> bv_seller_signature b
                    \<or> cl_accepted_mints r \<noteq> bv_accepted_mints b \<or> cl_realized_mint r \<noteq> bv_funding_mint b
                 then Inl (PayInput ''completion differs from private accepted bind'')
                 else Inr (Some private))))"

definition kind_of_bind :: "CompleteLockedRequest \<Rightarrow> bind_view option \<Rightarrow> DeliveryKind" where
  "kind_of_bind r bind =
     (case Option.bind bind bv_delivery_kind of
        Some kind \<Rightarrow> if kind = DeliveryKind_as_str DeliveryKind.Inline then DeliveryKind.Inline else Fork
      | None \<Rightarrow> if length (cl_delivery_integrity_hash r) = 64 then DeliveryKind.Inline else Fork)"

definition complete_recovered_locked_async ::
  "('l, 'b, 'h) pay_codecs \<Rightarrow> ('u, 'p, 'w) pay_ops \<Rightarrow> nat \<Rightarrow> CompleteLockedRequest \<Rightarrow>
   ('l, 'b, 'h, 'w, CompleteLockedOutcome) pay_run"
where
  "complete_recovered_locked_async K ops p r =
     (if is_blank (cl_seller_signature r) then Done (Inl (PayInput ''seller_signature is required to co-sign the receipt on completion''))
      else
      pay_try (pay_lift (derive_payment ops (cl_job_id r) (cl_result_id r) (cl_delivery_integrity_hash r) (cl_job_hash r)
          (cl_seller_pubkey r) (cl_amount_sats r) (cl_accepted_mints r) (cl_realized_mint r) (cl_creq_hash r))) (\<lambda>derived.
      let key = dp_key derived; terms = dp_terms derived; seller_hex = dp_seller_nostr derived;
          a = Payment.attempt_id (pc_crypto K) key in
      pay_try (buyer_key ops) (\<lambda>buyer_hex.
      let authority = \<lparr>buyer = buyer_hex, seller = seller_hex\<rparr> in
      pay_try (outside (\<lambda>_. PayInput ''cannot read the accepted bind'') (po_load_bind ops (cl_job_id r))) (\<lambda>bind.
      pay_try (pay_lift (private_of_bind r bind)) (\<lambda>private.
      let kind = kind_of_bind r bind in
      pay_try (pay_lift (case private of
                 None \<Rightarrow> Inr ()
               | Some _ \<Rightarrow>
                   try_bind (map_err PayInput (receipt_preimage_bound key buyer_hex seller_hex kind private)) (\<lambda>pre.
                     map_err PayPayment (verify_seller_prepay_cosig (pc_crypto K) authority pre (cl_seller_signature r) None)))) (\<lambda>_.
      pay_try (outside PayFund (po_open_wallet ops (wallet_open_mint_url terms))) (\<lambda>_.
      pay_try (outside PayEffects (po_spawn ops)) (\<lambda>_.
      pay_try (gate_reserve K p a (cl_amount_sats r)) (\<lambda>_.
      pay_try (on_attempt a (complete_recovered_locked (pc_crypto K) (fs_ops (pc_journal K))
                 (po_payment_effects ops (cl_seller_signature r) kind private) key terms authority)) (\<lambda>state.
      pay_try (gate_spent p) (\<lambda>spent_total.
        Done (Inr \<lparr>clo_state = state, clo_attempt_id = a, clo_amount_sats = cl_amount_sats r,
                   clo_spent_total_sats = spent_total\<rparr>))))))))))))"

end
