(* ===== verification/Pay_Safety.thy ===== *)
theory Pay_Safety
  imports Authorize_Pay
begin

text \<open>
  Safety of the pay path, over every interleaving. Two interpretations of \<open>token_protocol\<close>: for a hop,
  which touches only its own attempt, and for the home, where a process knows which attempts are
  charged. Payments, completions and sweeps keep the invariant that an attempt that melted at a
  mint, or that has anything in a hop or payment journal, is counted in the spend ledger.
\<close>

section \<open>Hops act for their attempt\<close>

definition own_records :: "'l hop_codec \<Rightarrow> ('l, 'w) hop_state \<Rightarrow> bool" where
  "own_records c s \<longleftrightarrow>
     (\<forall>a rs r. decode_records c (file_of a s) = Inr rs \<longrightarrow> r \<in> set rs \<longrightarrow> record_attempt_id r = a)"

definition only_for :: "string set \<Rightarrow> ('l, 'w) hop_state \<Rightarrow> ('l, 'w) hop_state \<Rightarrow> bool" where
  "only_for A s t \<longleftrightarrow> (\<forall>b. b \<notin> A \<longrightarrow> hop_log t b = hop_log s b \<and> file_of b t = file_of b s)"

lemma only_for_frame:
  fixes s t :: "('l, 'w) hop_state"
  shows "hop_files t = hop_files s \<Longrightarrow> hop_log t = hop_log s \<Longrightarrow> only_for A s t"
  by (simp add: only_for_def file_of_def)

lemma own_frame:
  fixes s t :: "('l, 'w) hop_state"
  shows "own_records c s \<Longrightarrow> hop_files t = hop_files s \<Longrightarrow> own_records c t"
  by (simp add: own_records_def file_of_def)

lemma own_put:
  "own_records c s \<Longrightarrow> (\<And>rs r. decode_records c f = Inr rs \<Longrightarrow> r \<in> set rs \<Longrightarrow> record_attempt_id r = a) \<Longrightarrow>
   own_records c (put_file a f s)"
  by (simp add: own_records_def)

lemma decode_snocD:
  assumes "hop_codec_ok c" and "enc_hop c r = Inr l"
    and "decode_records c (f\<lparr>hf_lines := hf_lines f @ [l]\<rparr>) = Inr rs'"
  shows "\<exists>rs. decode_records c f = Inr rs \<and> rs' = rs @ [r]"
  using assms by (auto simp: decode_records_def hop_codec_ok_def split: if_splits elim!: try_bind_InrE)

lemma own_append:
  assumes "hop_codec_ok c" and "own_records c s" and "hop_append_sync c r s = (x, t)"
  shows "own_records c t \<and> only_for {record_attempt_id r} s t"
proof -
  obtain f u where d: "draw_fault s = (f, u)" by (cases "draw_fault s") auto
  define a where "a = record_attempt_id r"
  have u: "own_records c u" "hop_log u = hop_log s" using draw_fault_frame [OF d] own_frame [OF assms(2)] by blast+
  then have own: "decode_records c (file_of a u) = Inr rs \<Longrightarrow> r' \<in> set rs \<Longrightarrow> record_attempt_id r' = a" for rs r'
    by (auto simp: own_records_def)
  have same: "own_records c (put_file a (file_of a u) u)" by (rule own_put [OF u(1)]) (rule own)
  have put: "own_records c (put_file a ((file_of a u)\<lparr>hf_lines := hf_lines (file_of a u) @ [l]\<rparr>) (put_file a (file_of a u) u))"
    if "enc_hop c r = Inr l" for l
    by (rule own_put [OF same]) (use decode_snocD [OF assms(1) that] own in \<open>fastforce simp: a_def\<close>)
  have torn: "own_records c (put_file a ((file_of a u)\<lparr>hf_torn := True\<rparr>) (put_file a (file_of a u) u))"
    by (rule own_put [OF same]) (simp add: decode_records_def)
  have files: "file_of b u = file_of b s" for b using draw_fault_frame [OF d] by (simp add: file_of_def)
  show ?thesis
    using assms(3) u same put torn files
    by (auto simp: only_for_def hop_append_sync_def d Let_def a_def [symmetric] try_bind_def map_err_def
        split: option.splits hop_fault.splits sum.splits if_splits)
qed

interpretation solo: token_protocol "own_records c" "\<lambda>(_::unit) _. True" "\<lambda>_ _. True" "()" "(=)" "only_for A"
  for c :: "'l hop_codec" and A
  by unfold_locales (auto simp: only_for_def)

text \<open>A program that keeps the journals well formed, touches the given attempts only, and whose result,
  when it has one, satisfies the given test.\<close>

definition alone :: "'l hop_codec \<Rightarrow> string set \<Rightarrow> ('l, 'w, 'a) hop_run \<Rightarrow> ('a \<Rightarrow> bool) \<Rightarrow> bool" where
  "alone c A p P \<longleftrightarrow> solo.follows c A p () (\<lambda>r _. \<forall>x. r = Inr x \<longrightarrow> P x)"

lemma alone_atomic:
  "(\<And>s x t. own_records c s \<Longrightarrow> m s = (x, t) \<Longrightarrow> own_records c t \<and> only_for A s t \<and> (\<forall>y. x = Inr y \<longrightarrow> P y)) \<Longrightarrow>
   alone c A (atomic m) P"
  unfolding alone_def by (rule solo.follows_atomic) (auto simp: solo.move_def prod_eq_iff)

lemma alone_try: "alone c A p P \<Longrightarrow> (\<And>x. P x \<Longrightarrow> alone c A (k x) Q) \<Longrightarrow> alone c A (hop_try p k) Q"
  unfolding alone_def hop_try_def
  by (erule solo.follows_bind) (auto split: sum.splits)

lemma alone_then: "alone c A p (\<lambda>_. True) \<Longrightarrow> (\<And>x. alone c A (k x) Q) \<Longrightarrow> alone c A (hop_try p k) Q"
  by (rule alone_try)

lemma alone_if: "(b \<Longrightarrow> alone c A p Q) \<Longrightarrow> (\<not> b \<Longrightarrow> alone c A q Q) \<Longrightarrow> alone c A (if b then p else q) Q"
  by simp

lemma alone_pair: "(\<And>x y. alone c A (k x y) Q) \<Longrightarrow> alone c A (case z of (x, y) \<Rightarrow> k x y) Q"
  by (simp split: prod.split)

lemma alone_fail: "alone c A (hop_fail e) Q"
  by (simp add: alone_def hop_fail_def)

lemma alone_done: "Q x \<Longrightarrow> alone c A (Done (Inr x)) Q"
  by (simp add: alone_def)

lemma alone_read: "alone c A (journal_read c a) (\<lambda>rs. \<forall>r \<in> set rs. record_attempt_id r = a)"
  unfolding journal_read_def
proof (rule alone_atomic)
  fix s x t assume own: "own_records c s" and r: "hop_replay c a s = (x, t)"
  then have fr: "hop_files t = hop_files s" "hop_log t = hop_log s" using replay_frame [OF r] by auto
  then have own': "own_records c t" using own_frame [OF own] by blast
  have "\<forall>y. x = Inr y \<longrightarrow> (\<forall>r \<in> set y. record_attempt_id r = a)"
    using r own' by (auto simp: own_records_def reads_def dest!: replay_reads)
  with own' fr show "own_records c t \<and> only_for A s t \<and> (\<forall>y. x = Inr y \<longrightarrow> (\<forall>r \<in> set y. record_attempt_id r = a))"
    by (simp add: only_for_frame)
qed

lemma alone_read_any: "alone c A (journal_read c a) (\<lambda>_. True)"
  using alone_read [of c A a] unfolding alone_def by (auto elim: solo.follows_weaken)

lemma alone_append: "hop_codec_ok c \<Longrightarrow> record_attempt_id r \<in> A \<Longrightarrow> alone c A (journal_append c r) (\<lambda>_. True)"
  unfolding journal_append_def
  by (rule alone_atomic) (metis own_append only_for_def singletonD)

lemma alone_call: "alone c A (call_mint m) (\<lambda>_. True)"
  unfolding call_mint_def
  by (rule alone_atomic) (auto simp: only_for_def own_records_def file_of_def split: prod.splits)

lemma alone_ask: "a \<in> A \<Longrightarrow> alone c A (ask_melt e a q) (\<lambda>_. True)"
  unfolding ask_melt_def
  by (rule alone_atomic) (auto simp: only_for_def own_records_def file_of_def log_event_def split: prod.splits sum.splits)

lemma alone_melt: "a \<in> A \<Longrightarrow> alone c A (do_melt e a q) (\<lambda>_. True)"
  unfolding do_melt_def
  by (rule alone_atomic) (auto simp: only_for_def own_records_def file_of_def log_event_def split: prod.splits sum.splits)

lemmas alone_steps = alone_then alone_if alone_pair alone_fail alone_done alone_append alone_call alone_ask alone_melt alone_read_any

lemma alone_loop: "hop_codec_ok c \<Longrightarrow> hj_attempt_id j \<in> A \<Longrightarrow> alone c A (melt_loop c e j q n m fee) (\<lambda>_. True)"
proof (induction c e j q n m fee rule: melt_loop.induct)
  case (1 c e j q n m fee)
  define a where "a = hj_attempt_id j"
  have a: "a \<in> A" using "1.prems" by (simp add: a_def)
  have "alone c A (case leg of
          MeltUnpaid \<Rightarrow> hop_try (do_melt e a q) (\<lambda>paid. Done (Inr (Some paid, False)))
        | MeltPending \<Rightarrow> hop_fail (MeltInFlight a q)
        | MeltPaid \<Rightarrow> Done (Inr (fee, \<not> m))
        | MeltFailedLeg \<Rightarrow>
            hop_try (call_mint (e_target_invoice e (hj_mint_quote_id j))) (\<lambda>(invoice_state, bolt11).
              if invoice_state = MintPaid \<or> invoice_state = MintIssued then Done (Inr (fee, True))
              else if invoice_state = MintPending then hop_fail (AmbiguousTarget a (hj_mint_quote_id j))
              else if n \<ge> MAX_MELT_SUPERSESSIONS then hop_fail (MeltSupersessionExhausted a n)
              else
                hop_try (call_mint (e_supersede_melt_quote e bolt11)) (\<lambda>(q', cost).
                hop_try (call_mint (e_require_source_covers e cost)) (\<lambda>_.
                  if cost > hj_planned_cost j
                  then hop_fail (ReplacementCostExceedsAuthorization a (hj_planned_cost j) cost)
                  else
                    hop_try (journal_append c (HMeltSuperseded a q q' cost)) (\<lambda>_.
                    hop_try (do_melt e a q') (\<lambda>paid.
                      melt_loop c e j q' (n + 1) True (Some paid))))))) (\<lambda>_. True)" for leg
    using 1 a by (cases leg) (auto intro!: alone_steps simp: a_def split del: if_split)
  then show ?case by (subst melt_loop.simps) (simp only: Let_def a_def [symmetric], rule alone_then [OF alone_ask [OF a]])
qed

lemma alone_mint_stage: "hop_codec_ok c \<Longrightarrow> hj_attempt_id j \<in> A \<Longrightarrow> alone c A (mint_stage c e j r) (\<lambda>_. True)"
  unfolding mint_stage_def Let_def
  by (intro alone_steps; (split MintLeg.split)?; auto intro!: alone_steps)

lemma alone_resume: "hop_codec_ok c \<Longrightarrow> hj_attempt_id j \<in> A \<Longrightarrow> alone c A (resume_hop c e j) (\<lambda>_. True)"
  unfolding resume_hop_def
  by (auto intro!: alone_steps alone_loop alone_mint_stage split: option.split)

text \<open>A run of a hop only melts for the attempt of its pairing, and a pairing read back is one of the attempt.\<close>

lemma alone_run_hop: "hop_codec_ok c \<Longrightarrow> hj_attempt_id j \<in> A \<Longrightarrow> alone c A (run_hop c e j) (\<lambda>_. True)"
  unfolding run_hop_def
  by (auto intro!: alone_steps alone_resume split: option.split)

lemma planned_of_mem: "planned_of rs = Some j \<Longrightarrow> HPlanned j \<in> set rs"
  by (induction rs rule: planned_of.induct) auto

lemma alone_journalled: "alone c A (journalled_pairing c a) (\<lambda>x. \<forall>j. x = Some j \<longrightarrow> hj_attempt_id j = a)"
  unfolding journalled_pairing_def
  by (rule alone_try [OF alone_read]) (auto intro!: alone_done dest!: planned_of_mem)

lemma alone_open: "alone c A (open_hop_wallets w source target) (\<lambda>_. True)"
  unfolding open_hop_wallets_def by (auto intro!: alone_steps split: sum.split option.split)

section \<open>Charged attempts\<close>

text \<open>The attempts that a fold of the ledger counts, on top of the legacy base.\<close>

definition counted :: "('l \<Rightarrow> string + LedgerRecord) \<Rightarrow> FoldedSpent option \<Rightarrow> 'l ledger_file \<Rightarrow> string set" where
  "counted dec base d = (case folded_view dec base d of Inl _ \<Rightarrow> {} | Inr f \<Rightarrow> f_counted f)"

lemma counted_snoc:
  "codec_ok enc dec \<Longrightarrow> folded_view dec base d = Inr f \<Longrightarrow> counted dec base d \<subseteq> counted dec base (Some (lines_of d @ [Text (enc r)]))"
  by (auto simp: counted_def folded_view_snoc fold_record_def split: option.split)

lemma counted_reserve:
  assumes "codec_ok enc dec" and "reserve enc dec io now sats att (g, d) = (r, g', d')" and "legacy_base g = base"
  shows "counted dec base d \<subseteq> counted dec base d'"
  using reserve_disk [OF assms(2)] counted_snoc [OF assms(1)] assms(3) by blast

lemma counted_credit:
  assumes "codec_ok enc dec" and "credit_reserve enc dec io now i sats (g, d) = (r, g', d')" and "legacy_base g = base"
  shows "counted dec base d \<subseteq> counted dec base d'"
  using credit_disk [OF assms(2)] counted_snoc [OF assms(1)] assms(3) by blast

lemma counted_reserved:
  assumes "codec_ok enc dec" and "reserve enc dec io now sats (Some a) (g, d) = (Inr (), g', d')"
    and "legacy_base g = base" and "ledger_path g \<noteq> None"
  shows "a \<in> counted dec base d'"
proof -
  have "a \<in> counted_attempts g'"
    using assms(2,4) by (cases rule: reserve_success_cases) (auto simp: count_attempt_def)
  then show ?thesis
    using reserve_coherent [OF assms(1,4,2)] assms(3) by (simp add: counted_def cache_of_def)
qed

text \<open>Money moved for an attempt, or may have: a melt was sent, or a journal was written.\<close>

definition touched :: "string \<Rightarrow> ('l, 'b, 'h, 'w) pay_state \<Rightarrow> bool" where
  "touched a s \<longleftrightarrow> (\<exists>q. Melted q \<in> set (hop_log (hop_home s) a)) \<or>
     hf_lines (file_of a (hop_home s)) \<noteq> [] \<or> hf_torn (file_of a (hop_home s)) \<or>
     committed (pay_journals s a) \<noteq> [] \<or> trailing (pay_journals s a) \<noteq> []"

definition gates_ok :: "FoldedSpent option \<Rightarrow> ('l, 'b, 'h, 'w) pay_state \<Rightarrow> bool" where
  "gates_ok base s \<longleftrightarrow> (\<forall>p. ledger_path (pay_gates s p) \<noteq> None \<and> legacy_base (pay_gates s p) = base)"

definition charged_home :: "('l, 'b, 'h) pay_codecs \<Rightarrow> FoldedSpent option \<Rightarrow> ('l, 'b, 'h, 'w) pay_state \<Rightarrow> bool" where
  "charged_home K base s \<longleftrightarrow> gates_ok base s \<and> own_records (pc_hop K) (hop_home s) \<and>
     (\<forall>a. touched a s \<longrightarrow> a \<in> counted (pc_dec K) base (spend_ledger s))"

definition knows_charged :: "('l, 'b, 'h) pay_codecs \<Rightarrow> FoldedSpent option \<Rightarrow> string set \<Rightarrow> ('l, 'b, 'h, 'w) pay_state \<Rightarrow> bool" where
  "knows_charged K base A s \<longleftrightarrow> A \<subseteq> counted (pc_dec K) base (spend_ledger s)"

text \<open>Outside the programs the world, the clock and the faults change, and processes restart with a gate
  on the same ledger.\<close>

definition same_files :: "('l, 'b, 'h, 'w) pay_state \<Rightarrow> ('l, 'b, 'h, 'w) pay_state \<Rightarrow> bool" where
  "same_files s t \<longleftrightarrow> spend_ledger t = spend_ledger s \<and> hop_files (hop_home t) = hop_files (hop_home s) \<and>
     hop_log (hop_home t) = hop_log (hop_home s) \<and>
     (\<forall>a. committed (pay_journals t a) = committed (pay_journals s a) \<and> trailing (pay_journals t a) = trailing (pay_journals s a))"

definition pay_env :: "FoldedSpent option \<Rightarrow> ('l, 'b, 'h, 'w) pay_state \<Rightarrow> ('l, 'b, 'h, 'w) pay_state \<Rightarrow> bool" where
  "pay_env base s t \<longleftrightarrow> same_files s t \<and> gates_ok base t"

lemma same_files_home:
  fixes s t :: "('l, 'b, 'h, 'w) pay_state"
  assumes "same_files s t"
  shows "touched a t = touched a s" and "own_records c (hop_home s) \<Longrightarrow> own_records c (hop_home t)"
    and "knows_charged K base A t = knows_charged K base A s"
  using assms own_frame [of c "hop_home s" "hop_home t"]
  by (simp_all add: same_files_def touched_def knows_charged_def file_of_def)

lemma charged_same: "charged_home K base s \<Longrightarrow> same_files s t \<Longrightarrow> gates_ok base t \<Longrightarrow> charged_home K base t"
  using same_files_home [of s t] by (auto simp: charged_home_def) (simp add: same_files_def)

interpretation pay: token_protocol "charged_home K base" "knows_charged K base" "\<lambda>_ _. True" "{}" "pay_env base" "\<lambda>_ _. True"
  for K :: "('l, 'b, 'h) pay_codecs" and base
  by unfold_locales (auto simp: pay_env_def same_files_home(3) intro: charged_same, simp add: knows_charged_def)

lemma follows_quiet:
  fixes m :: "('l, 'b, 'h, 'w) pay_state \<Rightarrow> 'a \<times> ('l, 'b, 'h, 'w) pay_state"
  assumes "\<And>s r t. m s = (r, t) \<Longrightarrow> same_files s t \<and> pay_gates t = pay_gates s"
  shows "pay.follows K base (atomic m) A (\<lambda>_ B. B = A)"
proof (rule pay.follows_atomic)
  fix s :: "('l, 'b, 'h, 'w) pay_state" assume inv: "charged_home K base s" and kn: "knows_charged K base A s"
  obtain r t where m: "m s = (r, t)" by (cases "m s")
  have st: "same_files s t" "gates_ok base t"
    using assms [OF m] inv by (auto simp: charged_home_def gates_ok_def)
  then have "charged_home K base t" "\<And>B. knows_charged K base B s \<Longrightarrow> knows_charged K base B t"
    using inv charged_same same_files_home(3) by blast+
  then show "\<exists>t'. pay.move K base A t' s (snd (m s)) \<and> t' = A" using kn m by (simp add: pay.move_def)
qed

lemma follows_ledger:
  fixes m :: "('l, 'b, 'h, 'w) pay_state \<Rightarrow> 'a \<times> ('l, 'b, 'h, 'w) pay_state"
  assumes "\<And>s r t. gates_ok base s \<Longrightarrow> m s = (r, t) \<Longrightarrow>
      counted (pc_dec K) base (spend_ledger s) \<subseteq> counted (pc_dec K) base (spend_ledger t) \<and> gates_ok base t \<and>
      hop_home t = hop_home s \<and> pay_journals t = pay_journals s \<and> f r \<subseteq> counted (pc_dec K) base (spend_ledger t)"
  shows "pay.follows K base (atomic m) A (\<lambda>r B. B = A \<union> f r)"
proof (rule pay.follows_atomic)
  fix s :: "('l, 'b, 'h, 'w) pay_state" assume inv: "charged_home K base s" and kn: "knows_charged K base A s"
  obtain r t where m: "m s = (r, t)" by (cases "m s")
  note a = assms [OF _ m]
  have "gates_ok base s" using inv by (simp add: charged_home_def)
  note a = a [OF this]
  have "charged_home K base t" using inv a by (auto simp: charged_home_def touched_def)
  then show "\<exists>t'. pay.move K base A t' s (snd (m s)) \<and> t' = A \<union> f (fst (m s))"
    using kn m a by (auto simp: pay.move_def knows_charged_def)
qed

lemma follows_reserve:
  assumes "codec_ok (pc_enc K) (pc_dec K)"
  shows "pay.follows K base (gate_reserve K p a sats) A (\<lambda>r B. B = A \<union> (if r = Inr () then {a} else {}))"
  unfolding gate_reserve_def
proof (rule follows_ledger)
  fix s r t assume g: "gates_ok base s" and m: "(case reserve (pc_enc K) (pc_dec K) (spend_io s) (clock_secs s) sats (Some a)
      (pay_gates s p, spend_ledger s) of (r, g, d) \<Rightarrow> (map_err PayBudget r, s\<lparr>pay_gates := (pay_gates s)(p := g), spend_ledger := d\<rparr>)) = (r, t)"
  obtain x g' d where res: "reserve (pc_enc K) (pc_dec K) (spend_io s) (clock_secs s) sats (Some a) (pay_gates s p, spend_ledger s) = (x, g', d)"
    by (cases "reserve (pc_enc K) (pc_dec K) (spend_io s) (clock_secs s) sats (Some a) (pay_gates s p, spend_ledger s)")
  have lb: "legacy_base (pay_gates s p) = base" "ledger_path (pay_gates s p) \<noteq> None" using g by (auto simp: gates_ok_def)
  have ok: "gates_ok base (s\<lparr>pay_gates := (pay_gates s)(p := g'), spend_ledger := d\<rparr>)"
    using g reserve_frame [OF res] by (auto simp: gates_ok_def)
  have "a \<in> counted (pc_dec K) base d" if "x = Inr ()" using counted_reserved [OF assms] res that lb by blast
  then show "counted (pc_dec K) base (spend_ledger s) \<subseteq> counted (pc_dec K) base (spend_ledger t) \<and> gates_ok base t \<and>
      hop_home t = hop_home s \<and> pay_journals t = pay_journals s \<and> (if r = Inr () then {a} else {}) \<subseteq> counted (pc_dec K) base (spend_ledger t)"
    using m res ok counted_reserve [OF assms res lb(1)] by (auto simp: map_err_def split: sum.splits)
qed

lemma follows_credit:
  assumes "codec_ok (pc_enc K) (pc_dec K)"
  shows "pay.follows K base (gate_credit K p a sats) A (\<lambda>_ B. B = A)"
proof -
  have "pay.follows K base (gate_credit K p a sats) A (\<lambda>r B. B = A \<union> (\<lambda>_. {}) r)"
    unfolding gate_credit_def
  proof (rule follows_ledger)
    fix s r t assume g: "gates_ok base s" and m: "(case credit_reserve (pc_enc K) (pc_dec K) (spend_io s) (clock_secs s) a sats
        (pay_gates s p, spend_ledger s) of (r, g, d) \<Rightarrow> (map_err PayBudget r, s\<lparr>pay_gates := (pay_gates s)(p := g), spend_ledger := d\<rparr>)) = (r, t)"
    obtain x g' d where res: "credit_reserve (pc_enc K) (pc_dec K) (spend_io s) (clock_secs s) a sats (pay_gates s p, spend_ledger s) = (x, g', d)"
      by (cases "credit_reserve (pc_enc K) (pc_dec K) (spend_io s) (clock_secs s) a sats (pay_gates s p, spend_ledger s)")
    have lb: "legacy_base (pay_gates s p) = base" using g by (auto simp: gates_ok_def)
    have ok: "gates_ok base (s\<lparr>pay_gates := (pay_gates s)(p := g'), spend_ledger := d\<rparr>)"
      using g credit_frame [OF res] by (auto simp: gates_ok_def)
    then show "counted (pc_dec K) base (spend_ledger s) \<subseteq> counted (pc_dec K) base (spend_ledger t) \<and> gates_ok base t \<and>
        hop_home t = hop_home s \<and> pay_journals t = pay_journals s \<and> {} \<subseteq> counted (pc_dec K) base (spend_ledger t)"
      using m res counted_credit [OF assms res lb] by auto
  qed
  then show ?thesis by simp
qed

lemma follows_attempt:
  assumes "a \<in> A"
  shows "pay.follows K base (on_attempt a m :: ('l, 'b, 'h, 'w, PaymentState) pay_run) A (\<lambda>_ B. B = A)"
  unfolding on_attempt_def
proof (rule pay.follows_atomic)
  fix s :: "('l, 'b, 'h, 'w) pay_state" assume inv: "charged_home K base s" and kn: "knows_charged K base A s"
  obtain r j w where m: "m (pay_journals s a, world_of s) = (r, j, w)" by (cases "m (pay_journals s a, world_of s)")
  let ?t = "put_world w (s\<lparr>pay_journals := (pay_journals s)(a := j)\<rparr>)"
  have "touched b ?t \<Longrightarrow> b = a \<or> touched b s" for b by (auto simp: touched_def put_world_def file_of_def)
  then have "charged_home K base ?t"
    using inv kn assms own_frame [of "pc_hop K" "hop_home s" "hop_home ?t"]
    by (auto simp: charged_home_def put_world_def gates_ok_def knows_charged_def)
  then show "\<exists>t'. pay.move K base A t' s (snd (case m (pay_journals s a, world_of s) of
      (r, j, w) \<Rightarrow> (map_err PayPayment r, put_world w (s\<lparr>pay_journals := (pay_journals s)(a := j)\<rparr>)))) \<and> t' = A"
    using kn m by (auto simp: pay.move_def knows_charged_def put_world_def)
qed

lemma hop_step_charged:
  assumes "charged_home K base s" and "knows_charged K base A s" and "own_records (pc_hop K) h" and "only_for A (hop_home s) h"
  shows "pay.move K base A A s (s\<lparr>hop_home := h\<rparr>)"
proof -
  have "touched b (s\<lparr>hop_home := h\<rparr>) \<Longrightarrow> b \<in> A \<or> touched b s" for b
    using assms(4) by (auto simp: touched_def only_for_def)
  then have "charged_home K base (s\<lparr>hop_home := h\<rparr>)"
    using assms by (auto simp: charged_home_def gates_ok_def knows_charged_def)
  with assms(2) show ?thesis by (simp add: pay.move_def knows_charged_def)
qed

lemma follows_alone:
  fixes p :: "('h, 'w, 'a) hop_run" and K :: "('l, 'b, 'h) pay_codecs"
  assumes "alone (pc_hop K) A p P"
  shows "pay.follows K base (hop_proc p) A (\<lambda>r B. B = A \<and> (\<forall>x. r = Inr x \<longrightarrow> P x))"
  using assms
proof (induction p)
  case (Done r)
  then show ?case by (simp add: alone_def)
next
  case (Act f k)
  have "\<exists>t'. pay.move K base A t' s (s\<lparr>hop_home := f (hop_home s)\<rparr>) \<and>
      pay.follows K base (hop_proc (k (hop_home s))) t' (\<lambda>r B. B = A \<and> (\<forall>x. r = Inr x \<longrightarrow> P x))"
    if s: "charged_home K base s" "knows_charged K base A s" for s :: "('l, 'b, 'h, 'w) pay_state"
  proof -
    have "own_records (pc_hop K) (hop_home s)" using s by (simp add: charged_home_def)
    with Act.prems have h: "own_records (pc_hop K) (f (hop_home s))" "only_for A (hop_home s) (f (hop_home s))"
      and k: "alone (pc_hop K) A (k (hop_home s)) P" by (auto simp: alone_def solo.move_def)
    show ?thesis using hop_step_charged [OF s h] Act.IH [OF rangeI k] by blast
  qed
  then show ?case by simp
qed

text \<open>A program that starts with the attempts \<open>A\<close> charged and, when it succeeds, ends with \<open>B\<close> charged.\<close>

definition pays ::
  "('l, 'b, 'h) pay_codecs \<Rightarrow> FoldedSpent option \<Rightarrow> string set \<Rightarrow> ('l, 'b, 'h, 'w, 'a) pay_run \<Rightarrow> string set \<Rightarrow> ('a \<Rightarrow> bool) \<Rightarrow> bool"
where
  "pays K base A p B P \<longleftrightarrow> pay.follows K base p A (\<lambda>r C. \<forall>x. r = Inr x \<longrightarrow> C = B \<and> P x)"

lemma pays_try: "pays K base A p B P \<Longrightarrow> (\<And>x. P x \<Longrightarrow> pays K base B (k x) C Q) \<Longrightarrow> pays K base A (pay_try p k) C Q"
  unfolding pays_def pay_try_def
  by (erule pay.follows_bind) (auto split: sum.splits)

lemma pays_then: "pays K base A p A (\<lambda>_. True) \<Longrightarrow> (\<And>x. pays K base A (k x) C Q) \<Longrightarrow> pays K base A (pay_try p k) C Q"
  by (rule pays_try)

lemma pays_done: "P x \<Longrightarrow> pays K base A (Done (Inr x)) A P"
  by (simp add: pays_def)

lemma pays_fail: "pays K base A (Done (Inl e)) B P"
  by (simp add: pays_def)

lemma pays_lift: "pays K base A (pay_lift r) A (\<lambda>_. True)"
  by (simp add: pays_def pay_lift_def)

lemma pays_atomic:
  assumes "\<And>s r t. m s = (r, t) \<Longrightarrow> same_files s t \<and> pay_gates t = pay_gates s"
  shows "pays K base A (atomic m) A (\<lambda>_. True)"
  unfolding pays_def by (rule pay.follows_weaken [OF follows_quiet]) (use assms in auto)

lemma pays_outside: "pays K base A (outside h m) A (\<lambda>_. True)"
  unfolding outside_def
  by (rule pays_atomic) (auto simp: same_files_def put_world_def split: prod.splits)

lemma pays_hop: "alone (pc_hop K) A p P \<Longrightarrow> pays K base A (in_hops p) A P"
  unfolding pays_def in_hops_def
  by (erule pay.follows_bind [OF follows_alone]) (auto simp: map_err_def split: sum.splits)

lemma pays_attempt: "a \<in> A \<Longrightarrow> pays K base A (on_attempt a m) A (\<lambda>_. True)"
  unfolding pays_def by (rule pay.follows_weaken [OF follows_attempt]) auto

lemma pays_reserve: "codec_ok (pc_enc K) (pc_dec K) \<Longrightarrow> pays K base A (gate_reserve K p a sats) (insert a A) (\<lambda>_. True)"
  unfolding pays_def by (rule pay.follows_weaken [OF follows_reserve]) auto

lemma pays_spent: "pays K base A (gate_spent p) A (\<lambda>_. True)"
  unfolding gate_spent_def by (rule pays_atomic) (auto simp: same_files_def)

lemma pays_if: "(b \<Longrightarrow> pays K base A p B Q) \<Longrightarrow> (\<not> b \<Longrightarrow> pays K base A q B Q) \<Longrightarrow> pays K base A (if b then p else q) B Q"
  by simp

lemma pays_pair: "(\<And>x y. pays K base A (k x y) B Q) \<Longrightarrow> pays K base A (case z of (x, y) \<Rightarrow> k x y) B Q"
  by (simp split: prod.split)

lemma pays_option:
  "(x = None \<Longrightarrow> pays K base A p B Q) \<Longrightarrow> (\<And>y. x = Some y \<Longrightarrow> pays K base A (k y) B Q) \<Longrightarrow>
   pays K base A (case x of None \<Rightarrow> p | Some y \<Rightarrow> k y) B Q"
  by (simp split: option.split)

lemmas pays_steps = pays_then pays_done pays_fail pays_lift pays_outside pays_attempt pays_spent pays_if pays_pair pays_option

section \<open>The programs of the pay path\<close>

lemma pays_buyer_key: "pays K base A (buyer_key ops) A (\<lambda>_. True)"
  unfolding buyer_key_def by (intro pays_steps)

lemma pays_contribution: "pays K base A (contribution_stage c ops private r seller_hex d) A (\<lambda>_. True)"
  unfolding contribution_stage_def by (intro pays_steps) simp_all

lemma pays_delivery: "pays K base A (delivery_stage ops d key) A (\<lambda>_. True)"
proof -
  have "pays K base A (pbind (atomic (\<lambda>s. case po_fetch ops d (world_of s) of (r, w) \<Rightarrow> (r, put_world w s))) (\<lambda>x. pay_lift (f x))) A (\<lambda>_. True)" for d f
    unfolding pays_def
    by (rule pay.follows_bind [OF follows_quiet]) (auto simp: same_files_def put_world_def pay_lift_def split: prod.splits)
  then show ?thesis unfolding delivery_stage_def by (intro pays_option) (auto intro: pays_done)
qed

lemma pays_refuse: "pays K base A (refuse_sentinel ops job commit cls why) A (\<lambda>_. True)"
  unfolding pays_def refuse_sentinel_def
  by (rule pay.follows_bind [OF follows_quiet]) (auto simp: same_files_def journal_sentinel_refusal_def)

lemma pays_sentinel: "pays K base A (sentinel_stage ops r d) A (\<lambda>_. True)"
proof -
  have "pays K base A (pbind (atomic (\<lambda>s. case delivery_tree_carries_sentinel ops c h j (world_of s) of (v, w) \<Rightarrow> (v, put_world w s))) k) A (\<lambda>_. True)"
    if "\<And>v. pays K base A (k v) A (\<lambda>_. True)" for c h j k
    using that unfolding pays_def
    by (intro pay.follows_bind [OF follows_quiet]) (auto simp: same_files_def put_world_def split: prod.splits)
  note read = this
  show ?thesis
    unfolding sentinel_stage_def
    by (cases d) (auto intro!: pays_done read pays_refuse split: sum.split bool.split)
qed

lemma pays_check: "pays K base A (check_payment c ops r) A (\<lambda>_. True)"
  unfolding check_payment_def verify_stage_def Let_def
  by (intro pays_steps pays_buyer_key pays_contribution pays_delivery pays_sentinel) simp_all

lemma pays_outside_result:
  fixes m :: "'w \<Rightarrow> ('e + 'a) \<times> 'w" and K :: "('l, 'b, 'h) pay_codecs"
  shows "(\<And>w x w'. m w = (Inr x, w') \<Longrightarrow> P x) \<Longrightarrow> pays K base A (outside h m) A P"
  unfolding pays_def outside_def
proof (rule pay.follows_atomic)
  fix s :: "('l, 'b, 'h, 'w) pay_state" assume m: "\<And>w x w'. m w = (Inr x, w') \<Longrightarrow> P x" and inv: "charged_home K base s" "knows_charged K base A s"
  obtain r w where r: "m (world_of s) = (r, w)" by (cases "m (world_of s)")
  have "same_files s (put_world w s)" "gates_ok base (put_world w s)"
    using inv(1) by (auto simp: same_files_def put_world_def charged_home_def gates_ok_def)
  then have "pay.move K base A A s (put_world w s)"
    using inv charged_same by (auto simp: pay.move_def same_files_home(3) [of s "put_world w s"])
  then show "\<exists>t'. pay.move K base A t' s (snd (case m (world_of s) of (r, w) \<Rightarrow> (map_err h r, put_world w s))) \<and>
      (\<forall>x. fst (case m (world_of s) of (r, w) \<Rightarrow> (map_err h r, put_world w s)) = Inr x \<longrightarrow> t' = A \<and> P x)"
    using r m by (auto simp: map_err_def split: sum.splits)
qed

lemma plan_quotes_attempt: "plan_quotes q n a sats w = (Inr j, w') \<Longrightarrow> hj_attempt_id j = a"
  by (auto simp: plan_quotes_def st_bind_def st_lift_def raise_melt_quote_def require_source_covers_def Let_def
      elim!: try_bind_InrE split: if_splits prod.splits sum.splits)

lemma pays_hop_stage:
  "pays K base A (hop_stage K ops k a sats) A (\<lambda>hop. \<forall>e j. hop = Some (e, j) \<longrightarrow> hj_attempt_id j = a)"
proof -
  have quotes: "pays K base A (case existing of Some pairing \<Rightarrow> Done (Inr pairing)
       | None \<Rightarrow> outside PayHop (plan_quotes q n a sats)) A (\<lambda>j. hj_attempt_id j = a)"
    if "\<forall>j. existing = Some j \<longrightarrow> hj_attempt_id j = a" for existing q n
    using that by (cases existing) (auto intro!: pays_done pays_outside_result dest: plan_quotes_attempt)
  show ?thesis
    unfolding hop_stage_def
    by (intro pays_option pays_then [OF pays_hop [OF alone_open]] pays_pair
        pays_try [OF pays_hop [OF alone_journalled]] pays_try [OF quotes] pays_done) auto
qed

lemma pays_attempt_pay:
  assumes "hop_codec_ok (pc_hop K)" and "a \<in> A" and "\<And>e j. hop = Some (e, j) \<Longrightarrow> hj_attempt_id j = a"
  shows "pays K base A (attempt_pay K E k a hop) A (\<lambda>_. True)"
  unfolding attempt_pay_def
  using assms by (cases hop) (auto intro!: pays_steps pays_hop alone_run_hop)

lemma pays_credit:
  assumes "codec_ok (pc_enc K) (pc_dec K)"
  shows "pays K base A (pbind (gate_credit K p i sats) (\<lambda>_. Done (Inr ()))) A (\<lambda>_. True)"
  unfolding pays_def by (rule pay.follows_bind [OF follows_credit [OF assms]]) simp

lemma pays_checked:
  assumes "codec_ok (pc_enc K) (pc_dec K)" and "hop_codec_ok (pc_hop K)"
  shows "pays K base A (pay_checked K ops p r k) (insert (Payment.attempt_id (pc_crypto K) (ck_key k)) A) (\<lambda>_. True)"
  unfolding pay_checked_def Let_def
  by (rule pays_try [OF pays_hop_stage], (rule pays_then [OF pays_outside])+, rule pays_try [OF pays_reserve [OF assms(1)]],
      rule pays_then [OF pays_attempt_pay [OF assms(2)]]; (intro pays_steps pays_credit assms)?) auto

definition safe :: "('l, 'b, 'h) pay_codecs \<Rightarrow> FoldedSpent option \<Rightarrow> string set \<Rightarrow> (('l, 'b, 'h, 'w) pay_state, 'a) proc \<Rightarrow> bool" where
  "safe K base A p \<longleftrightarrow> pay.follows K base p A (\<lambda>_ _. True)"

lemma safe_try: "pays K base A p B P \<Longrightarrow> (\<And>x. P x \<Longrightarrow> safe K base B (k x)) \<Longrightarrow> safe K base A (pay_try p k)"
  unfolding pays_def safe_def pay_try_def
  by (erule pay.follows_bind) (auto split: sum.splits)

lemma safe_then: "pays K base A p A (\<lambda>_. True) \<Longrightarrow> (\<And>x. safe K base A (k x)) \<Longrightarrow> safe K base A (pay_try p k)"
  by (rule safe_try)

lemma safe_pays: "pays K base A p B P \<Longrightarrow> safe K base A p"
  unfolding pays_def safe_def by (rule pay.follows_weaken) auto

lemma safe_authorize:
  "codec_ok (pc_enc K) (pc_dec K) \<Longrightarrow> hop_codec_ok (pc_hop K) \<Longrightarrow> safe K base A (authorize_pay K ops p r)"
  unfolding authorize_pay_def by (rule safe_then [OF pays_check]) (rule safe_pays [OF pays_checked])

lemma safe_complete:
  assumes "codec_ok (pc_enc K) (pc_dec K)"
  shows "safe K base A (complete_recovered_locked_async K ops p r)"
proof -
  have rest: "safe K base A (pay_try (gate_reserve K p a sats) (\<lambda>_. pay_try (on_attempt a m) (\<lambda>x. pay_try (gate_spent p) (\<lambda>y. Done (Inr (f x y))))))" for a sats m f
    by (rule safe_try [OF pays_reserve [OF assms]], rule safe_pays [of K base "insert a A" _ "insert a A" "\<lambda>_. True"])
       (auto intro!: pays_steps)
  show ?thesis
    unfolding complete_recovered_locked_async_def Let_def
    by (auto intro!: safe_pays [OF pays_fail] safe_then [OF pays_lift] safe_then [OF pays_buyer_key] safe_then [OF pays_outside] rest)
qed

text \<open>The recovery sweep: a journal with records is one of a charged attempt.\<close>

lemma hop_proc_bind: "hop_proc (pbind p k) = pbind (hop_proc p) (\<lambda>x. hop_proc (k x))"
  by (induction p) auto

lemma hop_proc_try: "hop_proc (hop_try p k) = pbind (hop_proc p) (\<lambda>r. case r of Inl e \<Rightarrow> Done (Inl e) | Inr x \<Rightarrow> hop_proc (k x))"
  by (simp add: hop_try_def hop_proc_bind cong: sum.case_cong) (rule arg_cong [of _ _ "pbind _"], auto simp: fun_eq_iff split: sum.split)

lemma follows_sweep_read:
  fixes K :: "('l, 'b, 'h) pay_codecs"
  shows "pay.follows K base (hop_proc (journal_read (pc_hop K) a) :: (('l, 'b, 'h, 'w) pay_state, HopError + HopRecord list) proc) A
     (\<lambda>r B. A \<subseteq> B \<and> (\<forall>rs. r = Inr rs \<longrightarrow> (\<forall>x \<in> set rs. record_attempt_id x = a) \<and> (rs \<noteq> [] \<longrightarrow> a \<in> B)))"
proof -
  have "\<exists>B. pay.move K base A B s (s\<lparr>hop_home := t\<rparr>) \<and>
      (A \<subseteq> B \<and> (\<forall>rs. r = Inr rs \<longrightarrow> (\<forall>x \<in> set rs. record_attempt_id x = a) \<and> (rs \<noteq> [] \<longrightarrow> a \<in> B)))"
    if s: "charged_home K base s" "knows_charged K base A s" and r: "hop_replay (pc_hop K) a (hop_home s) = (r, t)"
    for s :: "('l, 'b, 'h, 'w) pay_state" and r t
  proof -
    have fr: "hop_files t = hop_files (hop_home s)" "hop_log t = hop_log (hop_home s)" using replay_frame [OF r] by auto
    have own: "own_records (pc_hop K) t" using s own_frame fr by (auto simp: charged_home_def)
    let ?B = "A \<union> {b. b = a \<and> touched a s}"
    have mv: "pay.move K base A A s (s\<lparr>hop_home := t\<rparr>)"
      using hop_step_charged [OF s own] only_for_frame fr by blast
    then have "pay.move K base A ?B s (s\<lparr>hop_home := t\<rparr>)"
      using s by (auto simp: pay.move_def knows_charged_def charged_home_def)
    moreover have "touched a s" "\<forall>x \<in> set rs. record_attempt_id x = a" if "r = Inr rs" "rs \<noteq> []" for rs
      using r that own fr
      by (auto simp: touched_def own_records_def reads_def decode_records_def file_of_def dest!: replay_reads split: if_splits)
    ultimately show ?thesis by (intro exI [of _ ?B]) fastforce
  qed
  then show ?thesis
    by (simp add: journal_read_def atomic_def)
qed

lemma alone_recover: "alone c A (recover_mint w url) (\<lambda>_. True)"
  unfolding recover_mint_def by (auto intro!: alone_steps split: option.split)

lemma alone_sweep_one: "hop_codec_ok c \<Longrightarrow> hj_attempt_id j \<in> A \<Longrightarrow> alone c A (sweep_one c e w j) (\<lambda>_. True)"
  unfolding sweep_one_def
  by (intro alone_then [OF alone_open] alone_pair alone_then [OF alone_recover]) (auto intro!: alone_fail alone_run_hop split: sum.split)

lemma safe_sweep_ids: "hop_codec_ok (pc_hop K) \<Longrightarrow> safe K base A (hop_proc (sweep_ids (pc_hop K) e w as swept))"
proof (induction as arbitrary: A swept)
  case Nil
  then show ?case by (simp add: safe_def)
next
  case (Cons a as)
  have one: "safe K base B (hop_proc (pbind (sweep_one (pc_hop K) e w j) (\<lambda>result. sweep_ids (pc_hop K) e w as (swept @ [(a, result)]))))"
    if "hj_attempt_id j \<in> B" for B j
    using pay.follows_bind [OF follows_alone [OF alone_sweep_one [OF Cons.prems that]]] Cons
    unfolding hop_proc_bind safe_def by fastforce
  have "safe K base B (hop_proc (if settled_of rs \<noteq> None then sweep_ids (pc_hop K) e w as swept
       else case planned_of rs of None \<Rightarrow> sweep_ids (pc_hop K) e w as swept
       | Some pairing \<Rightarrow> pbind (sweep_one (pc_hop K) e w pairing) (\<lambda>result. sweep_ids (pc_hop K) e w as (swept @ [(a, result)]))))"
    if "\<forall>x \<in> set rs. record_attempt_id x = a" "rs \<noteq> [] \<longrightarrow> a \<in> B" for rs B
    using that Cons one by (auto split: option.split dest!: planned_of_mem)
  then show ?case
    unfolding sweep_ids.simps hop_proc_try safe_def
    by (intro pay.follows_bind [OF follows_sweep_read]) (auto split: sum.split)
qed

lemma safe_sweep:
  assumes "hop_codec_ok (pc_hop K)"
  shows "safe K base A (hop_proc (sweep_hops (pc_hop K) e w))"
  using pay.move_refl [of K base] safe_sweep_ids [OF assms] unfolding safe_def
  by (fastforce simp: sweep_hops_def hop_proc_bind atomic_def)

section \<open>Nothing is spent uncharged\<close>

datatype pay_result =
    Paid "AuthorizePayError + AuthorizePayOutcome"
  | Completed "AuthorizePayError + CompleteLockedOutcome"
  | Swept "HopError + SweptHop list"

text \<open>The programs a process of the buyer runs on its home, under any of the given configurations.\<close>

inductive pay_program ::
  "('l, 'b, 'h) pay_codecs \<Rightarrow> ('u, 'p, 'w) pay_ops set \<Rightarrow> (('l, 'b, 'h, 'w) pay_state, pay_result) proc \<Rightarrow> bool"
  for K U
where
  pay_run: "ops \<in> U \<Longrightarrow> pay_program K U (pbind (authorize_pay K ops p r) (\<lambda>x. Done (Paid x)))"
| complete_run: "ops \<in> U \<Longrightarrow> pay_program K U (pbind (complete_recovered_locked_async K ops p c) (\<lambda>x. Done (Completed x)))"
| sweep_run: "ops \<in> U \<Longrightarrow> pay_program K U (pbind (hop_proc (sweep_hops (pc_hop K) e (po_hop_wallets ops))) (\<lambda>x. Done (Swept x)))"

lemma safe_return: "safe K base A p \<Longrightarrow> pay.follows K base (pbind p (\<lambda>x. Done (f x))) A (\<lambda>_ _. True)"
  unfolding safe_def by (erule pay.follows_bind) simp

lemma pay_program_safe:
  assumes "codec_ok (pc_enc K) (pc_dec K)" and "hop_codec_ok (pc_hop K)" and "pay_program K U p"
  shows "pay.follows K base p {} (\<lambda>_ _. True)"
  using assms(3)
  by cases (simp_all add: safe_return safe_authorize safe_complete safe_sweep assms(1,2))

definition new_home :: "FoldedSpent option \<Rightarrow> ('l, 'b, 'h, 'w) pay_state \<Rightarrow> bool" where
  "new_home base s \<longleftrightarrow> gates_ok base s \<and> hop_files (hop_home s) = [] \<and> (\<forall>a. hop_log (hop_home s) a = []) \<and>
     (\<forall>a. committed (pay_journals s a) = [] \<and> trailing (pay_journals s a) = [])"

lemma charged_reach:
  fixes s0 s :: "('l, 'b, 'h, 'w) pay_state"
  assumes "codec_ok (pc_enc K) (pc_dec K)" and "hop_codec_ok (pc_hop K)" and "new_home base s0"
    and "reach (pay_program K U) (pay_env base) s0 ps s"
  shows "charged_home K base s"
proof -
  have "charged_home K base s0"
    using assms(3) by (auto simp: charged_home_def new_home_def touched_def own_records_def file_of_def decode_records_def)
  then show ?thesis using pay.reach_inv [OF pay_program_safe [OF assms(1,2), of U] _ assms(4)] by blast
qed

end
