(* ===== verification/Payment_Safety.thy ===== *)
theory Payment_Safety
  imports Payment "HOL-Library.Sublist"
begin

text \<open>
  The correctness of the payment service. \<open>payment_journal\<close> is the contract a journal
  promises its client: a guard replays what is durable for its key, a successful append is
  durable, and a failed append leaves the old records, the old records with the new one, or a
  journal that refuses to replay. The service's lemmas are proved once from this contract, which
  the file journal (for any codec that decodes what it encodes, and any fault schedule) and
  the memory journal discharge.
\<close>

section \<open>The journal contract\<close>

locale payment_journal =
  fixes J :: "'j journal_ops"
    and content :: "'j \<Rightarrow> PaymentKey \<Rightarrow> JournalError + PaymentRecord list"
    and held :: "'j \<Rightarrow> PaymentKey \<Rightarrow> bool"
    and valid :: "'j \<Rightarrow> bool"
  assumes lock_held: "valid j \<Longrightarrow> jlock J j key = Inr j' \<Longrightarrow> held j' key \<and> content j' = content j"
    and held_valid: "held j key \<Longrightarrow> valid j"
    and held_replay: "held j key \<Longrightarrow> jreplay J j = content j key"
    and append_held: "held j key \<Longrightarrow> jappend_sync J j r = (res, j') \<Longrightarrow> held j' key"
    and append_ok: "held j key \<Longrightarrow> content j key = Inr rs \<Longrightarrow> jappend_sync J j r = (Inr (), j') \<Longrightarrow>
      content j' key = Inr (rs @ [r])"
    and append_err: "held j key \<Longrightarrow> content j key = Inr rs \<Longrightarrow> jappend_sync J j r = (Inl e, j') \<Longrightarrow>
      content j' key = Inr rs \<or> content j' key = Inr (rs @ [r]) \<or> (\<exists>e'. content j' key = Inl e')"

text \<open>The states in which a send may already have happened.\<close>

fun past_lock :: "PaymentState option \<Rightarrow> bool" where
  "past_lock None = False"
| "past_lock (Some (Intent _)) = False"
| "past_lock _ = True"

lemma fold_records_snoc:
  assumes "fold_records key rs = Inr st" and "legal st next"
  shows "fold_records key (rs @ [\<lparr>rec_key = key, rec_value = next\<rparr>]) = Inr (Some next)"
  using assms by (simp add: fold_records_def fold_step_def decide_def)

text \<open>A world that counts the calls of \<open>send_payment\<close>.\<close>

definition counting :: "'w PaymentEffects \<Rightarrow> ('w \<times> nat) PaymentEffects" where
  "counting E =
     \<lparr>lock_or_reconcile = (\<lambda>a t (w, n). case lock_or_reconcile E a t w of (r, w') \<Rightarrow> (r, w', n)),
      verify_payment = (\<lambda>a t l (w, n). case verify_payment E a t l w of (r, w') \<Rightarrow> (r, w', n)),
      send_payment = (\<lambda>k a t l v (w, n). case send_payment E k a t l v w of (r, w') \<Rightarrow> (r, w', Suc n)),
      publish_receipt = (\<lambda>k p (w, n). case publish_receipt E k p w of (r, w') \<Rightarrow> (r, w', n)),
      assert_locked_token_unspent =
        (\<lambda>a t (w, n). case assert_locked_token_unspent E a t w of (r, w') \<Rightarrow> (r, w', n))\<rparr>"

definition sends :: "'j \<times> 'w \<times> nat \<Rightarrow> nat" where
  "sends s = snd (snd s)"

lemma on_world_journal: "on_world h m s = (r, t) \<Longrightarrow> fst t = fst s"
  by (auto simp: on_world_def split: prod.splits)

lemma on_world_counting:
  "on_world h (lock_or_reconcile (counting E) a t0) s = (r1, t) \<Longrightarrow> sends t = sends s"
  "on_world h (verify_payment (counting E) a t0 l) s = (r2, t) \<Longrightarrow> sends t = sends s"
  "on_world h (publish_receipt (counting E) k p) s = (r3, t) \<Longrightarrow> sends t = sends s"
  "on_world h4 (assert_locked_token_unspent (counting E) a t0) s = (r4, t) \<Longrightarrow> sends t = sends s"
  "on_world h (send_payment (counting E) k a t0 l v) s = (r5, t) \<Longrightarrow> sends t = Suc (sends s)"
  by (auto simp: on_world_def counting_def sends_def split: prod.splits)

lemma on_journal_world: "on_journal m s = (r, t) \<Longrightarrow> snd t = snd s"
  by (auto simp: on_journal_def split: prod.splits)

lemma append_transition_world: "append_transition J key cur next s = (r, t) \<Longrightarrow> snd t = snd s"
  by (auto simp: append_transition_def st_lift_def dest: on_journal_world elim!: st_bind_cases)

text \<open>
  A run of the service on one payment: the automatic path, or the recovery an operator asks for.
  A sequence of runs, each with its own wallet, relays, terms and authority, and with a change of
  the environment before it.
\<close>

record 'w payment_run =
  by_operator :: bool
  run_effects :: "'w PaymentEffects"
  run_terms :: PaymentTerms
  run_authority :: ReceiptAuthority

definition run_payment ::
  "crypto \<Rightarrow> 'j journal_ops \<Rightarrow> PaymentKey \<Rightarrow> 'w payment_run \<Rightarrow> 'j \<times> 'w \<times> nat \<Rightarrow>
   (PaymentError + PaymentState) \<times> 'j \<times> 'w \<times> nat"
where
  "run_payment c J key r =
     (if by_operator r
      then complete_recovered_locked c J (counting (run_effects r)) key (run_terms r) (run_authority r)
      else advance c J (counting (run_effects r)) key (run_terms r) (run_authority r))"

fun run_payments ::
  "crypto \<Rightarrow> 'j journal_ops \<Rightarrow> PaymentKey \<Rightarrow> (('j \<Rightarrow> 'j) \<times> 'w payment_run) list \<Rightarrow> 'j \<times> 'w \<times> nat \<Rightarrow> 'j \<times> 'w \<times> nat"
where
  "run_payments c J key [] s = s"
| "run_payments c J key ((env, r) # rs) s =
     run_payments c J key rs (snd (run_payment c J key r (apfst env s)))"

context payment_journal
begin

definition tracks :: "'j \<Rightarrow> PaymentKey \<Rightarrow> PaymentState option \<Rightarrow> bool" where
  "tracks j key st \<longleftrightarrow> held j key \<and> (\<exists>rs. content j key = Inr rs \<and> fold_records key rs = Inr st)"

definition settled :: "'j \<Rightarrow> PaymentKey \<Rightarrow> bool" where
  "settled j key \<longleftrightarrow>
     (\<forall>rs st. content j key = Inr rs \<longrightarrow> fold_records key rs = Inr st \<longrightarrow> past_lock st)"

lemma tracks_valid: "tracks j key st \<Longrightarrow> valid j"
  by (auto simp: tracks_def dest: held_valid)

lemma tracks_settled: "tracks j key st \<Longrightarrow> settled j key \<longleftrightarrow> past_lock st"
  by (auto simp: tracks_def settled_def)

lemma append_transition_ok:
  assumes "append_transition J key cur next (j, w) = (Inr (), j', w')" and "tracks j key cur"
  shows "tracks j' key (Some next)" and "legal cur next"
proof -
  have legal: "legal cur next" and app: "jappend_sync J j \<lparr>rec_key = key, rec_value = next\<rparr> = (Inr (), j')"
    using assms(1)
    by (auto simp: append_transition_def on_journal_def decide_def split: if_splits prod.splits)
  from assms(2) obtain rs where rs: "held j key" "content j key = Inr rs" "fold_records key rs = Inr cur"
    by (auto simp: tracks_def)
  show "tracks j' key (Some next)"
    using rs append_held [OF rs(1) app] append_ok [OF rs(1,2) app] fold_records_snoc [OF rs(3) legal]
    by (auto simp: tracks_def)
  show "legal cur next" by (rule legal)
qed

lemma append_transition_err:
  assumes "append_transition J key cur next (j, w) = (Inl e, j', w')" and "tracks j key cur"
  shows "held j' key" and "past_lock cur \<Longrightarrow> settled j' key"
proof -
  from assms(2) obtain rs where rs: "held j key" "content j key = Inr rs" "fold_records key rs = Inr cur"
    by (auto simp: tracks_def)
  consider (illegal) "j' = j"
    | (app) e' where "legal cur next" "jappend_sync J j \<lparr>rec_key = key, rec_value = next\<rparr> = (Inl e', j')"
    using assms(1)
    by (cases "legal cur next")
       (auto simp: append_transition_def on_journal_def decide_def map_err_def split: if_splits prod.splits sum.splits)
  then have "held j' key \<and> (past_lock cur \<longrightarrow> settled j' key)"
  proof cases
    case illegal
    then show ?thesis using rs by (auto simp: settled_def)
  next
    case app
    have "past_lock cur \<Longrightarrow> past_lock (Some next)" using app(1) by (cases "(cur, next)" rule: legal.cases) auto
    then show ?thesis
      using append_held [OF rs(1) app(2)] append_err [OF rs(1,2) app(2)] rs(3)
        fold_records_snoc [OF rs(3) app(1)]
      by (auto simp: settled_def)
  qed
  then show "held j' key" and "past_lock cur \<Longrightarrow> settled j' key" by auto
qed

text \<open>
  The journal folds to \<open>st\<close> and \<open>n\<close> sends were made; and what is left after an early
  return: between \<open>lo\<close> and \<open>hi\<close> sends, and a settled journal where \<open>past\<close> says so.
\<close>

definition at_state :: "PaymentKey \<Rightarrow> PaymentState option \<Rightarrow> nat \<Rightarrow> 'j \<times> 'w \<times> nat \<Rightarrow> bool" where
  "at_state key st n s \<longleftrightarrow> tracks (fst s) key st \<and> sends s = n"

definition stopped :: "PaymentKey \<Rightarrow> bool \<Rightarrow> nat \<Rightarrow> nat \<Rightarrow> 'j \<times> 'w \<times> nat \<Rightarrow> bool" where
  "stopped key past lo hi s \<longleftrightarrow> valid (fst s) \<and> (past \<longrightarrow> settled (fst s) key) \<and> lo \<le> sends s \<and> sends s \<le> hi"

lemma at_state_stopped:
  "at_state key st n s \<Longrightarrow> (past \<longrightarrow> past_lock st) \<Longrightarrow> lo \<le> n \<Longrightarrow> n \<le> hi \<Longrightarrow> stopped key past lo hi s"
  by (auto simp: at_state_def stopped_def tracks_settled dest: tracks_valid)

lemma stopped_mono:
  "stopped key past lo hi s \<Longrightarrow> (past' \<longrightarrow> past) \<Longrightarrow> lo' \<le> lo \<Longrightarrow> hi \<le> hi' \<Longrightarrow> stopped key past' lo' hi' s"
  by (auto simp: stopped_def)

lemma lift_triple:
  assumes "past \<longrightarrow> past_lock st" "lo \<le> n" "n \<le> hi"
  shows "triple (at_state key st n) (st_lift r) (\<lambda>x s. r = Inr x \<and> at_state key st n s) (\<lambda>_. stopped key past lo hi)"
  using assms by (intro triple_lift conjI at_state_stopped) assumption+

lemma append_triple:
  assumes "past \<longrightarrow> past_lock cur" "lo \<le> n" "n \<le> hi"
  shows "triple (at_state key cur n) (append_transition J key cur next)
     (\<lambda>_. at_state key (Some next) n) (\<lambda>_. stopped key past lo hi)"
  unfolding triple_def
proof (intro allI impI)
  fix s :: "'j \<times> 'w \<times> nat" and r t
  assume s: "at_state key cur n s" and m: "append_transition J key cur next s = (r, t)"
  obtain j w j' w' where st: "s = (j, w)" "t = (j', w')" by (cases s; cases t) auto
  have w: "sends t = n" using append_transition_world [OF m] s by (simp add: at_state_def sends_def)
  show "case r of Inl e \<Rightarrow> stopped key past lo hi t | Inr _ \<Rightarrow> at_state key (Some next) n t"
  proof (cases r)
    case (Inl e)
    then show ?thesis using append_transition_err [of key cur "next" j w e j' w'] m s w st assms
      by (auto simp: at_state_def stopped_def intro: held_valid)
  next
    case (Inr u)
    then show ?thesis using append_transition_ok(1) [of key cur "next" j w j' w'] m s w st
      by (auto simp: at_state_def)
  qed
qed

lemma world_triple:
  assumes m: "\<And>(s :: 'j \<times> 'w \<times> nat) r t. on_world h m s = (r, t) \<Longrightarrow> sends t = sends s + k"
    and "past \<longrightarrow> past_lock st" "lo \<le> n + k" "n + k \<le> hi"
  shows "triple (at_state key st n) (on_world h m) (\<lambda>_. at_state key st (n + k)) (\<lambda>_. stopped key past lo hi)"
  unfolding triple_def
proof (intro allI impI)
  fix s :: "'j \<times> 'w \<times> nat" and r t
  assume s: "at_state key st n s" and w: "on_world h m s = (r, t)"
  have "at_state key st (n + k) t"
    using s on_world_journal [OF w] m [OF w] by (simp add: at_state_def)
  then show "case r of Inl e \<Rightarrow> stopped key past lo hi t | Inr _ \<Rightarrow> at_state key st (n + k) t"
    using assms(2-) by (auto split: sum.splits intro: at_state_stopped)
qed

text \<open>The same as rules for a sequence of steps, which apply from the front.\<close>

lemma then_lift:
  assumes "\<And>x. r = Inr x \<Longrightarrow> triple (at_state key st n) (f x) Q (\<lambda>_. stopped key past lo hi)"
    and "past \<longrightarrow> past_lock st" "lo \<le> n" "n \<le> hi"
  shows "triple (at_state key st n) (st_bind (st_lift r) f) Q (\<lambda>_. stopped key past lo hi)"
  by (rule triple_bind [OF lift_triple [OF assms(2-)]], rule triple_pure [where A = "r = Inr _"])
     (auto intro: triple_weaken [OF assms(1)])

lemma then_append:
  assumes "\<And>x. triple (at_state key (Some next) n) (f x) Q (\<lambda>_. stopped key past lo hi)"
    and "past \<longrightarrow> past_lock cur" "lo \<le> n" "n \<le> hi"
  shows "triple (at_state key cur n) (st_bind (append_transition J key cur next) f) Q (\<lambda>_. stopped key past lo hi)"
  by (rule triple_bind [OF append_triple [OF assms(2-)]]) (rule assms(1))

lemma then_world:
  assumes "\<And>x. triple (at_state key st (n + k)) (f x) Q (\<lambda>_. stopped key past lo hi)"
    and "\<And>(s :: 'j \<times> 'w \<times> nat) r t. on_world h m s = (r, t) \<Longrightarrow> sends t = sends s + k"
    and "past \<longrightarrow> past_lock st" "lo \<le> n + k" "n + k \<le> hi"
  shows "triple (at_state key st n) (st_bind (on_world h m) f) Q (\<lambda>_. stopped key past lo hi)"
proof (rule triple_bind)
  show "triple (at_state key st n) (on_world h m) (\<lambda>_. at_state key st (n + k)) (\<lambda>_. stopped key past lo hi)"
    using assms(2-) by (rule world_triple)
qed (rule assms(1))

lemmas then_quiet = then_world [where k = 0, simplified]
lemmas then_count = then_world [where k = 1, simplified]

lemma lock_leg_triple:
  "triple (at_state key (Some (Intent a)) n) (lock_leg J (counting E) key terms (Some (Intent a)))
     (\<lambda>(st, lk) s. st = Some (Locked a) \<and> lk \<noteq> None \<and> at_state key st n s)
     (\<lambda>_. stopped key False n n)"
  unfolding lock_leg_def option.case PaymentState.case
  by (intro then_quiet then_lift then_append triple_lift) (auto dest: on_world_counting)

lemma lock_leg_skip: "past_lock st \<Longrightarrow> lock_leg J E key terms st s = (Inr (st, None), s)"
  by (cases st rule: past_lock.cases) (auto simp: lock_leg_def st_lift_def)

lemma send_leg_triple:
  "triple (at_state key (Some (Locked a)) n) (send_leg J (counting E) key terms (Some (Locked a)) lk)
     (\<lambda>st s. \<exists>p. st = Some (Sent a p) \<and> relay_success p \<noteq> [] \<and> at_state key st (Suc n) s)
     (\<lambda>_. stopped key True n (Suc n))"
  unfolding send_leg_def option.case PaymentState.case
  by (intro then_quiet [OF _ on_world_counting(2)] then_count [OF _ on_world_counting(5) [folded One_nat_def]]
        then_lift then_append triple_if triple_lift at_state_stopped) auto

lemma send_leg_skip: "\<not> is_locked st \<Longrightarrow> send_leg J E key terms st lk = st_lift (Inr st)"
  by (cases st rule: is_locked.cases) (auto simp: send_leg_def)

lemma past_lock_cases:
  assumes "past_lock st"
  obtains (locked) a where "st = Some (Locked a)" | (sent) a p where "st = Some (Sent a p)"
  | (published) a x where "st = Some (ReceiptPublished a x)" | (closed) a x where "st = Some (Closed a x)"
  using assms by (cases st; cases "the st") auto

lemma receipt_leg_triple:
  assumes "past_lock st" and "\<not> is_locked st"
  shows "triple (at_state key st n) (receipt_leg c J (counting E) key auth st)
     (\<lambda>st' s. (\<exists>a x. st' = Some (ReceiptPublished a x) \<or> st' = Some (Closed a x)) \<and> at_state key st' n s)
     (\<lambda>_. stopped key True n n)"
  using assms(1)
proof (cases rule: past_lock_cases)
  case (sent a p)
  show ?thesis unfolding sent receipt_leg_def option.case PaymentState.case
    by (intro then_quiet [OF _ on_world_counting(3)] then_lift then_append triple_lift at_state_stopped) auto
qed (use assms in \<open>auto simp: receipt_leg_def intro: triple_lift\<close>)

lemma close_leg_triple:
  "triple (at_state key (Some (ReceiptPublished a x)) n) (close_leg J key (Some (ReceiptPublished a x)))
     (\<lambda>st' s. st' = Some (Closed a x) \<and> at_state key st' n s) (\<lambda>_. stopped key True n n)"
  unfolding close_leg_def option.case PaymentState.case
  by (intro then_append triple_if triple_lift at_state_stopped) auto

lemma close_leg_skip: "close_leg J key (Some (Closed a x)) = st_lift (Inr (Some (Closed a x)))"
  by (simp add: close_leg_def)

text \<open>The outcome of a whole run that made between \<open>lo\<close> and \<open>hi\<close> sends.\<close>

definition finished :: "PaymentKey \<Rightarrow> nat \<Rightarrow> nat \<Rightarrow> PaymentState \<Rightarrow> 'j \<times> 'w \<times> nat \<Rightarrow> bool" where
  "finished key lo hi st s \<longleftrightarrow>
     (\<exists>a x. st = Closed a x) \<and> tracks (fst s) key (Some st) \<and> lo \<le> sends s \<and> sends s \<le> hi"

lemma finish_triple:
  assumes "st = Some (ReceiptPublished a x) \<or> st = Some (Closed a x)" and "lo \<le> k" and "k \<le> hi"
  shows "triple (at_state key st k)
     (st_bind (close_leg J key st) (\<lambda>st. st_lift (ok_or (Refused ''payment state is absent'') st)))
     (finished key lo hi) (\<lambda>_. stopped key True lo hi)"
  using assms(1)
proof
  assume st: "st = Some (ReceiptPublished a x)"
  show ?thesis unfolding st
    by (rule triple_bind, rule triple_weaken, rule close_leg_triple, assumption, assumption)
       (use assms(2,3) in \<open>auto intro!: triple_lift elim: stopped_mono simp: finished_def at_state_def\<close>)
next
  assume st: "st = Some (Closed a x)"
  show ?thesis unfolding st close_leg_skip
    using assms(2,3) by (intro then_lift triple_lift) (auto simp: finished_def at_state_def)
qed

lemma settle_triple:
  assumes "past_lock st" "\<not> is_locked st" "lo \<le> k" "k \<le> hi"
  shows "triple (at_state key st k)
     (st_bind (receipt_leg c J (counting E) key auth st) (\<lambda>st. st_bind (close_leg J key st)
        (\<lambda>st. st_lift (ok_or (Refused ''payment state is absent'') st))))
     (finished key lo hi) (\<lambda>_. stopped key True lo hi)"
proof (rule triple_bind)
  let ?Q = "\<lambda>st' s. (\<exists>a x. st' = Some (ReceiptPublished a x) \<or> st' = Some (Closed a x)) \<and> at_state key st' k s"
  show "triple (at_state key st k) (receipt_leg c J (counting E) key auth st) ?Q (\<lambda>_. stopped key True lo hi)"
    by (rule triple_weaken [OF receipt_leg_triple [OF assms(1,2)]]) (use assms(3,4) in \<open>auto elim: stopped_mono\<close>)
  show "triple (?Q st') (st_bind (close_leg J key st') (\<lambda>st. st_lift (ok_or (Refused ''payment state is absent'') st)))
      (finished key lo hi) (\<lambda>_. stopped key True lo hi)" for st'
  proof (rule triple_pre)
    show "?Q st' s \<Longrightarrow> (\<exists>a x. st' = Some (ReceiptPublished a x) \<or> st' = Some (Closed a x)) \<and> at_state key st' k s" for s
      by simp
  qed (use finish_triple assms(3,4) in blast)
qed

lemma drive_triple:
  assumes "past_lock st" and "hi = n + (if is_locked st then 1 else 0)"
  shows "triple (at_state key st n) (drive_settlement_legs c J (counting E) key terms auth st lk)
     (finished key n hi) (\<lambda>_. stopped key True n hi)"
proof (cases "is_locked st")
  case False
  show ?thesis unfolding drive_settlement_legs_def send_leg_skip [OF False]
  proof (rule then_lift)
    show "triple (at_state key st n) (st_bind (receipt_leg c J (counting E) key auth x) (\<lambda>st. st_bind (close_leg J key st)
        (\<lambda>st. st_lift (ok_or (Refused ''payment state is absent'') st)))) (finished key n hi)
        (\<lambda>_. stopped key True n hi)" if "Inr st = Inr x" for x
      using that assms(2) False settle_triple [OF assms(1) False, of n n hi key c E auth] by auto
  qed (use assms False in auto)
next
  case True
  then obtain a where st: "st = Some (Locked a)" by (cases st rule: is_locked.cases) auto
  let ?Q = "\<lambda>st' s. \<exists>p. st' = Some (Sent a p) \<and> relay_success p \<noteq> [] \<and> at_state key st' (Suc n) s"
  show ?thesis unfolding drive_settlement_legs_def st
  proof (rule triple_bind)
    show "triple (at_state key (Some (Locked a)) n) (send_leg J (counting E) key terms (Some (Locked a)) lk)
       ?Q (\<lambda>_. stopped key True n hi)"
      using send_leg_triple assms(2) st by simp
    show "triple (?Q st') (st_bind (receipt_leg c J (counting E) key auth st') (\<lambda>st. st_bind (close_leg J key st)
        (\<lambda>st. st_lift (ok_or (Refused ''payment state is absent'') st)))) (finished key n hi)
        (\<lambda>_. stopped key True n hi)" for st'
    proof (rule triple_pre)
      show "?Q st' s \<Longrightarrow> (\<exists>p. st' = Some (Sent a p)) \<and> at_state key st' (Suc n) s" for s by auto
    qed (use assms(2) st in \<open>auto intro!: settle_triple\<close>)
  qed
qed

lemma open_journal_ok:
  assumes "open_journal J key terms (j, w) = (Inr st, j', w')" and "valid j"
  shows "tracks j' key st" and "content j' = content j" and "w' = w"
proof -
  obtain records where l: "jlock J j key = Inr j'" and r: "jreplay J j' = Inr records"
    and f: "fold_records key records = Inr st" and w: "w' = w"
    using assms(1)
    by (auto simp: open_journal_def on_journal_def map_err_def elim!: st_bind_cases split: sum.splits)
  note h = lock_held [OF assms(2) l]
  then have "content j' key = Inr records" using held_replay [of j' key] r by simp
  with h f show "tracks j' key st" by (auto simp: tracks_def)
  show "content j' = content j" "w' = w" using h w by auto
qed

lemma open_journal_err:
  assumes "open_journal J key terms (j, w) = (Inl e, j', w')" and "valid j"
  shows "valid j'" and "content j' = content j" and "w' = w"
proof -
  have "(j' = j \<or> jlock J j key = Inr j') \<and> w' = w"
    using assms(1)
    by (auto simp: open_journal_def on_journal_def map_err_def elim!: st_bind_cases split: sum.splits)
  then show "valid j'" and "content j' = content j" and "w' = w"
    using lock_held [OF assms(2)] held_valid assms(2) by fastforce+
qed

lemma intent_leg_triple:
  "triple (at_state key None n) (intent_leg c J key None)
     (\<lambda>st s. st = Some (Intent (attempt_id c key)) \<and> at_state key st n s) (\<lambda>_. stopped key False n n)"
  unfolding intent_leg_def option.case
  by (intro then_append triple_lift) auto

text \<open>One run of the automatic path from a journal that folds to \<open>st\<close>.\<close>

definition after_open ::
  "crypto \<Rightarrow> 'w PaymentEffects \<Rightarrow> PaymentKey \<Rightarrow> PaymentTerms \<Rightarrow> ReceiptAuthority \<Rightarrow> PaymentState option \<Rightarrow>
   'j \<times> 'w \<Rightarrow> (PaymentError + PaymentState) \<times> 'j \<times> 'w"
where
  "after_open c E key terms auth folded =
     st_bind (intent_leg c J key folded) (\<lambda>state.
     st_bind (lock_leg J E key terms state) (\<lambda>(state, locked_payment).
       if is_locked state \<and> is_locked folded then st_lift (Inl AmbiguousSendRefused)
       else drive_settlement_legs c J E key terms auth state locked_payment))"

lemma advance_eq: "advance c J E key terms auth = st_bind (open_journal J key terms) (after_open c E key terms auth)"
  unfolding advance_def after_open_def ..

lemma after_open_past:
  assumes "past_lock st"
  shows "triple (at_state key st n) (after_open c (counting E) key terms auth st)
     (finished key n n) (\<lambda>_. stopped key True n n)"
proof -
  have st: "intent_leg c J key st s = (Inr st, s)" "lock_leg J (counting E) key terms st s = (Inr (st, None), s)" for s
    using assms by (cases st; simp add: intent_leg_def st_lift_def) (rule lock_leg_skip [OF assms])
  have eq: "after_open c (counting E) key terms auth st =
      (if is_locked st then st_lift (Inl AmbiguousSendRefused)
       else drive_settlement_legs c J (counting E) key terms auth st None)"
    by (simp add: after_open_def fun_eq_iff st_bind_def st)
  show ?thesis unfolding eq using assms
    by (intro triple_if triple_lift drive_triple at_state_stopped) auto
qed

text \<open>Stopped before the lock was durable, with no send; or after it, with at most one.\<close>

definition at_most_one :: "PaymentKey \<Rightarrow> nat \<Rightarrow> 'j \<times> 'w \<times> nat \<Rightarrow> bool" where
  "at_most_one key n s \<longleftrightarrow> stopped key False n n s \<or> stopped key True n (Suc n) s"

lemma after_intent:
  "triple (at_state key (Some (Intent a)) n)
     (st_bind (lock_leg J (counting E) key terms (Some (Intent a))) (\<lambda>(state, locked_payment).
        drive_settlement_legs c J (counting E) key terms auth state locked_payment))
     (finished key n (Suc n)) (\<lambda>_. at_most_one key n)"
proof (rule triple_bind)
  let ?Q = "\<lambda>(st, lk) s. st = Some (Locked a) \<and> lk \<noteq> None \<and> at_state key st n s"
  show "triple (at_state key (Some (Intent a)) n) (lock_leg J (counting E) key terms (Some (Intent a))) ?Q
      (\<lambda>_. at_most_one key n)"
    by (rule triple_weaken [OF lock_leg_triple]) (auto simp: at_most_one_def)
  fix x
  show "triple (?Q x) (case x of (state, locked_payment) \<Rightarrow>
        drive_settlement_legs c J (counting E) key terms auth state locked_payment)
      (finished key n (Suc n)) (\<lambda>_. at_most_one key n)"
  proof (rule triple_pre)
    show "?Q x s \<Longrightarrow> fst x = Some (Locked a) \<and> at_state key (Some (Locked a)) n s" for s by auto
    assume "fst x = Some (Locked a)"
    then show "triple (at_state key (Some (Locked a)) n) (case x of (state, locked_payment) \<Rightarrow>
        drive_settlement_legs c J (counting E) key terms auth state locked_payment)
      (finished key n (Suc n)) (\<lambda>_. at_most_one key n)"
      by (auto split: prod.splits simp: at_most_one_def
            intro!: triple_weaken [OF drive_triple [of "Some (Locked a)"]])
  qed
qed

lemma after_open_fresh:
  assumes "\<not> past_lock st"
  shows "triple (at_state key st n) (after_open c (counting E) key terms auth st)
     (finished key n (Suc n)) (\<lambda>_. at_most_one key n)"
proof (cases st)
  case None
  show ?thesis unfolding after_open_def None
  proof (rule triple_bind)
    let ?Q = "\<lambda>st s. st = Some (Intent (attempt_id c key)) \<and> at_state key st n s"
    show "triple (at_state key None n) (intent_leg c J key None) ?Q (\<lambda>_. at_most_one key n)"
      by (rule triple_weaken [OF intent_leg_triple]) (auto simp: at_most_one_def)
    show "triple (?Q x) (st_bind (lock_leg J (counting E) key terms x) (\<lambda>(state, locked_payment).
        if is_locked state \<and> is_locked None then st_lift (Inl AmbiguousSendRefused)
        else drive_settlement_legs c J (counting E) key terms auth state locked_payment))
        (finished key n (Suc n)) (\<lambda>_. at_most_one key n)" for x
      by (rule triple_pre [where A = "x = Some (Intent (attempt_id c key))"
            and P = "at_state key (Some (Intent (attempt_id c key))) n"]) (auto intro: after_intent)
  qed
next
  case (Some x)
  with assms obtain a where st: "st = Some (Intent a)" by (cases x) auto
  have eq: "after_open c (counting E) key terms auth st =
      st_bind (lock_leg J (counting E) key terms (Some (Intent a))) (\<lambda>(state, locked_payment).
        drive_settlement_legs c J (counting E) key terms auth state locked_payment)"
    by (simp add: after_open_def intent_leg_def st fun_eq_iff)
  show ?thesis unfolding eq unfolding st by (rule after_intent)
qed

text \<open>
  What one run, automatic or manual, leaves behind: \<open>hi\<close> bounds its sends, a run that sent
  leaves a settled journal, a settled journal stays settled, and success is a durable \<open>Closed\<close>.
\<close>

definition run_outcome :: "PaymentKey \<Rightarrow> nat \<Rightarrow> 'j \<times> 'w \<times> nat \<Rightarrow> PaymentError + PaymentState \<Rightarrow> 'j \<times> 'w \<times> nat \<Rightarrow> bool" where
  "run_outcome key extra s r t \<longleftrightarrow>
     valid (fst t) \<and> sends s \<le> sends t \<and> sends t \<le> sends s + extra \<and>
     (sends s < sends t \<or> settled (fst s) key \<longrightarrow> settled (fst t) key) \<and>
     (\<forall>st. r = Inr st \<longrightarrow> (\<exists>a x. st = Closed a x) \<and> tracks (fst t) key (Some st))"

lemma finished_outcome:
  "finished key (sends s) hi st t \<Longrightarrow> hi \<le> sends s + extra \<Longrightarrow> run_outcome key extra s (Inr st) t"
  by (auto simp: finished_def run_outcome_def tracks_settled dest: tracks_valid)

lemma stopped_outcome:
  "stopped key True (sends s) hi t \<Longrightarrow> hi \<le> sends s + extra \<Longrightarrow> run_outcome key extra s (Inl e) t"
  "stopped key False (sends s) (sends s) t \<Longrightarrow> \<not> settled (fst s) key \<Longrightarrow> run_outcome key extra s (Inl e) t"
  by (auto simp: stopped_def run_outcome_def)

lemma open_err_outcome:
  assumes "open_journal J key terms s = (Inl e, t)" and "valid (fst s)"
  shows "run_outcome key extra s (Inl e) t"
proof -
  have "valid (fst t)" "content (fst t) = content (fst s)" "snd t = snd s"
    using open_journal_err [of key terms "fst s" "snd s" e "fst t" "snd t"] assms by auto
  then show ?thesis by (simp add: run_outcome_def settled_def sends_def)
qed

lemma open_ok_state:
  assumes "open_journal J key terms s = (Inr st, u)" and "valid (fst s)"
  shows "at_state key st (sends s) u" and "settled (fst s) key \<longleftrightarrow> past_lock st" and "sends u = sends s"
proof -
  have u: "tracks (fst u) key st" "content (fst u) = content (fst s)" "snd u = snd s"
    using open_journal_ok [of key terms "fst s" "snd s" st "fst u" "snd u"] assms by auto
  then show "at_state key st (sends s) u" "sends u = sends s" by (auto simp: at_state_def sends_def)
  show "settled (fst s) key \<longleftrightarrow> past_lock st"
    using tracks_settled [OF u(1)] u(2) by (simp add: settled_def)
qed

lemma advance_outcome:
  assumes "advance c J (counting E) key terms auth s = (r, t)" and "valid (fst s)"
  shows "run_outcome key (if settled (fst s) key then 0 else 1) s r t"
  using assms(1) unfolding advance_eq
proof (cases rule: st_bind_cases)
  case (err e)
  show ?thesis unfolding err(2) by (rule open_err_outcome [OF err(1) assms(2)])
next
  case (ok st u)
  note u = open_ok_state [OF ok(1) assms(2)]
  show ?thesis
  proof (cases "past_lock st")
    case True
    from triple_result [OF after_open_past [OF True] u(1) ok(2)] show ?thesis using True u(2)
      by (cases r) (auto intro: finished_outcome stopped_outcome)
  next
    case False
    from triple_result [OF after_open_fresh [OF False] u(1) ok(2)] show ?thesis using False u(2)
      by (cases r) (auto simp: at_most_one_def intro: finished_outcome stopped_outcome)
  qed
qed

lemma recover_outcome:
  assumes "complete_recovered_locked c J (counting E) key terms auth s = (r, t)" and "valid (fst s)"
  shows "run_outcome key 1 s r t"
  using assms(1) unfolding complete_recovered_locked_def
proof (cases rule: st_bind_cases)
  case (err e)
  show ?thesis unfolding err(2) by (rule open_err_outcome [OF err(1) assms(2)])
next
  case (ok st u)
  note u = open_ok_state [OF ok(1) assms(2)]
  show ?thesis
  proof (cases "\<exists>a. st = Some (Locked a) \<and> a = attempt_id c key")
    case True
    then obtain a where st: "st = Some (Locked a)" and a: "a = attempt_id c key" by blast
    have "triple (at_state key st (sends s))
        (st_bind (on_world gate_error (assert_locked_token_unspent (counting E) a terms)) (\<lambda>locked.
           drive_settlement_legs c J (counting E) key terms auth st (Some locked)))
        (finished key (sends s) (Suc (sends s))) (\<lambda>_. stopped key True (sends s) (Suc (sends s)))"
      unfolding st by (rule then_quiet [OF _ on_world_counting(4)]) (auto intro: drive_triple)
    then show ?thesis using triple_result [of _ _ _ _ u r t] u(1) ok(2) a st
      by (cases r) (fastforce intro: finished_outcome stopped_outcome)+
  next
    case False
    then obtain e where "r = Inl e" "t = u"
      using ok(2) by (cases st; cases "the st") (auto split: if_splits)
    with u show ?thesis
      by (auto simp: run_outcome_def at_state_def tracks_settled dest: tracks_valid)
  qed
qed

lemma run_pays_once:
  assumes "run_payment c J key r s = (x, t)" and "valid (fst s)"
  shows "valid (fst t)" and "sends s \<le> sends t" and "settled (fst s) key \<Longrightarrow> settled (fst t) key"
    and "settled (fst s) key \<Longrightarrow> sends t \<le> sends s + (if by_operator r then 1 else 0)"
    and "sends t \<le> sends s + 1"
    and "sends s < sends t \<Longrightarrow> settled (fst t) key"
proof -
  have "run_outcome key (if \<not> by_operator r \<and> settled (fst s) key then 0 else 1) s x t"
  proof (cases "by_operator r")
    case True
    with assms recover_outcome [of c "run_effects r" key "run_terms r" "run_authority r" s x t]
    show ?thesis by (simp add: run_payment_def)
  next
    case False
    with assms advance_outcome [of c "run_effects r" key "run_terms r" "run_authority r" s x t]
    show ?thesis by (simp add: run_payment_def)
  qed
  then show "valid (fst t)" "sends s \<le> sends t" "settled (fst s) key \<Longrightarrow> settled (fst t) key"
    "settled (fst s) key \<Longrightarrow> sends t \<le> sends s + (if by_operator r then 1 else 0)"
    "sends t \<le> sends s + 1" "sends s < sends t \<Longrightarrow> settled (fst t) key"
    by (auto simp: run_outcome_def split: if_splits)
qed

text \<open>Any sequence of runs, between which the environment changes nothing durable.\<close>

lemma runs_settled:
  assumes "\<And>e j. e \<in> set envs \<Longrightarrow> valid j \<Longrightarrow> valid (e j) \<and> content (e j) = content j"
    and "valid (fst s)" and "settled (fst s) key"
    and "length envs = length rs"
  shows "sends (run_payments c J key (zip envs rs) s) \<le> sends s + length (filter by_operator rs)"
  using assms(4,1-3)
proof (induction envs rs arbitrary: s rule: list_induct2)
  case Nil
  then show ?case by simp
next
  case (Cons e envs r rs)
  let ?u = "apfst e s"
  obtain x t where t: "run_payment c J key r ?u = (x, t)" by (cases "run_payment c J key r ?u")
  have u: "valid (fst ?u)" "settled (fst ?u) key" "sends ?u = sends s"
    using Cons.prems by (auto simp: settled_def sends_def apfst_def map_prod_def split: prod.splits)
  note out = run_pays_once [OF t u(1)]
  have "sends (run_payments c J key (zip envs rs) t) \<le> sends t + length (filter by_operator rs)"
    using Cons.IH [of t] Cons.prems(1) out u by auto
  then show ?case using out(4) [OF u(2)] u(3) t by auto
qed

lemma runs_pay_once:
  assumes "\<And>e j. e \<in> set envs \<Longrightarrow> valid j \<Longrightarrow> valid (e j) \<and> content (e j) = content j"
    and "valid (fst s)" and "length envs = length rs"
  shows "sends (run_payments c J key (zip envs rs) s) \<le> sends s + 1 + length (filter by_operator rs)"
  using assms(3,1,2)
proof (induction envs rs arbitrary: s rule: list_induct2)
  case Nil
  then show ?case by simp
next
  case (Cons e envs r rs)
  let ?u = "apfst e s"
  obtain x t where t: "run_payment c J key r ?u = (x, t)" by (cases "run_payment c J key r ?u")
  have u: "valid (fst ?u)" "sends ?u = sends s"
    using Cons.prems by (auto simp: sends_def)
  note out = run_pays_once [OF t u(1)]
  show ?case
  proof (cases "sends s < sends t")
    case True
    then have "sends (run_payments c J key (zip envs rs) t) \<le> sends t + length (filter by_operator rs)"
      using runs_settled [of envs t key rs c] Cons.prems(1) Cons.hyps out(1,6) u(2) by auto
    then show ?thesis using out(5) u(2) t by auto
  next
    case False
    then show ?thesis using Cons.IH [of t] Cons.prems(1) out(1,2) u(2) t by auto
  qed
qed

text \<open>A run that succeeds leaves the journal at the closed state it returned.\<close>

lemma run_closed:
  assumes "run_payment c J key r s = (Inr st, t)" and "valid (fst s)"
  shows "(\<exists>a x. st = Closed a x) \<and> (\<exists>rs. content (fst t) key = Inr rs \<and> fold_records key rs = Inr (Some st))"
proof -
  have "\<exists>extra. run_outcome key extra s (Inr st) t"
    using assms(1) advance_outcome [OF _ assms(2), of c "run_effects r" key "run_terms r" "run_authority r" "Inr st" t]
      recover_outcome [OF _ assms(2), of c "run_effects r" key "run_terms r" "run_authority r" "Inr st" t]
    by (cases "by_operator r") (auto simp only: run_payment_def if_True if_False)
  then show ?thesis by (auto simp: run_outcome_def tracks_def)
qed

text \<open>A locked payment found on replay is refused before any effect and without a record.\<close>

lemma advance_recovered_locked:
  assumes "open_journal J key terms s = (Inr (Some (Locked a)), t)"
  shows "advance c J E key terms auth s = (Inl AmbiguousSendRefused, t)"
  using assms by (simp add: advance_def st_bind_def [of "open_journal J key terms"] intent_leg_def lock_leg_def)

end

section \<open>The journals honour the contract\<close>

definition record_codec_ok :: "'b record_codec \<Rightarrow> bool" where
  "record_codec_ok codec \<longleftrightarrow> (\<forall>r. dec_record codec (enc_record codec r) = Inr r)"

lemma replay_lines_append:
  "replay_lines dec key i (xs @ ys) =
     try_bind (replay_lines dec key i xs) (\<lambda>rs.
     try_bind (replay_lines dec key (i + length xs) ys) (\<lambda>rs'. Inr (rs @ rs')))"
proof (induction xs arbitrary: i)
  case Nil
  show ?case by (cases "replay_lines dec key i ys") simp_all
next
  case (Cons x xs)
  show ?case
    by (cases "dec x"; cases "replay_lines dec key (Suc i) xs"; cases "replay_lines dec key (Suc (i + length xs)) ys")
       (auto simp: Cons.IH)
qed

lemma fs_replay_commit:
  assumes "record_codec_ok codec" and "fs_replay codec j = Inr rs" and "rec_key r = guard_key j"
  shows "fs_replay codec (commit_line (enc_record codec r) j) = Inr (rs @ [r])"
  using assms by (auto simp: fs_replay_def commit_line_def record_codec_ok_def replay_lines_append split: if_splits)

lemma fs_replay_cong [simp]: "fs_replay codec (j\<lparr>faults := f\<rparr>) = fs_replay codec j"
  "fs_replay codec (j\<lparr>open_fault := e\<rparr>) = fs_replay codec j"
  by (simp_all add: fs_replay_def)

interpretation fs: payment_journal "fs_ops codec" "\<lambda>j key. fs_replay codec (j\<lparr>guard_key := key\<rparr>)"
  "\<lambda>j key. record_codec_ok codec \<and> guard_key j = key" "\<lambda>_. record_codec_ok codec" for codec :: "'b record_codec"
proof unfold_locales
  fix j j' :: "'b fs_journal" and key r rs e
  have same: "guard_key j = key \<Longrightarrow> j\<lparr>guard_key := key\<rparr> = j" by simp
  show "record_codec_ok codec \<Longrightarrow> jlock (fs_ops codec) j key = Inr j' \<Longrightarrow>
      (record_codec_ok codec \<and> guard_key j' = key) \<and>
      (\<lambda>key. fs_replay codec (j'\<lparr>guard_key := key\<rparr>)) = (\<lambda>key. fs_replay codec (j\<lparr>guard_key := key\<rparr>))"
    by (auto simp: fs_ops_def fs_lock_def split: option.splits)
  show "record_codec_ok codec \<and> guard_key j = key \<Longrightarrow> record_codec_ok codec" by simp
  show "record_codec_ok codec \<and> guard_key j = key \<Longrightarrow>
      jreplay (fs_ops codec) j = fs_replay codec (j\<lparr>guard_key := key\<rparr>)"
    by (auto simp: fs_ops_def)
  show "record_codec_ok codec \<and> guard_key j = key \<Longrightarrow> jappend_sync (fs_ops codec) j r = (res, j') \<Longrightarrow>
      record_codec_ok codec \<and> guard_key j' = key" for res
    by (auto simp: fs_ops_def fs_append_sync_def commit_line_def Let_def
          split: if_splits option.splits append_fault.splits list.splits)
  assume held: "record_codec_ok codec \<and> guard_key j = key"
    and rs: "fs_replay codec (j\<lparr>guard_key := key\<rparr>) = Inr rs"
  then have j: "fs_replay codec j = Inr rs" by auto
  note commit = fs_replay_commit [of codec "j\<lparr>faults := tl (faults j)\<rparr>" rs r]
  show "jappend_sync (fs_ops codec) j r = (Inr (), j') \<Longrightarrow> fs_replay codec (j'\<lparr>guard_key := key\<rparr>) = Inr (rs @ [r])"
    using held j commit
    by (auto simp: fs_ops_def fs_append_sync_def Let_def commit_line_def
          split: if_splits option.splits append_fault.splits list.splits)
  show "jappend_sync (fs_ops codec) j r = (Inl e, j') \<Longrightarrow>
      fs_replay codec (j'\<lparr>guard_key := key\<rparr>) = Inr rs \<or>
      fs_replay codec (j'\<lparr>guard_key := key\<rparr>) = Inr (rs @ [r]) \<or>
      (\<exists>e'. fs_replay codec (j'\<lparr>guard_key := key\<rparr>) = Inl e')"
    using held j commit
    by (cases "fs_replay codec (j'\<lparr>guard_key := key\<rparr>)")
       (auto simp: fs_ops_def fs_append_sync_def Let_def commit_line_def fs_replay_def
          split: if_splits option.splits append_fault.splits list.splits)
qed

interpretation mem: payment_journal mem_ops "\<lambda>j key. mem_replay (j\<lparr>mem_key := key\<rparr>)"
  "\<lambda>j key. mem_key j = key" "\<lambda>_. True"
  by unfold_locales
     (auto simp: mem_ops_def mem_lock_def mem_append_sync_def mem_replay_def split: if_splits)

section \<open>Properties of the payment service\<close>

text \<open>Before a run the machine may fail differently: whether the file opens, and which appends are lost.\<close>

definition set_faults :: "string option \<Rightarrow> append_fault option list \<Rightarrow> 'b fs_journal \<Rightarrow> 'b fs_journal" where
  "set_faults e fs j = j\<lparr>open_fault := e, faults := fs\<rparr>"

definition faulty_runs ::
  "(string option \<times> append_fault option list \<times> 'w payment_run) list \<Rightarrow>
   (('b fs_journal \<Rightarrow> 'b fs_journal) \<times> 'w payment_run) list"
where
  "faulty_runs runs = map (\<lambda>(e, fs, r). (set_faults e fs, r)) runs"

lemma faulty_runs_zip:
  "faulty_runs runs = zip (map (\<lambda>(e, fs, r). set_faults e fs) runs) (map (snd \<circ> snd) runs)"
  by (induction runs) (auto simp: faulty_runs_def)

definition plain_codec :: "PaymentRecord record_codec" where
  "plain_codec = \<lparr>enc_record = (\<lambda>r. [r]), dec_record = (\<lambda>l. case l of [r] \<Rightarrow> Inr r | _ \<Rightarrow> Inl ''json'')\<rparr>"

lemma plain_codec_ok: "record_codec_ok plain_codec"
  by (simp add: record_codec_ok_def plain_codec_def)

text \<open>A concrete payment whose wallet, relays and receipts all succeed.\<close>

definition demo_terms :: PaymentTerms where
  "demo_terms = \<lparr>t_mint = ''mint'', t_amount = 21, t_unit = ''sat'', seller_nostr_pubkey = ''seller'',
     seller_p2pk_lock = ''lock''\<rparr>"

definition demo_key :: PaymentKey where
  "demo_key = PaymentKey_new ''job'' ''result'' ''commit'' ''jh'' demo_terms None"

definition demo_authority :: ReceiptAuthority where
  "demo_authority = \<lparr>buyer = ''buyer'', seller = ''seller''\<rparr>"

definition demo_evidence :: ReceiptEvidence where
  "demo_evidence = \<lparr>ev_receipt_id = ''rcpt'', author = ''buyer'', preimage = demo_preimage,
     seller_signature = ''sig:seller'', buyer_signature = ''sig:buyer'', ev_relay_success = [''relay''],
     relay_failure = None\<rparr>"

definition demo_token :: Token where
  "demo_token = \<lparr>tok_value = Inr 21, tok_mint = Inr ''mint'', tok_unit = Some ''sat''\<rparr>"

definition demo_verified :: VerifiedPayment where
  "demo_verified = \<lparr>v_mint = ''mint'', v_amount = 21, v_unit = ''sat'', proof_ys = [''y'']\<rparr>"

definition demo_sent :: PaymentSent where
  "demo_sent = PaymentSent ''job'' [''relay''] []"

definition demo_effects :: "unit PaymentEffects" where
  "demo_effects = \<lparr>lock_or_reconcile = (\<lambda>a t w. (Inr demo_token, w)),
     verify_payment = (\<lambda>a t l w. (Inr demo_verified, w)),
     send_payment = (\<lambda>k a t l v w. (Inr demo_sent, w)),
     publish_receipt = (\<lambda>k p w. (Inr demo_evidence, w)),
     assert_locked_token_unspent = (\<lambda>a t w. (Inr demo_token, w))\<rparr>"

definition demo_run :: "unit payment_run" where
  "demo_run = \<lparr>by_operator = False, run_effects = demo_effects, run_terms = demo_terms,
     run_authority = demo_authority\<rparr>"

definition empty_journal :: "'b fs_journal" where
  "empty_journal = \<lparr>committed = [], trailing = [], guard_key = demo_key, open_fault = None, faults = []\<rparr>"

lemmas demo_defs = demo_terms_def demo_key_def demo_authority_def demo_evidence_def demo_token_def
  demo_verified_def demo_sent_def demo_effects_def demo_run_def empty_journal_def demo_preimage_def
  PaymentKey_new_def

text \<open>C1. Over any sequence of runs of one payment on the file journal, whatever the wallet and
  the relays answer, whichever appends are lost, torn or left unsynced and whatever the file held
  before, the automatic path calls send_payment at most once in total; only a recovery an
  operator asks for can add a call, at most one per request.\<close>

theorem payment_sends_at_most_once:
  assumes "record_codec_ok codec"
  shows "sends (run_payments c (fs_ops codec) key (faulty_runs runs) (j, w, 0))
    \<le> 1 + length (filter (\<lambda>(_, _, r). by_operator r) runs)"
proof -
  have "sends (run_payments c (fs_ops codec) key (faulty_runs runs) (j, w, 0))
      \<le> sends (j, w, 0::nat) + 1 + length (filter by_operator (map (snd \<circ> snd) runs))"
    unfolding faulty_runs_zip using assms
    by (intro fs.runs_pay_once) (auto simp: set_faults_def fs_replay_def)
  also have "length (filter by_operator (map (snd \<circ> snd) runs)) = length (filter (\<lambda>(_, _, r). by_operator r) runs)"
    by (simp add: filter_map comp_def case_prod_unfold)
  finally show ?thesis by (simp add: sends_def)
qed

theorem payment_sends_at_most_once_witness:
  "sends (run_payments demo_crypto (fs_ops plain_codec) demo_key
      (faulty_runs [(None, [None, None, Some Lost], demo_run), (None, [], demo_run), (Some ''io'', [], demo_run)])
      (empty_journal, (), 0)) \<le> 1"
  using payment_sends_at_most_once [OF plain_codec_ok, of demo_crypto demo_key
      "[(None, [None, None, Some Lost], demo_run), (None, [], demo_run), (Some ''io'', [], demo_run)]" empty_journal "()"]
  by (simp add: demo_run_def)

text \<open>C21. A run that returns success returns the state Closed, and the file then replays to
  exactly that state: closing is never reported before it is durable. This holds for the automatic
  path and for the recovery, under every fault schedule.\<close>

theorem payment_success_is_durably_closed:
  assumes "record_codec_ok codec" and "run_payment c (fs_ops codec) key r (j, w) = (Inr st, j', w')"
  shows "(\<exists>a x. st = Closed a x) \<and>
    (\<exists>rs. fs_replay codec (j'\<lparr>guard_key := key\<rparr>) = Inr rs \<and> fold_records key rs = Inr (Some st))"
  using fs.run_closed [OF assms(2)] assms(1) by simp

theorem payment_success_is_durably_closed_witness:
  "case run_payment demo_crypto (fs_ops plain_codec) demo_key demo_run (empty_journal, (), 0) of
     (Inr st, j, w) \<Rightarrow> (\<exists>a x. st = Closed a x) \<and>
       (\<exists>rs. fs_replay plain_codec (j\<lparr>guard_key := demo_key\<rparr>) = Inr rs \<and> fold_records demo_key rs = Inr (Some st))
   | (Inl e, j, w) \<Rightarrow> False"
proof -
  have ok: "\<exists>st. fst (run_payment demo_crypto (fs_ops plain_codec) demo_key demo_run (empty_journal, (), 0)) = Inr st"
    by (simp add: run_payment_def demo_defs advance_def open_journal_def intent_leg_def lock_leg_def send_leg_def
          receipt_leg_def close_leg_def drive_settlement_legs_def st_bind_def st_lift_def on_world_def on_journal_def
          counting_def fs_ops_def fs_lock_def fs_replay_def fs_sync_replay_def fold_records_def
          append_transition_def decide_def fs_append_sync_def commit_line_def Let_def authority_verify_def
          verify_schnorr_hex_def demo_crypto_def require_receipt_binds_key_def require_key_matches_terms_def
          require_locked_matches_terms_def require_verified_matches_terms_def)
  show ?thesis
    using ok payment_success_is_durably_closed [OF plain_codec_ok,
        of demo_crypto demo_key demo_run empty_journal "((), 0)"]
    by (auto split: prod.splits sum.splits)
qed

text \<open>The five records of a payment that goes through.\<close>

definition full_history :: "PaymentKey \<Rightarrow> string \<Rightarrow> PaymentSent \<Rightarrow> ReceiptRecord \<Rightarrow> PaymentRecord list" where
  "full_history key a p x =
     map (\<lambda>st. \<lparr>rec_key = key, rec_value = st\<rparr>) [Intent a, Locked a, Sent a p, ReceiptPublished a x, Closed a x]"

lemma authority_verify_kind: "authority_verify c auth ev key = Inr x \<Longrightarrow> receipt_kind x = RECEIPT_EVENT_KIND"
  by (auto simp: authority_verify_def Let_def split: if_splits elim!: try_bind_InrE)

lemma fs_append_no_fault:
  assumes "rec_key r = guard_key j" and "faults j = []"
  shows "fs_append_sync codec j r = (Inr (), commit_line (enc_record codec r) j)"
  using assms by (simp add: fs_append_sync_def Let_def) (simp add: commit_line_def)

lemma append_transition_no_fault:
  assumes "legal cur next" and "guard_key j = key" and "faults j = []"
  shows "append_transition (fs_ops codec) key cur next (j, w) =
    (Inr (), commit_line (enc_record codec \<lparr>rec_key = key, rec_value = next\<rparr>) j, w)"
  using assms fs_append_no_fault [of "\<lparr>rec_key = key, rec_value = next\<rparr>" j codec]
  by (simp add: append_transition_def on_journal_def fs_ops_def decide_def)

lemma commit_line_fields [simp]:
  "guard_key (commit_line b j) = guard_key j" "faults (commit_line b j) = faults j"
  "trailing (commit_line b j) = []" "committed (commit_line b j) = committed j @ [trailing j @ b]"
  by (simp_all add: commit_line_def)

text \<open>C16. From an empty file, when the wallet locks a token of exactly the terms, verification
  agrees with them, a relay accepts the payment and the published receipt verifies, the automatic
  path does close the payment, and the file holds exactly the five records Intent, Locked, Sent,
  ReceiptPublished and Closed, in that order, all of this payment and of the attempt id its key
  determines.\<close>

theorem payment_happy_path_closes:
  assumes j: "committed j = []" "trailing j = []" "open_fault j = None" "faults j = []"
    and terms: "require_key_matches_terms key terms = Inr ()"
    and lock: "lock_or_reconcile E (attempt_id c key) terms w = (Inr tok, w1)"
    and tok: "require_locked_matches_terms tok terms = Inr ()"
    and verify: "verify_payment E (attempt_id c key) terms tok w1 = (Inr v, w2)"
    and v: "require_verified_matches_terms v terms = Inr ()"
    and send: "send_payment E key (attempt_id c key) terms tok v w2 = (Inr p, w3)"
    and p: "relay_success p \<noteq> []"
    and publish: "publish_receipt E key p w3 = (Inr ev, w4)"
    and receipt: "authority_verify c auth ev key = Inr x"
  shows "\<exists>j'. advance c (fs_ops codec) E key terms auth (j, w) = (Inr (Closed (attempt_id c key) x), j', w4) \<and>
    committed j' = map (enc_record codec) (full_history key (attempt_id c key) p x) \<and> trailing j' = []"
proof -
  let ?a = "attempt_id c key" and ?j = "j\<lparr>guard_key := key\<rparr>"
  have opened: "open_journal (fs_ops codec) key terms (j, w) = (Inr None, ?j, w)"
    using j terms
    by (simp add: open_journal_def on_journal_def fs_ops_def fs_lock_def fs_replay_def fs_sync_replay_def
          fold_records_def st_bind_def st_lift_def)
  show ?thesis using assms authority_verify_kind [OF receipt]
    by (simp add: advance_def st_bind_def opened intent_leg_def lock_leg_def send_leg_def receipt_leg_def
          close_leg_def drive_settlement_legs_def st_lift_def on_world_def append_transition_no_fault full_history_def)
qed

theorem payment_happy_path_closes_witness:
  "\<exists>j'. advance demo_crypto (fs_ops plain_codec) demo_effects demo_key demo_terms demo_authority (empty_journal, ()) =
     (Inr (Closed (attempt_id demo_crypto demo_key) \<lparr>receipt_id = ''rcpt'', receipt_kind = RECEIPT_EVENT_KIND\<rparr>), j', ()) \<and>
    committed j' = map (enc_record plain_codec) (full_history demo_key (attempt_id demo_crypto demo_key) demo_sent
      \<lparr>receipt_id = ''rcpt'', receipt_kind = RECEIPT_EVENT_KIND\<rparr>) \<and> trailing j' = []"
  by (rule payment_happy_path_closes [where tok = demo_token and v = demo_verified and ev = demo_evidence
        and ?w1.0 = "()" and ?w2.0 = "()" and ?w3.0 = "()"])
     (simp_all add: demo_defs require_key_matches_terms_def require_locked_matches_terms_def
        require_verified_matches_terms_def authority_verify_def verify_schnorr_hex_def demo_crypto_def
        require_receipt_binds_key_def)

text \<open>A payment that is found Locked on replay is never sent by the automatic path: it returns
  AmbiguousSendRefused, having called no effect and written no record.\<close>

theorem payment_recovered_lock_refused:
  assumes "fs_replay codec (j\<lparr>guard_key := key\<rparr>) = Inr rs" and "fold_records key rs = Inr (Some (Locked a))"
    and "open_fault j = None" and "require_key_matches_terms key terms = Inr ()"
  shows "advance c (fs_ops codec) E key terms auth (j, w) = (Inl AmbiguousSendRefused, j\<lparr>guard_key := key\<rparr>, w)"
proof (rule fs.advance_recovered_locked)
  show "open_journal (fs_ops codec) key terms (j, w) = (Inr (Some (Locked a)), j\<lparr>guard_key := key\<rparr>, w)"
    using assms
    by (simp add: open_journal_def on_journal_def fs_ops_def fs_lock_def fs_sync_replay_def st_bind_def st_lift_def)
qed

theorem payment_recovered_lock_refused_witness:
  "let h = take 2 (full_history demo_key ''a'' demo_sent \<lparr>receipt_id = ''rcpt'', receipt_kind = 3400\<rparr>);
       j = empty_journal\<lparr>committed := map (enc_record plain_codec) h\<rparr>
   in advance demo_crypto (fs_ops plain_codec) demo_effects demo_key demo_terms demo_authority (j, ()) =
      (Inl AmbiguousSendRefused, j\<lparr>guard_key := demo_key\<rparr>, ())"
  unfolding Let_def
  by (rule payment_recovered_lock_refused [where a = "''a''"
        and rs = "take 2 (full_history demo_key ''a'' demo_sent \<lparr>receipt_id = ''rcpt'', receipt_kind = 3400\<rparr>)"])
     (simp_all add: full_history_def fs_replay_def plain_codec_def demo_defs fold_records_def fold_step_def
        decide_def require_key_matches_terms_def)

text \<open>C24. The operator's recovery acts only on a payment whose journal stands exactly at Locked
  with the attempt id of its key: in every other state it refuses, touching neither the wallet nor
  the file. And where the mint says that the locked token is spent, or the token is missing, it
  returns that error with nothing sent and nothing written.\<close>

theorem recovery_only_of_unspent_lock:
  assumes "fs_replay codec (j\<lparr>guard_key := key\<rparr>) = Inr rs" and "fold_records key rs = Inr st"
    and "open_fault j = None" and "require_key_matches_terms key terms = Inr ()"
  shows "(st \<noteq> Some (Locked (attempt_id c key)) \<longrightarrow>
      (\<exists>m. complete_recovered_locked c (fs_ops codec) E key terms auth (j, w) =
        (Inl (Refused m), j\<lparr>guard_key := key\<rparr>, w))) \<and>
    (\<forall>g w'. st = Some (Locked (attempt_id c key)) \<and>
        assert_locked_token_unspent E (attempt_id c key) terms w = (Inl g, w') \<longrightarrow>
      complete_recovered_locked c (fs_ops codec) E key terms auth (j, w) =
        (Inl (gate_error g), j\<lparr>guard_key := key\<rparr>, w'))"
proof -
  have opened: "open_journal (fs_ops codec) key terms (j, w) = (Inr st, j\<lparr>guard_key := key\<rparr>, w)"
    using assms
    by (simp add: open_journal_def on_journal_def fs_ops_def fs_lock_def fs_sync_replay_def st_bind_def st_lift_def)
  show ?thesis
    by (cases st; cases "the st")
       (auto simp: complete_recovered_locked_def st_bind_def opened st_lift_def on_world_def)
qed

theorem recovery_only_of_unspent_lock_witness:
  "\<exists>m. complete_recovered_locked demo_crypto (fs_ops plain_codec) demo_effects demo_key demo_terms demo_authority
     (empty_journal, ()) = (Inl (Refused m), empty_journal, ())"
proof -
  have j: "empty_journal\<lparr>guard_key := demo_key\<rparr> = empty_journal" by (simp add: empty_journal_def)
  have "fs_replay plain_codec (empty_journal\<lparr>guard_key := demo_key\<rparr>) = Inr []" "fold_records demo_key [] = Inr None"
    "open_fault (empty_journal :: PaymentRecord fs_journal) = None"
    "require_key_matches_terms demo_key demo_terms = Inr ()"
    by (simp_all add: fs_replay_def fold_records_def demo_defs require_key_matches_terms_def)
  from recovery_only_of_unspent_lock [OF this, of demo_crypto demo_effects demo_authority "()"] show ?thesis
    unfolding j by blast
qed

section \<open>The shape of a journal\<close>

definition state_sequence :: "string \<Rightarrow> PaymentSent \<Rightarrow> ReceiptRecord \<Rightarrow> ReceiptRecord \<Rightarrow> PaymentState list" where
  "state_sequence a p x y = [Intent a, Locked a, Sent a p, ReceiptPublished a x, Closed a y]"

fun legal_chain :: "PaymentState option \<Rightarrow> PaymentState list \<Rightarrow> bool" where
  "legal_chain cur [] = True"
| "legal_chain cur (v # vs) = (legal cur v \<and> legal_chain (Some v) vs)"

lemma fold_chain:
  "try_fold (fold_step key) cur rs = Inr st \<longleftrightarrow>
     (\<forall>r\<in>set rs. rec_key r = key) \<and> legal_chain cur (map rec_value rs) \<and>
     st = (if rs = [] then cur else Some (rec_value (last rs)))"
  by (induction rs arbitrary: cur) (auto simp: fold_step_def decide_def)

lemma chain_from:
  "legal_chain (Some (Closed a y)) vs \<longleftrightarrow> vs = []"
  "legal_chain (Some (ReceiptPublished a x)) vs \<longleftrightarrow> (\<exists>y. prefix vs [Closed a y])"
  "legal_chain (Some (Sent a p)) vs \<longleftrightarrow> (\<exists>x y. prefix vs [ReceiptPublished a x, Closed a y])"
  "legal_chain (Some (Locked a)) vs \<longleftrightarrow> (\<exists>p x y. prefix vs [Sent a p, ReceiptPublished a x, Closed a y])"
  "legal_chain (Some (Intent a)) vs \<longleftrightarrow> (\<exists>p x y. prefix vs [Locked a, Sent a p, ReceiptPublished a x, Closed a y])"
proof -
  show closed: "legal_chain (Some (Closed a y)) vs \<longleftrightarrow> vs = []" for a y vs
    by (cases vs) auto
  show published: "legal_chain (Some (ReceiptPublished a x)) vs \<longleftrightarrow> (\<exists>y. prefix vs [Closed a y])" for a x vs
    by (cases vs; cases "hd vs") (auto simp: closed)
  show sent: "legal_chain (Some (Sent a p)) vs \<longleftrightarrow> (\<exists>x y. prefix vs [ReceiptPublished a x, Closed a y])" for a p vs
    by (cases vs; cases "hd vs") (auto simp: published)
  show locked: "legal_chain (Some (Locked a)) vs \<longleftrightarrow> (\<exists>p x y. prefix vs [Sent a p, ReceiptPublished a x, Closed a y])" for a vs
    by (cases vs; cases "hd vs") (auto simp: sent)
  show "legal_chain (Some (Intent a)) vs \<longleftrightarrow> (\<exists>p x y. prefix vs [Locked a, Sent a p, ReceiptPublished a x, Closed a y])"
    by (cases vs; cases "hd vs") (auto simp: locked)
qed

lemma chain_None: "legal_chain None vs \<longleftrightarrow> (\<exists>a p x y. prefix vs (state_sequence a p x y))"
  by (cases vs; cases "hd vs") (auto simp: chain_from state_sequence_def)

text \<open>C28. The reducer accepts exactly the journals whose records are all of the given payment and
  whose states are an initial part of Intent, Locked, Sent, ReceiptPublished, Closed, each once, in
  that order and under one attempt id; the state it returns is the last one.\<close>

theorem fold_records_accepts_exactly_the_lifecycle:
  "fold_records key rs = Inr st \<longleftrightarrow>
     list_all (\<lambda>r. rec_key r = key) rs \<and>
     (\<exists>a p x y. prefix (map rec_value rs) (state_sequence a p x y)) \<and>
     st = (if rs = [] then None else Some (rec_value (last rs)))"
  by (simp add: fold_records_def fold_chain chain_None list_all_iff)

section \<open>The attempt id\<close>

definition fields_fit :: "PaymentKey \<Rightarrow> bool" where
  "fields_fit k \<longleftrightarrow> list_all (\<lambda>f. length f < 2 ^ 64) (attempt_fields k)"

lemma be_bytes_length [simp]: "length (be_bytes k n) = k"
  by (induction k arbitrary: n) auto

lemma be_bytes_inj: "n < 256 ^ k \<Longrightarrow> m < 256 ^ k \<Longrightarrow> be_bytes k n = be_bytes k m \<Longrightarrow> n = m"
proof (induction k arbitrary: n m)
  case 0
  then show ?case by simp
next
  case (Suc k)
  have "of_char (char_of (n mod 256)) = (of_char (char_of (m mod 256)) :: nat)" using Suc.prems(3) by simp
  then have "n mod 256 = m mod 256" by simp
  moreover have "n div 256 = m div 256"
    using Suc.IH [of "n div 256" "m div 256"] Suc.prems by (auto simp: less_mult_imp_div_less)
  ultimately show ?case by (metis mod_mult_div_eq)
qed

lemma hash_field_not_Nil [simp]: "hash_field v \<noteq> []"
  using be_bytes_length [of 8 "length v"] by (auto simp: hash_field_def simp del: be_bytes_length)

lemma hash_field_inj:
  assumes "length v < 2 ^ 64" "length w < 2 ^ 64" "hash_field v @ x = hash_field w @ y"
  shows "v = w \<and> x = y"
proof -
  have "be_bytes 8 (length v) = be_bytes 8 (length w)" and eq: "v @ x = w @ y"
    using assms(3) by (auto simp: hash_field_def append_eq_append_conv)
  then have "length v = length w" using be_bytes_inj [of "length v" 8 "length w"] assms(1,2) by simp
  with eq show ?thesis by simp
qed

lemma hash_fields_inj:
  "list_all (\<lambda>f. length f < 2 ^ 64) xs \<Longrightarrow> list_all (\<lambda>f. length f < 2 ^ 64) ys \<Longrightarrow>
   concat (map hash_field xs) = concat (map hash_field ys) \<Longrightarrow> xs = ys"
proof (induction xs arbitrary: ys)
  case Nil
  then show ?case by (cases ys) auto
next
  case (Cons v xs)
  show ?case
  proof (cases ys)
    case Nil
    then show ?thesis using Cons.prems by simp
  next
    case ys: (Cons w zs)
    with Cons.prems hash_field_inj [of v w "concat (map hash_field xs)" "concat (map hash_field zs)"] Cons.IH [of zs]
    show ?thesis by simp
  qed
qed

text \<open>C29. The text whose SHA-256 is the attempt id determines the whole payment key but the
  payload id: two keys have the same attempt text exactly when they agree on job, result, delivery
  hash, job hash, seller, amount, unit, mint and the presence and value of the payment-request
  hash. Only the fields' lengths (below 2^64 bytes, as every Rust string) are assumed.\<close>

theorem attempt_preimage_binds_key:
  assumes "fields_fit k" and "fields_fit k'"
  shows "attempt_preimage k = attempt_preimage k' \<longleftrightarrow> with_payment_id None k = with_payment_id None k'"
proof
  assume "attempt_preimage k = attempt_preimage k'"
  then have "attempt_fields k = attempt_fields k'"
    using assms by (auto simp: attempt_preimage_def fields_fit_def intro: hash_fields_inj)
  then show "with_payment_id None k = with_payment_id None k'"
    by (cases k; cases k')
       (auto simp: attempt_fields_def with_payment_id_def word_unat_eq_iff split: option.splits)
next
  assume eq: "with_payment_id None k = with_payment_id None k'"
  have "attempt_preimage k = attempt_preimage (with_payment_id None k)" for k
    by (simp add: attempt_preimage_def attempt_fields_def with_payment_id_def)
  with eq show "attempt_preimage k = attempt_preimage k'" by metis
qed

theorem attempt_preimage_binds_key_witness:
  "attempt_preimage demo_key \<noteq> attempt_preimage (demo_key\<lparr>amount := 22\<rparr>)"
  by (subst attempt_preimage_binds_key)
     (simp_all add: fields_fit_def attempt_fields_def demo_defs with_payment_id_def nat_digits.simps)

text \<open>A receipt is accepted only when a relay took it, it was authored by the buyer, both parties'
  signatures verify over the digest of its preimage, and the preimage names both parties and this
  payment's job, job hash, amount, unit, delivery hash and payment request; the record that closes
  the payment then carries the receipt kind.\<close>

theorem accepted_receipt_binds_payment:
  "authority_verify c auth ev key = Inr x \<longleftrightarrow>
     ev_relay_success ev \<noteq> [] \<and> author ev = buyer auth \<and>
     buyer_pubkey (preimage ev) = buyer auth \<and> pre_seller_pubkey (preimage ev) = seller auth \<and>
     schnorr_ok c (seller_signature ev) (digest_bytes c (preimage ev)) (seller auth) \<and>
     schnorr_ok c (buyer_signature ev) (digest_bytes c (preimage ev)) (buyer auth) \<and>
     offer_id (preimage ev) = job_id key \<and> pre_job_hash (preimage ev) = job_hash key \<and>
     pre_amount (preimage ev) = amount key \<and> pre_unit (preimage ev) = unit_of key \<and>
     pre_delivery_integrity_hash (preimage ev) = delivery_integrity_hash key \<and>
     pre_creq_hash (preimage ev) = creq_hash key \<and>
     x = \<lparr>receipt_id = ev_receipt_id ev, receipt_kind = RECEIPT_EVENT_KIND\<rparr>"
  by (auto simp: authority_verify_def require_receipt_binds_key_def verify_schnorr_hex_def Let_def
        split: if_splits elim!: try_bind_InrE)

end
