(* ===== verification/Pay_Runs.thy ===== *)
theory Pay_Runs
  imports Pay_Safety Payment_Safety
begin

text \<open>
  Runs of the pay path: what a run that ends in a refusal leaves alone, what a run that pays has
  checked, why the lock of a session turn cannot be completed, and a concrete home on which the
  properties of the pay path are exercised.
\<close>

section \<open>Runs that run alone\<close>

lemma exec_pay_try [simp]:
  "exec (pay_try p k) s = (case exec p s of (Inl e, t) \<Rightarrow> (Inl e, t) | (Inr x, t) \<Rightarrow> exec (k x) t)"
  by (auto simp: pay_try_def split: prod.splits sum.splits)

lemma exec_pay_lift [simp]: "exec (pay_lift r) s = (r, s)"
  by (simp add: pay_lift_def)

lemma exec_outside [simp]: "exec (outside h m) s = (case m (world_of s) of (r, w) \<Rightarrow> (map_err h r, put_world w s))"
  by (simp add: outside_def)

lemma exec_hop_proc [simp]: "exec (hop_proc p) s = (case exec p (hop_home s) of (r, h) \<Rightarrow> (r, s\<lparr>hop_home := h\<rparr>))"
  by (induction p arbitrary: s) (auto split: prod.splits)

lemma exec_in_hops [simp]: "exec (in_hops p) s = (case exec p (hop_home s) of (r, h) \<Rightarrow> (map_err PayHop r, s\<lparr>hop_home := h\<rparr>))"
  by (simp add: in_hops_def split: prod.splits)

section \<open>What a run leaves alone\<close>

definition money_of ::
  "('l, 'b, 'h, 'w) pay_state \<Rightarrow> 'l ledger_file \<times> (nat \<Rightarrow> BudgetGate) \<times> (string \<times> 'h hop_file) list \<times> (string \<Rightarrow> hop_event list) \<times> (string \<Rightarrow> 'b fs_journal)"
where
  "money_of s = (spend_ledger s, pay_gates s, hop_files (hop_home s), hop_log (hop_home s), pay_journals s)"

definition calm :: "(('l, 'b, 'h, 'w) pay_state, 'a) proc \<Rightarrow> bool" where
  "calm p \<longleftrightarrow> (\<forall>s. money_of (snd (exec p s)) = money_of s)"

lemma calmD: "calm p \<Longrightarrow> exec p s = (x, t) \<Longrightarrow> money_of t = money_of s"
  unfolding calm_def by (metis snd_conv)

lemma money_put_world [simp]: "money_of (put_world w s) = money_of s"
  by (simp add: money_of_def put_world_def)

lemma calm_done: "calm (Done x)"
  by (simp add: calm_def)

lemma calm_lift: "calm (pay_lift r)"
  by (simp add: calm_def)

lemma calm_outside: "calm (outside h m)"
  by (simp add: calm_def split: prod.split)

lemma calm_bind: "calm p \<Longrightarrow> (\<And>x. calm (k x)) \<Longrightarrow> calm (pbind p k)"
  by (auto simp: calm_def split: prod.split) (metis snd_conv)

lemma calm_try: "calm p \<Longrightarrow> (\<And>x. calm (k x)) \<Longrightarrow> calm (pay_try p k)"
  unfolding pay_try_def by (rule calm_bind) (auto simp: calm_done split: sum.split)

lemma calm_if: "(b \<Longrightarrow> calm p) \<Longrightarrow> (\<not> b \<Longrightarrow> calm q) \<Longrightarrow> calm (if b then p else q)"
  by simp

lemma calm_pair: "(\<And>x y. calm (k x y)) \<Longrightarrow> calm (case z of (x, y) \<Rightarrow> k x y)"
  by (simp split: prod.split)

lemma calm_option: "calm p \<Longrightarrow> (\<And>y. calm (k y)) \<Longrightarrow> calm (case x of None \<Rightarrow> p | Some y \<Rightarrow> k y)"
  by (simp split: option.split)

lemmas calm_steps = calm_try calm_done calm_lift calm_outside calm_if calm_pair calm_option

lemma calm_check: "calm (check_payment c ops r)"
proof -
  have key: "calm (buyer_key ops)" unfolding buyer_key_def by (intro calm_steps)
  have contribution: "calm (contribution_stage c ops pv r h d)" for pv h d
    unfolding contribution_stage_def by (intro calm_steps)
  have fetched: "calm (atomic (\<lambda>s. case po_fetch ops d (world_of s) of (r, w) \<Rightarrow> (r, put_world w s)))" for d
    by (simp add: calm_def split: prod.split)
  have delivery: "calm (delivery_stage ops d k)" for d k
    unfolding delivery_stage_def by (intro calm_steps calm_bind fetched)
  have read: "calm (atomic (\<lambda>s. case delivery_tree_carries_sentinel ops c h j (world_of s) of (v, w) \<Rightarrow> (v, put_world w s)))" for c h j
    by (simp add: calm_def split: prod.split)
  have refuse: "calm (refuse_sentinel ops j c k y)" for j c k y
    by (simp add: refuse_sentinel_def calm_def journal_sentinel_refusal_def money_of_def)
  have sentinel: "calm (sentinel_stage ops r d)" for d
    unfolding sentinel_stage_def
    by (cases d) (auto intro!: calm_done calm_bind read refuse split: sum.split bool.split)
  show ?thesis
    unfolding check_payment_def verify_stage_def Let_def
    by (intro calm_steps key contribution delivery sentinel)
qed

lemma journalled_frame:
  "exec (journalled_pairing c a) h = (x, t) \<Longrightarrow> hop_files t = hop_files h \<and> hop_log t = hop_log h"
  by (auto simp: journalled_pairing_def hop_try_def journal_read_def dest: replay_frame split: prod.splits sum.splits)

lemma calm_hop_stage: "calm (hop_stage K ops k a sats)"
proof -
  have call: "calm (in_hops (call_mint m))" for m
    by (simp add: calm_def call_mint_def money_of_def split: prod.split)
  have fail: "calm (in_hops (hop_fail e))" for e by (simp add: calm_def hop_fail_def money_of_def)
  have opened: "calm (in_hops (open_hop_wallets w x y))" for w x y
    unfolding open_hop_wallets_def by (auto intro: call fail split: sum.split option.split)
  have read: "calm (in_hops (journalled_pairing c a))" for c :: "'c hop_codec"
    by (auto simp: calm_def money_of_def dest: journalled_frame split: prod.split)
  show ?thesis unfolding hop_stage_def by (intro calm_steps opened read)
qed

definition refused_by_money :: "AuthorizePayError \<Rightarrow> bool" where
  "refused_by_money e \<longleftrightarrow> (case e of PayBudget _ \<Rightarrow> True | PayHop _ \<Rightarrow> True | PayPayment _ \<Rightarrow> True | _ \<Rightarrow> False)"

lemma exec_try_Inl:
  assumes "exec (pay_try p k) s = (Inl e, t)"
  obtains "exec p s = (Inl e, t)" | x u where "exec p s = (Inr x, u)" "exec (k x) u = (Inl e, t)"
  using assms by (auto split: prod.splits sum.splits)

lemma exec_try_Inr:
  assumes "exec (pay_try p k) s = (Inr y, t)"
  obtains x u where "exec p s = (Inr x, u)" "exec (k x) u = (Inr y, t)"
  using assms by (auto split: prod.splits sum.splits)

lemma attempt_pay_error: "exec (attempt_pay K E k a hop) s = (Inl e, t) \<Longrightarrow> refused_by_money e"
  by (auto simp: attempt_pay_def on_attempt_def refused_by_money_def map_err_def split: prod.splits sum.splits option.splits)

text \<open>A run that leaves the money alone whenever it ends in another refusal.\<close>

definition spares :: "('l, 'b, 'h, 'w, 'a) pay_run \<Rightarrow> bool" where
  "spares p \<longleftrightarrow> (\<forall>s e t. exec p s = (Inl e, t) \<longrightarrow> \<not> refused_by_money e \<longrightarrow> money_of t = money_of s)"

lemma spares_error: "(\<And>s e t. exec p s = (Inl e, t) \<Longrightarrow> refused_by_money e) \<Longrightarrow> spares p"
  unfolding spares_def by blast

lemma spares_then: "calm p \<Longrightarrow> (\<And>x. spares (k x)) \<Longrightarrow> spares (pay_try p k)"
  unfolding spares_def by (metis calmD exec_try_Inl)

lemma spares_charged:
  "spares (pay_try (gate_reserve K p a charged) (\<lambda>_. pay_try (attempt_pay K E k a hop) (\<lambda>(state, credit).
      pay_try (if credit > 0 then pbind (gate_credit K p i credit) (\<lambda>_. Done (Inr ())) else Done (Inr ())) (\<lambda>_.
      pay_try (gate_spent p) (\<lambda>n. Done (Inr (f state n)))))))"
  by (rule spares_error, elim exec_try_Inl)
     (auto simp: gate_reserve_def gate_spent_def map_err_def refused_by_money_def dest: attempt_pay_error
       split: prod.splits sum.splits if_splits)

lemma spares_authorize: "spares (authorize_pay K ops p r)"
  unfolding authorize_pay_def pay_checked_def Let_def
  by (intro spares_then [OF calm_check] spares_then [OF calm_hop_stage] spares_then [OF calm_outside] spares_charged)

text \<open>C35. A refusal spends nothing: when a payment is refused by an input check, the private protocol, the
  delivery rules, the co-signature, the sentinel, the wallet or the mint's preflight, the spend
  ledger, the budget gates, the hop journals, the melts and the payment journals are as before.\<close>

theorem refusal_spends_nothing:
  assumes "exec (authorize_pay K ops p r) s = (Inl e, t)" and "\<not> refused_by_money e"
  shows "spend_ledger t = spend_ledger s \<and> pay_gates t = pay_gates s \<and> hop_files (hop_home t) = hop_files (hop_home s) \<and>
    hop_log (hop_home t) = hop_log (hop_home s) \<and> pay_journals t = pay_journals s"
proof -
  have "money_of t = money_of s" using spares_authorize assms unfolding spares_def by blast
  then show ?thesis by (simp add: money_of_def)
qed

section \<open>What a payment has checked\<close>

lemma delivery_stage_ok:
  assumes "exec (delivery_stage ops (Some g) key) s = (Inr (), t)"
  shows "gd_commit_oid g = delivery_integrity_hash key \<and> (\<exists>w w'. po_fetch ops g w = (Inr (delivery_integrity_hash key), w'))"
  using assms
  by (auto simp: delivery_stage_def verify_pay_path_delivery_def from_fetched_tip_def try_bind_def map_err_def
      split: prod.splits sum.splits if_splits)

lemma sentinel_stage_ok:
  assumes "exec (sentinel_stage ops r (Some g)) s = (Inr (), t)" and "ap_job_class r = FromScratch"
  shows "\<exists>content w w'. po_read_sentinel ops (gd_commit_oid g) w = (Inr (Some content), w') \<and>
    content_carries_sentinel content (ap_job_hash r) (ap_job_id r)"
  using assms
  by (auto simp: sentinel_stage_def refuse_sentinel_def delivery_tree_carries_sentinel_def
      split: prod.splits sum.splits bool.splits option.splits)

lemma derive_hash: "derive_payment ops j r h jh sk n ms m c = Inr d \<Longrightarrow> delivery_integrity_hash (dp_key d) = h"
  by (auto simp: derive_payment_def as_input_def DeliveryIntegrityHash_from_hex_def PaymentKey_new_def Let_def map_err_def
      elim!: try_bind_InrE split: sum.splits if_splits)

lemma attempt_id_with [simp]: "Payment.attempt_id c (with_payment_id x k) = Payment.attempt_id c k"
  by (simp add: Payment.attempt_id_def attempt_preimage_def attempt_fields_def with_payment_id_def)

lemma with_payment_id_hash [simp]: "delivery_integrity_hash (with_payment_id x k) = delivery_integrity_hash k"
  by (simp add: with_payment_id_def)

definition artifact_checked :: "('u, 'p, 'w) pay_ops \<Rightarrow> private_receipt option \<Rightarrow> 'p AuthorizePayRequest \<Rightarrow> bool" where
  "artifact_checked ops pv r \<longleftrightarrow>
     (case ap_inline_answer r of
        Some answer \<Rightarrow> (case pv of None \<Rightarrow> po_result_hash ops answer | Some p \<Rightarrow> pre_delivery_integrity_hash (pr_preimage p)) = ap_delivery_integrity_hash r
      | None \<Rightarrow> (\<exists>g w w'. gd_commit_oid g = ap_delivery_integrity_hash r \<and> po_fetch ops g w = (Inr (ap_delivery_integrity_hash r), w')) \<and>
          (ap_job_class r = FromScratch \<longrightarrow> (\<exists>content w w'. po_read_sentinel ops (ap_delivery_integrity_hash r) w = (Inr (Some content), w') \<and>
             content_carries_sentinel content (ap_job_hash r) (ap_job_id r))))"

lemma artifact_ok:
  assumes "delivery_of ops pv r = Inr (d, kind)" and "delivery_integrity_hash key = ap_delivery_integrity_hash r"
    and "exec (delivery_stage ops d key) s = (Inr (), t)" and "exec (sentinel_stage ops r d) u = (Inr (), v)"
  shows "artifact_checked ops pv r"
proof (cases "ap_inline_answer r")
  case (Some answer)
  then show ?thesis using assms(1) by (auto simp: artifact_checked_def delivery_of_def Let_def split: option.splits if_splits)
next
  case None
  then obtain g where d: "d = Some g" using assms(1) by (auto simp: delivery_of_def elim!: try_bind_InrE)
  note fetched = delivery_stage_ok [OF assms(3) [unfolded d], unfolded assms(2)]
  then show ?thesis using None sentinel_stage_ok [OF assms(4) [unfolded d]] by (auto simp: artifact_checked_def)
qed

definition derived_for :: "('u, 'p, 'w) pay_ops \<Rightarrow> 'p AuthorizePayRequest \<Rightarrow> AuthorizePayError + 'u DerivedPayment" where
  "derived_for ops r = derive_payment ops (ap_job_id r) (ap_result_id r) (ap_delivery_integrity_hash r) (ap_job_hash r)
     (ap_seller_pubkey r) (ap_amount_sats r) (ap_accepted_mints r) (ap_realized_mint r) (ap_creq_hash r)"

text \<open>The seller signed the rebuilt tuple of a contribution, whose commit is the one that is paid.\<close>

definition authorship_checked :: "crypto \<Rightarrow> 'p AuthorizePayRequest \<Rightarrow> string \<Rightarrow> bool" where
  "authorship_checked c r seller_hex \<longleftrightarrow>
     (case ap_contribution r of
        None \<Rightarrow> True
      | Some binds \<Rightarrow> \<exists>g tuple. gd_commit_oid g = ap_delivery_integrity_hash r \<and> authorship_of binds (ap_job_id r) seller_hex g = Inr tuple \<and>
          schnorr_ok c (cpb_tuple_signature binds) (tuple_digest_bytes c tuple) seller_hex)"

lemma cosig_ok:
  assumes "cosig_stage c auth pre sig contribution = Inr ()"
  shows "schnorr_ok c sig (digest_bytes c pre) (seller auth) \<and>
    (\<forall>cc. contribution = Some cc \<longrightarrow> schnorr_ok c (tuple_signature_hex cc) (tuple_digest cc) (seller auth))"
  using assms
  by (auto simp: cosig_stage_def verify_seller_prepay_cosig_def verify_schnorr_hex_def map_err_def
      split: sum.splits if_splits option.splits elim!: try_bind_InrE)

lemma authorship_ok:
  assumes "exec (contribution_stage c ops pv r h d) s = (Inr cc, t)" and "\<forall>x. cc = Some x \<longrightarrow> schnorr_ok c (tuple_signature_hex x) (tuple_digest x) h"
    and "delivery_integrity_hash key = ap_delivery_integrity_hash r" and "exec (delivery_stage ops d key) u = (Inr (), v)"
  shows "authorship_checked c r h"
proof (cases "ap_contribution r")
  case (Some binds)
  then obtain g tuple where g: "d = Some g" "authorship_of binds (ap_job_id r) h g = Inr tuple"
      "cc = Some \<lparr>tuple_digest = tuple_digest_bytes c tuple, tuple_signature_hex = cpb_tuple_signature binds\<rparr>"
    using assms(1) by (auto simp: contribution_stage_def split: prod.splits sum.splits option.splits)
  then show ?thesis
    using Some assms(2,3) delivery_stage_ok [OF assms(4) [unfolded g(1)]] by (auto simp: authorship_checked_def)
qed (simp add: authorship_checked_def)

lemma verify_ok:
  assumes "exec (verify_stage c ops r pv d g kind) s = (Inr k, t)" and "delivery_of ops pv r = Inr (g, kind)" and "derived_for ops r = Inr d"
  shows "ck_key k = with_payment_id (ap_payment_id r) (dp_key d) \<and> ck_private k = pv \<and> ck_kind k = kind \<and>
    (\<exists>pre. receipt_preimage_bound (ck_key k) (buyer (ck_authority k)) (dp_seller_nostr d) kind pv = Inr pre \<and>
      schnorr_ok c (ap_seller_signature r) (digest_bytes c pre) (dp_seller_nostr d)) \<and>
    authorship_checked c r (dp_seller_nostr d) \<and> artifact_checked ops pv r"
proof -
  let ?key = "with_payment_id (ap_payment_id r) (dp_key d)"
  have h: "delivery_integrity_hash ?key = ap_delivery_integrity_hash r" using derive_hash assms(3) by (simp add: derived_for_def)
  from assms(1) obtain who u where who: "exec (buyer_key ops) s = (Inr who, u)"
    and 1: "exec (pay_try (contribution_stage c ops pv r (dp_seller_nostr d) g) (\<lambda>contribution.
      pay_try (pay_lift (map_err PayInput (receipt_preimage_bound ?key who (dp_seller_nostr d) kind pv))) (\<lambda>pre.
      pay_try (pay_lift (cosig_stage c \<lparr>buyer = who, seller = dp_seller_nostr d\<rparr> pre (ap_seller_signature r) contribution)) (\<lambda>_.
      pay_try (delivery_stage ops g ?key) (\<lambda>_.
      pay_try (sentinel_stage ops r g) (\<lambda>_.
        Done (Inr \<lparr>ck_key = ?key, ck_terms = dp_terms d, ck_plan = dp_plan d, ck_authority = \<lparr>buyer = who, seller = dp_seller_nostr d\<rparr>,
                   ck_private = pv, ck_kind = kind\<rparr>))))))) u = (Inr k, t)"
    unfolding verify_stage_def Let_def by (rule exec_try_Inr)
  from 1 obtain cc u1 where cc: "exec (contribution_stage c ops pv r (dp_seller_nostr d) g) u = (Inr cc, u1)"
    and 2: "exec (pay_try (pay_lift (map_err PayInput (receipt_preimage_bound ?key who (dp_seller_nostr d) kind pv))) (\<lambda>pre.
      pay_try (pay_lift (cosig_stage c \<lparr>buyer = who, seller = dp_seller_nostr d\<rparr> pre (ap_seller_signature r) cc)) (\<lambda>_.
      pay_try (delivery_stage ops g ?key) (\<lambda>_.
      pay_try (sentinel_stage ops r g) (\<lambda>_.
        Done (Inr \<lparr>ck_key = ?key, ck_terms = dp_terms d, ck_plan = dp_plan d, ck_authority = \<lparr>buyer = who, seller = dp_seller_nostr d\<rparr>,
                   ck_private = pv, ck_kind = kind\<rparr>)))))) u1 = (Inr k, t)"
    by (rule exec_try_Inr)
  from 2 obtain pre u3 where pre: "receipt_preimage_bound ?key who (dp_seller_nostr d) kind pv = Inr pre"
    and sig: "cosig_stage c \<lparr>buyer = who, seller = dp_seller_nostr d\<rparr> pre (ap_seller_signature r) cc = Inr ()"
    and del: "exec (delivery_stage ops g ?key) u1 = (Inr (), u3)" and sen: "exec (sentinel_stage ops r g) u3 = (Inr (), t)"
    and k: "k = \<lparr>ck_key = ?key, ck_terms = dp_terms d, ck_plan = dp_plan d, ck_authority = \<lparr>buyer = who, seller = dp_seller_nostr d\<rparr>,
                   ck_private = pv, ck_kind = kind\<rparr>"
    by (auto simp: map_err_def split: sum.splits prod.splits)
  from cosig_ok [OF sig] have ok: "schnorr_ok c (ap_seller_signature r) (digest_bytes c pre) (dp_seller_nostr d)"
    and cs: "\<forall>x. cc = Some x \<longrightarrow> schnorr_ok c (tuple_signature_hex x) (tuple_digest x) (dp_seller_nostr d)" by simp_all
  show ?thesis using pre ok authorship_ok [OF cc cs h del] artifact_ok [OF assms(2) h del sen] by (simp add: k)
qed

lemma check_ok:
  assumes "exec (check_payment c ops r) s = (Inr k, t)"
  shows "\<not> ap_is_free r \<and> entry_checks r = Inr () \<and> (ap_private_evidence r = None \<longrightarrow> ck_private k = None) \<and>
    (\<exists>d pre. derived_for ops r = Inr d \<and> ck_key k = with_payment_id (ap_payment_id r) (dp_key d) \<and>
      receipt_preimage_bound (ck_key k) (buyer (ck_authority k)) (dp_seller_nostr d) (ck_kind k) (ck_private k) = Inr pre \<and>
      schnorr_ok c (ap_seller_signature r) (digest_bytes c pre) (dp_seller_nostr d) \<and>
      authorship_checked c r (dp_seller_nostr d) \<and> artifact_checked ops (ck_private k) r)"
proof -
  from assms obtain pv d g kind u where "ap_private_evidence r = None \<longrightarrow> pv = None" "\<not> ap_is_free r" "entry_checks r = Inr ()"
    and d: "derived_for ops r = Inr d" and g: "delivery_of ops pv r = Inr (g, kind)"
    and v: "exec (verify_stage c ops r pv d g kind) u = (Inr k, t)"
    unfolding check_payment_def derived_for_def [symmetric] by (auto split: if_splits option.splits sum.splits prod.splits)
  then show ?thesis using verify_ok [OF v g d] by auto
qed

text \<open>C3. A payment that succeeds was checked: it is a priced trade; the buyer's hash is the advertised
  commit and a contribution carries its binds; the receipt preimage rebuilt from the derived payment
  key carries the claimed seller's signature; and the artifact is the one the signature covers. A
  commit was fetched at exactly the paid hash and, for a job from scratch, its tree holds the
  sentinel of this job; an inline answer has the paid digest. The attempt is the one the key of
  the request determines.\<close>

theorem paid_after_every_check:
  assumes "exec (authorize_pay K ops p r) s = (Inr out, t)"
  shows "\<not> ap_is_free r \<and> entry_checks r = Inr () \<and>
    (\<exists>d pre who kind pv. derived_for ops r = Inr d \<and> apo_attempt_id out = Payment.attempt_id (pc_crypto K) (dp_key d) \<and>
      receipt_preimage_bound (with_payment_id (ap_payment_id r) (dp_key d)) who (dp_seller_nostr d) kind pv = Inr pre \<and>
      schnorr_ok (pc_crypto K) (ap_seller_signature r) (digest_bytes (pc_crypto K) pre) (dp_seller_nostr d) \<and>
      (ap_private_evidence r = None \<longrightarrow> pv = None) \<and> authorship_checked (pc_crypto K) r (dp_seller_nostr d) \<and> artifact_checked ops pv r)"
proof -
  obtain k u where k: "exec (check_payment (pc_crypto K) ops r) s = (Inr k, u)" and pay: "exec (pay_checked K ops p r k) u = (Inr out, t)"
    using assms unfolding authorize_pay_def by (elim exec_try_Inr)
  have "apo_attempt_id out = Payment.attempt_id (pc_crypto K) (ck_key k)"
    using pay unfolding pay_checked_def Let_def by (auto simp del: exec_pay_try elim!: exec_try_Inr)
  then show ?thesis using check_ok [OF k] by auto blast+
qed

section \<open>Completing the lock of a turn\<close>

lemma turn_journal_refuses:
  assumes "committed j = l # ls" and "dec_record codec l = Inr rec" and "rec_key rec \<noteq> key"
    and "complete_recovered_locked c (fs_ops codec) E key terms auth (j, w) = (x, j', w')"
  shows "\<exists>e. x = Inl e"
proof -
  have "\<exists>e. fs_replay codec (j\<lparr>guard_key := key\<rparr>) = Inl e"
    using assms(1-3) by (simp add: fs_replay_def)
  then show ?thesis
    using assms(4)
    by (auto simp: complete_recovered_locked_def open_journal_def on_journal_def fs_ops_def fs_lock_def st_bind_def st_lift_def map_err_def
        split: sum.splits option.splits prod.splits)
qed

text \<open>A run that cannot succeed while the payment journals are the given ones.\<close>

definition refuses :: "(string \<Rightarrow> 'b fs_journal) \<Rightarrow> ('l, 'b, 'h, 'w, 'a) pay_run \<Rightarrow> bool" where
  "refuses J p \<longleftrightarrow> (\<forall>s x t. pay_journals s = J \<longrightarrow> exec p s = (x, t) \<longrightarrow> (\<exists>e. x = Inl e))"

lemma refuses_later:
  assumes "\<And>s x t. exec p s = (x, t) \<Longrightarrow> pay_journals t = pay_journals s" and "\<And>x. refuses J (k x)"
  shows "refuses J (pay_try p k)"
  using assms unfolding refuses_def by (fastforce split: prod.splits sum.splits)

lemma refuses_calm: "calm p \<Longrightarrow> (\<And>x. refuses J (k x)) \<Longrightarrow> refuses J (pay_try p k)"
  by (rule refuses_later) (auto simp: money_of_def dest: calmD)

lemma refuses_here: "refuses J p \<Longrightarrow> refuses J (pay_try p k)"
  unfolding refuses_def by (fastforce split: prod.splits sum.splits)

lemma refuses_reserve: "(\<And>x. refuses J (k x)) \<Longrightarrow> refuses J (pay_try (gate_reserve K p a n) k)"
  by (rule refuses_later) (auto simp: gate_reserve_def split: prod.splits)

lemma refuses_bound: "refuses J (k d) \<Longrightarrow> refuses J (pay_try (pay_lift (Inr d)) k)"
  by (simp add: refuses_def)

lemma refuses_attempt:
  assumes "\<And>w x j w'. m (J a, w) = (x, j, w') \<Longrightarrow> \<exists>e. x = Inl e"
  shows "refuses J (on_attempt a m)"
  using assms unfolding refuses_def by (fastforce simp: on_attempt_def map_err_def split: prod.splits sum.splits)

text \<open>C36. The lock of a later turn of a session cannot be completed. \<open>authorize_pay\<close> writes the payment id of a
  turn into the key of every record of its journal, while the completion derives the key without
  one; the attempt id does not cover the payment id, so the completion opens that same journal and
  its replay rejects the first record. Whatever the home, the operator's completion of a payment
  whose journal begins with a record that has a payment id fails.\<close>

theorem turn_lock_cannot_be_completed:
  assumes "exec (complete_recovered_locked_async K ops p r) s = (x, t)"
    and "derive_payment ops (cl_job_id r) (cl_result_id r) (cl_delivery_integrity_hash r) (cl_job_hash r)
      (cl_seller_pubkey r) (cl_amount_sats r) (cl_accepted_mints r) (cl_realized_mint r) (cl_creq_hash r) = Inr d"
    and "committed (pay_journals s (Payment.attempt_id (pc_crypto K) (dp_key d))) = l # ls"
    and "dec_record (pc_journal K) l = Inr rec" and "PaymentKey.payment_id (rec_key rec) = Some turn"
  shows "\<exists>e. x = Inl e"
proof -
  have "PaymentKey.payment_id (dp_key d) = None"
    using assms(2) by (auto simp: derive_payment_def PaymentKey_new_def Let_def elim!: try_bind_InrE)
  then have ne: "rec_key rec \<noteq> dp_key d" using assms(5) by auto
  have key: "calm (buyer_key ops)" unfolding buyer_key_def by (intro calm_steps)
  have at: "refuses (pay_journals s) (on_attempt (Payment.attempt_id (pc_crypto K) (dp_key d))
      (complete_recovered_locked (pc_crypto K) (fs_ops (pc_journal K)) E (dp_key d) terms auth))" for E terms auth
    by (rule refuses_attempt) (rule turn_journal_refuses [OF assms(3,4) ne])
  have "refuses (pay_journals s) (complete_recovered_locked_async K ops p r)"
    unfolding complete_recovered_locked_async_def assms(2) Let_def
    by (simp only: split: if_split, intro conjI impI, simp add: refuses_def)
       (rule refuses_bound; intro refuses_calm [OF calm_lift] refuses_calm [OF key] refuses_calm [OF calm_outside] refuses_reserve refuses_here [OF at])
  then show ?thesis using assms(1) unfolding refuses_def by blast
qed

section \<open>A concrete home\<close>

text \<open>A home whose mints price every hop quote higher than the one before: the world counts the quotes.\<close>

definition demo_codecs :: "(LedgerRecord, PaymentRecord, HopRecord) pay_codecs" where
  "demo_codecs = \<lparr>pc_crypto = \<lparr>json_text = (\<lambda>_. []), sha256 = (\<lambda>_. ''a1''), schnorr_ok = (\<lambda>_ _ _. True)\<rparr>,
     pc_enc = id, pc_dec = Inr, pc_hop = plain_hop_codec, pc_journal = plain_codec\<rparr>"

definition rising_quotes :: "nat quote_wallets" where
  "rising_quotes = \<lparr>qw_source_mint = ''https://a.org'', qw_target_mint = ''https://c.org'',
     qw_mint_quote = (\<lambda>_ w. (Inr (''q'', ''lnbc''), w)),
     qw_melt_quote = (\<lambda>_ w. (Inr (''m'', 21, if w = 0 then 2 else 40), w + 1)),
     qw_input_fee_ceiling = (\<lambda>w. (Inr 1, w)), qw_total_balance = (\<lambda>w. (Inr 1000, w))\<rparr>"

definition paying_mints :: "nat HopEffects" where
  "paying_mints = \<lparr>e_melt_leg = (\<lambda>_ w. (Inr MeltUnpaid, w)), e_mint_leg = (\<lambda>_ w. (Inr MintPaid, w)),
     e_target_invoice = (\<lambda>_ w. (Inr (MintUnpaid, ''lnbc''), w)), e_supersede_melt_quote = (\<lambda>_ w. (Inl HopPanic, w)),
     e_require_source_covers = (\<lambda>_ w. (Inr (), w)), e_melt = (\<lambda>_ w. (Inr 40, w)), e_mint = (\<lambda>_ n w. (Inr n, w))\<rparr>"

definition demo_job_hash :: string where "demo_job_hash = replicate 64 CHR ''b''"
definition demo_commit :: string where "demo_commit = replicate 40 CHR ''c''"

definition paying_effects :: "nat PaymentEffects" where
  "paying_effects = \<lparr>lock_or_reconcile = (\<lambda>_ t w. (Inr \<lparr>tok_value = Inr (t_amount t), tok_mint = Inr (t_mint t), tok_unit = Some (t_unit t)\<rparr>, w)),
     verify_payment = (\<lambda>_ t _ w. (Inr \<lparr>v_mint = t_mint t, v_amount = t_amount t, v_unit = t_unit t, proof_ys = []\<rparr>, w)),
     send_payment = (\<lambda>_ _ _ _ _ w. (Inr demo_sent, w)),
     publish_receipt = (\<lambda>k _ w. (Inr \<lparr>ev_receipt_id = ''rcpt'', author = ''buyer'',
       preimage = receipt_preimage_for k ''buyer'' ''seller'' DeliveryKind.Inline, seller_signature = ''s'', buyer_signature = ''b'',
       ev_relay_success = [''relay''], relay_failure = None\<rparr>, w)),
     assert_locked_token_unspent = (\<lambda>_ t w. (Inr \<lparr>tok_value = Inr (t_amount t), tok_mint = Inr (t_mint t), tok_unit = Some (t_unit t)\<rparr>, w))\<rparr>"

definition demo_ops :: "(string, unit, nat) pay_ops" where
  "demo_ops = \<lparr>po_urls = plain_urls, po_mint_text = id, po_default_mint = ''https://a.org'', po_allow_real_mints = True,
     po_policy = None, po_nostr_key = Inr, po_cashu_key = Inr,
     po_validate_private = (\<lambda>_ _ w. (Inl PayPanic, w)), po_load_bind = (\<lambda>_ w. (Inr None, w)),
     po_secret_key = (\<lambda>w. (Inr ''buyer'', w)), po_public_key = Inr, po_result_hash = (\<lambda>_. demo_commit),
     po_verify_contribution = (\<lambda>_ _ _ _ w. (Inr (), w)), po_fetch = (\<lambda>d w. (Inr (gd_commit_oid d), w)),
     po_read_sentinel = (\<lambda>_ w. (Inr None, w)),
     po_hop_wallets = \<lparr>sw_open = (\<lambda>s t w. (Inr (s, t), w)), sw_recover = (\<lambda>_ w. (Inr None, w))\<rparr>,
     po_quotes = (\<lambda>_ _. rising_quotes), po_fee_buffer = 1, po_hop_effects = (\<lambda>_ _. paying_mints),
     po_open_wallet = (\<lambda>_ w. (Inr (), w)), po_spawn = (\<lambda>w. (Inr (), w)), po_preflight = (\<lambda>_ w. (Inr 0, w)),
     po_journal_dir = (\<lambda>w. (Inr (), w)), po_refusal_written = (\<lambda>_. True), po_payment_effects = (\<lambda>_ _ _. paying_effects)\<rparr>"

definition demo_request :: "unit AuthorizePayRequest" where
  "demo_request = \<lparr>ap_private_evidence = None, ap_job_id = ''job'', ap_payment_id = None, ap_result_id = ''result'',
     ap_job_class = FromScratch, ap_delivery_integrity_hash = demo_commit, ap_job_hash = demo_job_hash,
     ap_seller_pubkey = ''seller'', ap_amount_sats = 21, ap_repo = [], ap_branch = [], ap_commit_oid = demo_commit,
     ap_inline_answer = Some ''42'', ap_seller_signature = ''sig'', ap_creq_hash = None, ap_accepted_mints = [''https://c.org''],
     ap_realized_mint = None, ap_contribution = None, ap_is_free = False\<rparr>"

definition demo_home :: "hop_fault option list \<Rightarrow> (LedgerRecord, PaymentRecord, HopRecord, nat) pay_state" where
  "demo_home fs = \<lparr>spend_ledger = None, pay_gates = (\<lambda>_. demo_gate), spend_io = io_ok, clock_secs = 7,
     hop_home = \<lparr>hop_files = [], hop_faults = fs, hop_world = 0, hop_log = (\<lambda>_. [])\<rparr>,
     pay_journals = (\<lambda>_. empty_journal), sentinel_refusals = (\<lambda>_. None)\<rparr>"

definition demo_terms' :: PaymentTerms where
  "demo_terms' = \<lparr>t_mint = ''https://c.org'', t_amount = 21, t_unit = ''sat'', seller_nostr_pubkey = ''seller'', seller_p2pk_lock = ''02seller''\<rparr>"

definition demo_key' :: PaymentKey where
  "demo_key' = PaymentKey_new ''job'' ''result'' demo_commit demo_job_hash demo_terms' None"

definition demo_checked :: "string checked_pay" where
  "demo_checked = \<lparr>ck_key = demo_key', ck_terms = demo_terms', ck_plan = Hop ''https://a.org'' ''https://c.org'',
     ck_authority = \<lparr>buyer = ''buyer'', seller = ''seller''\<rparr>, ck_private = None, ck_kind = DeliveryKind.Inline\<rparr>"

lemma demo_pay_plan: "plan_payment plain_urls ''https://a.org'' [''https://c.org''] True = Inr (Hop ''https://a.org'' ''https://c.org'')"
  by code_simp

lemma demo_hashes:
  "DeliveryIntegrityHash_from_hex demo_commit = Inr demo_commit" "JobHash_from_hex demo_job_hash = Inr demo_job_hash"
  "is_blank demo_commit = False"
  by code_simp+

lemma demo_derive:
  "derive_payment demo_ops ''job'' ''result'' demo_commit demo_job_hash ''seller'' 21 [''https://c.org''] None None =
     Inr \<lparr>dp_terms = demo_terms', dp_key = demo_key', dp_seller_nostr = ''seller'', dp_plan = Hop ''https://a.org'' ''https://c.org''\<rparr>"
  by (simp add: derive_payment_def demo_hashes demo_pay_plan as_input_def JobId_new_def ResultId_new_def nonempty_def
      demo_ops_def demo_terms'_def demo_key'_def map_err_def is_blank_def trim_def Let_def)

lemma demo_pre:
  "receipt_preimage_bound (with_payment_id None demo_key') ''buyer'' ''seller'' DeliveryKind.Inline None =
     Inr (receipt_preimage_for demo_key' ''buyer'' ''seller'' DeliveryKind.Inline)"
  by (simp add: receipt_preimage_bound_def with_payment_id_def receipt_preimage_for_def demo_key'_def PaymentKey_new_def)

lemma demo_check: "exec (check_payment (pc_crypto demo_codecs) demo_ops demo_request) s = (Inr demo_checked, s)"
proof -
  have ops: "po_secret_key demo_ops w = (Inr ''buyer'', w)" "po_public_key demo_ops k = Inr k" "po_result_hash demo_ops x = demo_commit" for w k x
    by (simp_all add: demo_ops_def)
  have cosig: "cosig_stage (pc_crypto demo_codecs) auth pre sig None = Inr ()" for auth pre sig
    by (simp add: cosig_stage_def verify_seller_prepay_cosig_def verify_schnorr_hex_def demo_codecs_def map_err_def)
  show ?thesis
    by (simp add: check_payment_def verify_stage_def Let_def demo_request_def demo_derive entry_checks_def demo_hashes delivery_of_def ops buyer_key_def
        contribution_stage_def demo_pre cosig delivery_stage_def sentinel_stage_def map_err_def put_world_def demo_checked_def)
       (simp add: with_payment_id_def demo_key'_def PaymentKey_new_def)
qed

lemma demo_attempt: "Payment.attempt_id (pc_crypto demo_codecs) k = ''a1''"
  by (simp add: Payment.attempt_id_def demo_codecs_def)

definition demo_pairing :: "u64 \<Rightarrow> u64 \<Rightarrow> HopJournal" where
  "demo_pairing fee cost = \<lparr>hj_attempt_id = ''a1'', hj_source_mint = ''https://a.org'', hj_melt_quote_id = ''m'',
     hj_target_mint = ''https://c.org'', hj_mint_quote_id = ''q'', hj_delivered_sats = 21, hj_planned_cost = cost,
     hj_fee_reserve = fee, hj_input_fee = 1\<rparr>"

lemma demo_pairing_cost [simp]: "hj_planned_cost (demo_pairing fee cost) = cost"
  by (simp add: demo_pairing_def)

lemma demo_quotes:
  "plan_quotes rising_quotes 1 ''a1'' 21 0 = (Inr (demo_pairing 2 26), 1)"
  "plan_quotes rising_quotes 1 ''a1'' 21 (Suc 0) = (Inr (demo_pairing 40 102), 2)"
  by (simp_all add: plan_quotes_def rising_quotes_def st_bind_def st_lift_def raise_melt_quote_def require_source_covers_def
      planned_cost_def authorized_hop_cost_def checked_mul_def checked_add_def is_blank_def trim_def map_err_def ok_or_def Let_def
      demo_pairing_def)

lemma demo_open: "open_hop_wallets (po_hop_wallets demo_ops) ''https://a.org'' ''https://c.org'' = call_mint (\<lambda>w. (Inr (''https://a.org'', ''https://c.org''), w))"
proof -
  have "is_nostr_scheme ''https://a.org'' = Inr False" "is_nostr_scheme ''https://c.org'' = Inr False" by code_simp+
  then show ?thesis by (simp add: open_hop_wallets_def demo_ops_def)
qed

lemma demo_ops_simps:
  "po_mint_text demo_ops = id" "po_quotes demo_ops x y = rising_quotes" "po_fee_buffer demo_ops = 1"
  "po_hop_effects demo_ops x y = paying_mints" "po_open_wallet demo_ops u w = (Inr (), w)" "po_spawn demo_ops w = (Inr (), w)"
  "po_preflight demo_ops n w = (Inr 0, w)" "po_journal_dir demo_ops w = (Inr (), w)" "po_payment_effects demo_ops a b c = paying_effects"
  "pc_enc demo_codecs = id" "pc_dec demo_codecs = Inr" "pc_hop demo_codecs = plain_hop_codec" "pc_journal demo_codecs = plain_codec"
  by (simp_all add: demo_ops_def demo_codecs_def)

lemma demo_request_simps: "ap_amount_sats demo_request = 21" "ap_seller_signature demo_request = ''sig''"
  by (simp_all add: demo_request_def)

lemma demo_hop_stage:
  assumes "hop_home s = \<lparr>hop_files = [], hop_faults = fs, hop_world = w, hop_log = (\<lambda>_. [])\<rparr>" and "fs = [] \<or> hd fs = None"
    and "plan_quotes rising_quotes 1 ''a1'' 21 w = (Inr j, w')"
  shows "exec (hop_stage demo_codecs demo_ops demo_checked ''a1'' 21) s =
    (Inr (Some (paying_mints, j)), s\<lparr>hop_home := \<lparr>hop_files = [], hop_faults = tl fs, hop_world = w', hop_log = (\<lambda>_. [])\<rparr>\<rparr>)"
  using assms
  by (cases fs) (auto simp: hop_stage_def demo_checked_def demo_ops_simps wallet_open_mint_url_def demo_terms'_def demo_open
      call_mint_def journalled_pairing_def hop_try_def journal_read_def hop_replay_def draw_fault_def file_of_def
      decode_records_def map_err_def put_world_def)

definition lost_home :: "(LedgerRecord, PaymentRecord, HopRecord, nat) pay_state" where
  "lost_home = (demo_home [])\<lparr>spend_ledger := Some [Text \<lparr>amount_sats = 26, credit_sats = 0, attempt_id = Some ''a1'', recorded_at = 7\<rparr>],
     pay_gates := (\<lambda>_. demo_gate)(0 := demo_gate\<lparr>spent := 26, counted_attempts := {''a1''}\<rparr>),
     hop_home := \<lparr>hop_files = [], hop_faults = [], hop_world = 1, hop_log = (\<lambda>_. [])\<rparr>\<rparr>"

lemma demo_first_reserve:
  "reserve id Inr io_ok 7 26 (Some ''a1'') (demo_gate, None) =
     (Inr (), demo_gate\<lparr>spent := 26, counted_attempts := {''a1''}\<rparr>,
      Some [Text \<lparr>amount_sats = 26, credit_sats = 0, attempt_id = Some ''a1'', recorded_at = 7\<rparr>])"
  by (simp add: reserve_def gate_ops demo_gate_def io_ok_def fold_ledger_def FoldedSpent_default_def)

lemma lost_run:
  "exec (authorize_pay demo_codecs demo_ops 0 demo_request) (demo_home [None, None, Some (HopLost ''disk'')]) =
     (Inl (PayHop (HopJournalError ''disk'')), lost_home)"
proof -
  note hop = demo_hop_stage [where s = "demo_home [None, None, Some (HopLost ''disk'')]", OF _ _ demo_quotes(1), unfolded demo_home_def, simplified]
  show ?thesis
    by (simp add: authorize_pay_def demo_check pay_checked_def Let_def demo_attempt demo_request_simps hop demo_home_def
        demo_ops_simps put_world_def map_err_def cap_charge_def demo_pairing_def gate_reserve_def demo_first_reserve
        attempt_pay_def run_hop_def hop_try_def journal_read_def hop_replay_def draw_fault_def file_of_def decode_records_def
        journal_append_def hop_append_sync_def lost_home_def)
qed

lemma demo_second_reserve:
  "reserve id Inr io_ok 7 102 (Some ''a1'') (demo_gate\<lparr>spent := 26, counted_attempts := {''a1''}\<rparr>,
      Some [Text \<lparr>amount_sats = 26, credit_sats = 0, attempt_id = Some ''a1'', recorded_at = 7\<rparr>]) =
     (Inr (), demo_gate\<lparr>spent := 26, counted_attempts := {''a1''}\<rparr>,
      Some [Text \<lparr>amount_sats = 26, credit_sats = 0, attempt_id = Some ''a1'', recorded_at = 7\<rparr>])"
  by (simp add: reserve_def gate_ops demo_gate_def io_ok_def fold_ledger_def FoldedSpent_default_def fold_record_def apply_amounts_def
      saturating_add_def saturating_sub_def)

lemma demo_credit:
  "credit_reserve id Inr io_ok 7 ''a1:hop-fee-reconcile'' 40 (demo_gate\<lparr>spent := 26, counted_attempts := {''a1''}\<rparr>,
      Some [Text \<lparr>amount_sats = 26, credit_sats = 0, attempt_id = Some ''a1'', recorded_at = 7\<rparr>]) =
     (Inr (), demo_gate\<lparr>spent := 0, counted_attempts := {''a1:hop-fee-reconcile'', ''a1''}\<rparr>,
      Some [Text \<lparr>amount_sats = 26, credit_sats = 0, attempt_id = Some ''a1'', recorded_at = 7\<rparr>,
        Text \<lparr>amount_sats = 0, credit_sats = 40, attempt_id = Some ''a1:hop-fee-reconcile'', recorded_at = 7\<rparr>])"
  by (simp add: credit_reserve_def gate_ops demo_gate_def io_ok_def fold_ledger_def FoldedSpent_default_def fold_record_def apply_amounts_def
      saturating_add_def saturating_sub_def)

lemma demo_hop:
  "exec (run_hop plain_hop_codec paying_mints (demo_pairing 40 102)) \<lparr>hop_files = [], hop_faults = [], hop_world = 2, hop_log = (\<lambda>_. [])\<rparr> =
     (Inr \<lparr>hs_minted_sats = 21, recovered_strand = False, unused_fee_reserve_sats = 40\<rparr>,
      \<lparr>hop_files = [(''a1'', \<lparr>hf_lines = [HPlanned (demo_pairing 40 102), HSettled ''a1'' 21], hf_torn = False\<rparr>)],
       hop_faults = [], hop_world = 2, hop_log = (\<lambda>_. [])(''a1'' := [Asked ''m'' MeltUnpaid, Melted ''m''])\<rparr>)"
  by (simp add: run_hop_def resume_hop_def melt_loop.simps mint_stage_def hop_try_def journal_read_def journal_append_def
      hop_replay_def hop_append_sync_def draw_fault_def file_of_def put_file_def decode_records_def append_allowed_def
      require_no_active_planned_def active_melt_def ask_melt_def do_melt_def call_mint_def log_event_def Let_def
      plain_hop_codec_def paying_mints_def demo_pairing_def map_err_def reserved_ln_fee_sats_def saturating_sub_def)

definition demo_receipt :: ReceiptRecord where
  "demo_receipt = \<lparr>receipt_id = ''rcpt'', receipt_kind = RECEIPT_EVENT_KIND\<rparr>"

lemma demo_advance:
  "\<exists>j. advance (pc_crypto demo_codecs) (fs_ops plain_codec) paying_effects demo_key' demo_terms' \<lparr>buyer = ''buyer'', seller = ''seller''\<rparr>
      (empty_journal, w) = (Inr (Closed ''a1'' demo_receipt), j, w) \<and> committed j \<noteq> []"
proof -
  have opened: "open_journal (fs_ops plain_codec) demo_key' demo_terms' (empty_journal, w) = (Inr None, empty_journal\<lparr>guard_key := demo_key'\<rparr>, w)"
    by (simp add: open_journal_def on_journal_def fs_ops_def fs_lock_def fs_replay_def fs_sync_replay_def empty_journal_def
          fold_records_def st_bind_def st_lift_def require_key_matches_terms_def demo_key'_def PaymentKey_new_def)
  have receipt: "authority_verify (pc_crypto demo_codecs) \<lparr>buyer = ''buyer'', seller = ''seller''\<rparr> \<lparr>ev_receipt_id = ''rcpt'', author = ''buyer'',
       preimage = receipt_preimage_for demo_key' ''buyer'' ''seller'' DeliveryKind.Inline, seller_signature = ''s'', buyer_signature = ''b'',
       ev_relay_success = [''relay''], relay_failure = None\<rparr> demo_key' = Inr demo_receipt"
    by (simp add: authority_verify_def verify_schnorr_hex_def require_receipt_binds_key_def receipt_preimage_for_def demo_codecs_def demo_receipt_def)
  show ?thesis
    by (simp add: advance_def st_bind_def opened [unfolded demo_terms'_def empty_journal_def, simplified] intent_leg_def lock_leg_def send_leg_def receipt_leg_def demo_attempt
          close_leg_def drive_settlement_legs_def st_lift_def on_world_def append_transition_no_fault empty_journal_def paying_effects_def
          require_locked_matches_terms_def require_verified_matches_terms_def demo_terms'_def demo_sent_def receipt [unfolded demo_terms'_def]
          demo_receipt_def map_err_def)
qed

lemma retried_run:
  "\<exists>s. exec (authorize_pay demo_codecs demo_ops 0 demo_request) lost_home =
     (Inr \<lparr>apo_state = Closed ''a1'' demo_receipt, apo_attempt_id = ''a1'', apo_amount_sats = 21, apo_charged_sats = 102,
           apo_spent_total_sats = 0\<rparr>, s) \<and>
     Melted ''m'' \<in> set (hop_log (hop_home s) ''a1'') \<and> committed (pay_journals s ''a1'') \<noteq> []"
proof -
  note hop = demo_hop_stage [where s = lost_home, OF _ _ demo_quotes(2), unfolded lost_home_def demo_home_def, simplified]
  obtain j where j: "advance (pc_crypto demo_codecs) (fs_ops plain_codec) paying_effects demo_key' demo_terms' \<lparr>buyer = ''buyer'', seller = ''seller''\<rparr>
      (empty_journal, 2) = (Inr (Closed ''a1'' demo_receipt), j, 2)" "committed j \<noteq> []" using demo_advance [of 2] by blast
  have ck: "ck_key demo_checked = demo_key'" "ck_terms demo_checked = demo_terms'" "ck_authority demo_checked = \<lparr>buyer = ''buyer'', seller = ''seller''\<rparr>"
    by (simp_all add: demo_checked_def)
  show ?thesis
    using j(2)
    by (simp add: authorize_pay_def demo_check pay_checked_def Let_def demo_attempt demo_request_simps hop demo_home_def lost_home_def
        demo_ops_simps put_world_def map_err_def cap_charge_def gate_reserve_def demo_second_reserve
        attempt_pay_def demo_hop ck on_attempt_def j(1) gate_credit_def demo_credit gate_spent_def)
qed

section \<open>Properties\<close>

text \<open>C2. The processes of a home start with no journal of a hop or a payment. Whatever payments, operator
  completions and recovery sweeps they then start, however these interleave, stop half way, meet I/O
  faults and are run again: an attempt for which a melt was sent to a mint, or for which anything was
  written to a hop journal or a payment journal (the lock, the send and the receipt come after that),
  is counted by every fold of the spend ledger. Nothing moves before the budget was charged for it.\<close>

theorem nothing_is_spent_uncharged:
  fixes s0 s :: "('l, 'b, 'h, 'w) pay_state"
  assumes "codec_ok (pc_enc K) (pc_dec K)" and "hop_codec_ok (pc_hop K)" and "new_home base s0"
    and "reach (pay_program K U) (pay_env base) s0 ps s"
    and "(\<exists>q. Melted q \<in> set (hop_log (hop_home s) a)) \<or> hf_lines (file_of a (hop_home s)) \<noteq> [] \<or>
      committed (pay_journals s a) \<noteq> [] \<or> trailing (pay_journals s a) \<noteq> []"
  shows "a \<in> counted (pc_dec K) base (spend_ledger s)"
  using charged_reach [OF assms(1-4)] assms(5) by (auto simp: charged_home_def touched_def)

lemma demo_codecs_ok: "codec_ok (pc_enc demo_codecs) (pc_dec demo_codecs)" "hop_codec_ok (pc_hop demo_codecs)"
  by (simp_all add: demo_codecs_def codec_ok_def plain_hop_codec_ok)

lemma demo_home_new: "new_home None (demo_home fs)"
  by (simp add: new_home_def gates_ok_def demo_home_def demo_gate_def empty_journal_def)

text \<open>The home after the two runs of the example below.\<close>

definition retried_home :: "(LedgerRecord, PaymentRecord, HopRecord, nat) pay_state" where
  "retried_home = snd (exec (authorize_pay demo_codecs demo_ops 0 demo_request) lost_home)"

lemma retried:
  "fst (exec (authorize_pay demo_codecs demo_ops 0 demo_request) lost_home) =
     Inr \<lparr>apo_state = Closed ''a1'' demo_receipt, apo_attempt_id = ''a1'', apo_amount_sats = 21, apo_charged_sats = 102, apo_spent_total_sats = 0\<rparr>"
  "Melted ''m'' \<in> set (hop_log (hop_home retried_home) ''a1'')" "committed (pay_journals retried_home ''a1'') \<noteq> []"
  using retried_run unfolding retried_home_def by force+

lemma retried_reach:
  "\<exists>ps. reach (pay_program demo_codecs {demo_ops}) (pay_env None) (demo_home [None, None, Some (HopLost ''disk'')]) ps retried_home"
proof -
  let ?p = "pbind (authorize_pay demo_codecs demo_ops 0 demo_request) (\<lambda>x. Done (Paid x))"
  have p: "pay_program demo_codecs {demo_ops} ?p" by (simp add: pay_program.pay_run)
  note step = reach_exec [where starts = "pay_program demo_codecs {demo_ops}" and env = "pay_env None" and p = ?p, OF _ p]
  have "exec ?p (demo_home [None, None, Some (HopLost ''disk'')]) = (Paid (Inl (PayHop (HopJournalError ''disk''))), lost_home)"
    using lost_run by simp
  note first = step [OF reach.init this]
  obtain x where "exec ?p lost_home = (x, retried_home)"
    unfolding retried_home_def by (cases "exec (authorize_pay demo_codecs demo_ops 0 demo_request) lost_home") auto
  from step [OF first this] show ?thesis by blast
qed

theorem nothing_is_spent_uncharged_witness:
  "''a1'' \<in> counted Inr None (spend_ledger retried_home) \<and> Melted ''m'' \<in> set (hop_log (hop_home retried_home) ''a1'')"
proof -
  obtain ps where "reach (pay_program demo_codecs {demo_ops}) (pay_env None) (demo_home [None, None, Some (HopLost ''disk'')]) ps retried_home"
    using retried_reach by blast
  from nothing_is_spent_uncharged [OF demo_codecs_ok demo_home_new this, of "''a1''"] retried(2)
  show ?thesis by (auto simp: demo_ops_simps)
qed

theorem paid_after_every_check_witness:
  "derived_for demo_ops demo_request = Inr \<lparr>dp_terms = demo_terms', dp_key = demo_key', dp_seller_nostr = ''seller'',
      dp_plan = Hop ''https://a.org'' ''https://c.org''\<rparr> \<and> (\<exists>pv. artifact_checked demo_ops pv demo_request)"
proof -
  obtain out t where "exec (authorize_pay demo_codecs demo_ops 0 demo_request) lost_home = (Inr out, t)" using retried_run by blast
  from paid_after_every_check [OF this] show ?thesis
    using demo_derive by (auto simp: derived_for_def demo_request_def)
qed

theorem refusal_spends_nothing_witness:
  "pay_journals (snd (exec (authorize_pay demo_codecs demo_ops 0 (demo_request\<lparr>ap_is_free := True\<rparr>)) lost_home)) = pay_journals lost_home"
proof -
  have run: "exec (authorize_pay demo_codecs demo_ops 0 (demo_request\<lparr>ap_is_free := True\<rparr>)) lost_home =
      (Inl (PayInput ''free trade (payment=none): there is nothing to pay''), lost_home)"
    by (simp add: authorize_pay_def check_payment_def demo_request_def)
  show ?thesis using refusal_spends_nothing [OF run] by (simp add: run refused_by_money_def)
qed


definition locked_turn :: "(LedgerRecord, PaymentRecord, HopRecord, nat) pay_state" where
  "locked_turn = (demo_home [])\<lparr>pay_journals := (\<lambda>_. empty_journal\<lparr>committed :=
     [[\<lparr>rec_key = with_payment_id (Some ''turn2'') demo_key', rec_value = Intent ''a1''\<rparr>],
      [\<lparr>rec_key = with_payment_id (Some ''turn2'') demo_key', rec_value = Locked ''a1''\<rparr>]]\<rparr>)\<rparr>"

definition turn_completion :: CompleteLockedRequest where
  "turn_completion = \<lparr>cl_job_id = ''job'', cl_result_id = ''result'', cl_delivery_integrity_hash = demo_commit, cl_job_hash = demo_job_hash,
     cl_seller_pubkey = ''seller'', cl_amount_sats = 21, cl_seller_signature = ''sig'', cl_creq_hash = None,
     cl_accepted_mints = [''https://c.org''], cl_realized_mint = None\<rparr>"

theorem turn_lock_cannot_be_completed_witness:
  "\<exists>e. fst (exec (complete_recovered_locked_async demo_codecs demo_ops 0 turn_completion) locked_turn) = Inl e"
proof -
  obtain x t where run: "exec (complete_recovered_locked_async demo_codecs demo_ops 0 turn_completion) locked_turn = (x, t)" by fastforce
  have "derive_payment demo_ops (cl_job_id turn_completion) (cl_result_id turn_completion) (cl_delivery_integrity_hash turn_completion)
      (cl_job_hash turn_completion) (cl_seller_pubkey turn_completion) (cl_amount_sats turn_completion) (cl_accepted_mints turn_completion)
      (cl_realized_mint turn_completion) (cl_creq_hash turn_completion) =
     Inr \<lparr>dp_terms = demo_terms', dp_key = demo_key', dp_seller_nostr = ''seller'', dp_plan = Hop ''https://a.org'' ''https://c.org''\<rparr>"
    using demo_derive by (simp add: turn_completion_def)
  note derived = this
  have "committed (pay_journals locked_turn a) = [\<lparr>rec_key = with_payment_id (Some ''turn2'') demo_key', rec_value = Intent ''a1''\<rparr>] #
      [[\<lparr>rec_key = with_payment_id (Some ''turn2'') demo_key', rec_value = Locked ''a1''\<rparr>]]" for a
    by (simp add: locked_turn_def)
  from turn_lock_cannot_be_completed [OF run derived this, of "\<lparr>rec_key = with_payment_id (Some ''turn2'') demo_key', rec_value = Intent ''a1''\<rparr>"]
  show ?thesis by (simp add: run demo_ops_simps plain_codec_def with_payment_id_def)
qed

end
