(* ===== verification/Buyer_Ledger.thy ===== *)
theory Buyer_Ledger
  imports Prelude "HOL-Library.List_Lexorder"
begin

text \<open>
  The reservation ledger of the buyer: \<^verbatim>\<open>buyer/reservations.rs\<close> and the reservation half
  of \<^verbatim>\<open>buyer/store.rs\<close>. A table of the state database is an association list from its
  primary key to its row, in insertion order; a column that the schema's CHECK limits to labels is
  the datatype of those labels, and an \<open>INTEGER\<close> column is an integer in the range of
  \<open>i64\<close>. Each operation is one transaction on the table; a failure of SQLite, which leaves
  the tables as they were, is added where the operations are called.
\<close>

section \<open>Types\<close>

datatype ReservationState = Reserved | Spent | Released

fun ReservationState_as_str :: "ReservationState \<Rightarrow> string" where
  "ReservationState_as_str Reserved = ''reserved''"
| "ReservationState_as_str Spent = ''spent''"
| "ReservationState_as_str Released = ''released''"

definition ReservationState_parse :: "string \<Rightarrow> ReservationState option" where
  "ReservationState_parse raw =
     (if raw = ''reserved'' then Some Reserved
      else if raw = ''spent'' then Some Spent
      else if raw = ''released'' then Some Released
      else None)"

lemma ReservationState_parse_as_str [simp]: "ReservationState_parse (ReservationState_as_str s) = Some s"
  by (cases s) (simp_all add: ReservationState_parse_def)

datatype Ceiling = WalletCeiling

record MintCeiling =
  c_mint :: "string option"
  c_balance :: u64
  c_is_default :: bool

definition at_mint :: "string \<Rightarrow> u64 \<Rightarrow> bool \<Rightarrow> MintCeiling" where
  "at_mint mint balance is_default = \<lparr>c_mint = Some mint, c_balance = balance, c_is_default = is_default\<rparr>"

definition pooled :: "u64 \<Rightarrow> MintCeiling" where
  "pooled balance = \<lparr>c_mint = None, c_balance = balance, c_is_default = True\<rparr>"

datatype Reserved_outcome = ReservedNew u64 | ReservedIdempotent

datatype ReserveRefused =
    InsufficientAvailable u64 u64 Ceiling "string option"
  | AmountMismatch string u64 u64
  | AlreadySpentRefused string
  | ReserveStore string

datatype Released_outcome = Freed u64 | AlreadyReleased | WasSpent | NoReservation

datatype Converted = FromReserved | AlreadySpent | InsertedSpent | FromReleased

datatype JobDisposition = Payable | Dead | Paid

record ReconcileReport =
  rep_released :: "string list"
  rep_converted :: "string list"
  rep_kept :: "string list"
  rep_oldest_kept_age_secs :: "u64 option"

record AvailableBreakdown =
  br_available :: u64
  br_bound :: Ceiling

definition available_breakdown :: "u64 \<Rightarrow> u64 \<Rightarrow> AvailableBreakdown" where
  "available_breakdown balance reserved =
     \<lparr>br_available = word_of_int (max 0 (uint balance - uint reserved)), br_bound = WalletCeiling\<rparr>"

definition compute_available :: "u64 \<Rightarrow> u64 \<Rightarrow> u64" where
  "compute_available balance reserved = br_available (available_breakdown balance reserved)"

section \<open>The state database\<close>

record res_row =
  amount_sats :: int
  r_state :: ReservationState
  created_at_unix :: int
  updated_at_unix :: int
  source_mint :: "string option"

type_synonym res_table = "(string \<times> res_row) list"

datatype ReservationPin = Unpinned | DefaultPin | MintPin string

definition reserved_amounts :: "(res_row \<Rightarrow> bool) \<Rightarrow> res_table \<Rightarrow> int list" where
  "reserved_amounts p t = map (amount_sats \<circ> snd) (filter (\<lambda>(_, r). r_state r = Reserved \<and> p r) t)"

definition against :: "MintCeiling \<Rightarrow> res_row \<Rightarrow> bool" where
  "against ceiling r =
     (case c_mint ceiling of
        None \<Rightarrow> True
      | Some mint \<Rightarrow> source_mint r = Some mint \<or> (source_mint r = None \<and> c_is_default ceiling))"

definition sum_reserved :: "res_table \<Rightarrow> string + u64" where
  "sum_reserved t = try_bind (sql_sum (reserved_amounts (\<lambda>_. True) t)) (\<lambda>n. Inr (clamp_u64 n))"

definition sum_reserved_against :: "res_table \<Rightarrow> MintCeiling \<Rightarrow> string + u64" where
  "sum_reserved_against t ceiling =
     (if c_mint ceiling = None then sum_reserved t
      else try_bind (sql_sum (reserved_amounts (against ceiling) t)) (\<lambda>n. Inr (clamp_u64 n)))"

definition read_reservation :: "res_table \<Rightarrow> string \<Rightarrow> (ReservationState \<times> u64) option" where
  "read_reservation t job = map_option (\<lambda>r. (r_state r, clamp_u64 (amount_sats r))) (map_of t job)"

text \<open>\<open>UPDATE reservations SET state = ..., updated_at_unix = ... WHERE job_id = ...\<close>\<close>

definition set_state :: "string \<Rightarrow> ReservationState \<Rightarrow> int \<Rightarrow> res_table \<Rightarrow> res_table" where
  "set_state job st now t =
     (case map_of t job of
        None \<Rightarrow> t
      | Some r \<Rightarrow> AList.update job (r\<lparr>r_state := st, updated_at_unix := now\<rparr>) t)"

text \<open>The upsert of \<open>reserve_at\<close>: an existing row keeps its creation time.\<close>

definition upsert_reserved :: "string \<Rightarrow> u64 \<Rightarrow> string option \<Rightarrow> int \<Rightarrow> res_table \<Rightarrow> string + res_table" where
  "upsert_reserved job amount mint now t =
     (if as_i64 amount < 0 then Inl ''CHECK constraint failed: amount_sats >= 0''
      else Inr (AList.update job
        \<lparr>amount_sats = as_i64 amount, r_state = Reserved,
         created_at_unix = (case map_of t job of None \<Rightarrow> now | Some r \<Rightarrow> created_at_unix r),
         updated_at_unix = now, source_mint = mint\<rparr> t))"

section \<open>Operations\<close>

definition reserve_at ::
  "string \<Rightarrow> u64 \<Rightarrow> MintCeiling \<Rightarrow> int \<Rightarrow> res_table \<Rightarrow> (ReserveRefused + Reserved_outcome) \<times> res_table"
where
  "reserve_at job amount ceiling now t =
     (let fresh =
        (case sum_reserved_against t ceiling of
           Inl e \<Rightarrow> (Inl (ReserveStore e), t)
         | Inr reserved \<Rightarrow>
             (let breakdown = available_breakdown (c_balance ceiling) reserved
              in if amount > br_available breakdown
                 then (Inl (InsufficientAvailable amount (br_available breakdown) (br_bound breakdown) (c_mint ceiling)), t)
                 else (case upsert_reserved job amount (c_mint ceiling) now t of
                         Inl e \<Rightarrow> (Inl (ReserveStore e), t)
                       | Inr t' \<Rightarrow> (Inr (ReservedNew (br_available breakdown)), t'))))
      in case map_of t job of
           None \<Rightarrow> fresh
         | Some r \<Rightarrow>
             (case r_state r of
                Reserved \<Rightarrow>
                  if clamp_u64 (amount_sats r) \<noteq> amount
                  then (Inl (AmountMismatch job (clamp_u64 (amount_sats r)) amount), t)
                  else (Inr ReservedIdempotent,
                        if c_is_default ceiling \<and> c_mint ceiling \<noteq> None \<and> source_mint r = None
                        then AList.update job (r\<lparr>source_mint := c_mint ceiling\<rparr>) t else t)
              | Spent \<Rightarrow> (Inl (AlreadySpentRefused job), t)
              | Released \<Rightarrow> fresh))"

definition reserve :: "string \<Rightarrow> u64 \<Rightarrow> u64 \<Rightarrow> int \<Rightarrow> res_table \<Rightarrow> (ReserveRefused + Reserved_outcome) \<times> res_table" where
  "reserve job amount balance now t = reserve_at job amount (pooled balance) now t"

definition release :: "string \<Rightarrow> int \<Rightarrow> res_table \<Rightarrow> Released_outcome \<times> res_table" where
  "release job now t =
     (case read_reservation t job of
        None \<Rightarrow> (NoReservation, t)
      | Some (Released, _) \<Rightarrow> (AlreadyReleased, t)
      | Some (Spent, _) \<Rightarrow> (WasSpent, t)
      | Some (Reserved, amount) \<Rightarrow> (Freed amount, set_state job Released now t))"

definition convert_to_spent :: "string \<Rightarrow> u64 \<Rightarrow> int \<Rightarrow> res_table \<Rightarrow> (string + Converted) \<times> res_table" where
  "convert_to_spent job amount now t =
     (case read_reservation t job of
        Some (Spent, _) \<Rightarrow> (Inr AlreadySpent, t)
      | Some (Reserved, _) \<Rightarrow> (Inr FromReserved, set_state job Spent now t)
      | Some (Released, _) \<Rightarrow> (Inr FromReleased, set_state job Spent now t)
      | None \<Rightarrow>
          if as_i64 amount < 0 then (Inl ''CHECK constraint failed: amount_sats >= 0'', t)
          else (Inr InsertedSpent,
                AList.update job \<lparr>amount_sats = as_i64 amount, r_state = Spent, created_at_unix = now,
                  updated_at_unix = now, source_mint = None\<rparr> t))"

text \<open>The loop of \<open>reconcile\<close> over the sorted dispositions.\<close>

fun reconcile_one :: "int \<Rightarrow> string \<times> JobDisposition \<Rightarrow> ReconcileReport \<times> res_table \<Rightarrow> ReconcileReport \<times> res_table" where
  "reconcile_one now (job, disposition) (report, t) =
     (case read_reservation t job of
        None \<Rightarrow> (report, t)
      | Some (st, _) \<Rightarrow>
          (case (disposition, st) of
             (Dead, Reserved) \<Rightarrow>
               (report\<lparr>rep_released := rep_released report @ [job]\<rparr>, set_state job Released now t)
           | (Paid, Reserved) \<Rightarrow>
               (report\<lparr>rep_converted := rep_converted report @ [job]\<rparr>, set_state job Spent now t)
           | (Paid, Released) \<Rightarrow>
               (report\<lparr>rep_converted := rep_converted report @ [job]\<rparr>, set_state job Spent now t)
           | _ \<Rightarrow> (report\<lparr>rep_kept := rep_kept report @ [job]\<rparr>, t)))"

definition oldest_created :: "res_table \<Rightarrow> int option" where
  "oldest_created t =
     (case map (created_at_unix \<circ> snd) (filter (\<lambda>(_, r). r_state r = Reserved) t) of
        [] \<Rightarrow> None
      | c # cs \<Rightarrow> Some (foldl min c cs))"

definition empty_report :: ReconcileReport where
  "empty_report = \<lparr>rep_released = [], rep_converted = [], rep_kept = [], rep_oldest_kept_age_secs = None\<rparr>"

definition reconcile :: "(string \<times> JobDisposition) list \<Rightarrow> int \<Rightarrow> res_table \<Rightarrow> ReconcileReport \<times> res_table" where
  "reconcile dispositions now t =
     (case fold (reconcile_one now) dispositions (empty_report, t) of
        (report, t') \<Rightarrow>
          (report\<lparr>rep_oldest_kept_age_secs := map_option (\<lambda>c. clamp_u64 (now - c)) (oldest_created t')\<rparr>, t'))"

definition reserved_in_flight :: "res_table \<Rightarrow> string + u64" where
  "reserved_in_flight t = try_bind (sql_sum (reserved_amounts (\<lambda>_. True) t)) (\<lambda>n. Inr (clamp_u64 n))"

definition available :: "u64 \<Rightarrow> res_table \<Rightarrow> string + u64" where
  "available balance t = try_bind (reserved_in_flight t) (\<lambda>r. Inr (compute_available balance r))"

definition reserved_job_ids :: "res_table \<Rightarrow> string list" where
  "reserved_job_ids t = sort (map fst (filter (\<lambda>(_, r). r_state r = Reserved) t))"

definition reserved_ages :: "int \<Rightarrow> res_table \<Rightarrow> (string \<times> u64) list" where
  "reserved_ages now t =
     map (\<lambda>(job, r). (job, clamp_u64 (now - created_at_unix r))) (filter (\<lambda>(_, r). r_state r = Reserved) t)"

definition reservation_pin :: "res_table \<Rightarrow> string \<Rightarrow> ReservationPin" where
  "reservation_pin t job =
     (case map_of t job of
        None \<Rightarrow> Unpinned
      | Some r \<Rightarrow>
          if r_state r \<noteq> Reserved then Unpinned
          else (case source_mint r of None \<Rightarrow> DefaultPin | Some mint \<Rightarrow> MintPin mint))"

definition reservation_mint :: "res_table \<Rightarrow> string \<Rightarrow> string option" where
  "reservation_mint t job = Option.bind (map_of t job) source_mint"

text \<open>Balances net of the holds of other jobs, as source selection reads them.\<close>

record MintBalance =
  mint_url :: string
  balance_sats :: u64

definition available_balances ::
  "(string \<Rightarrow> string) \<Rightarrow> res_table \<Rightarrow> string \<Rightarrow> string \<Rightarrow> MintBalance list \<Rightarrow> MintBalance list"
where
  "available_balances norm_url t job default_mint balances =
     fold (\<lambda>(_, r) bs.
         let mint = norm_url (case source_mint r of None \<Rightarrow> default_mint | Some m \<Rightarrow> m)
         in map (\<lambda>b. if norm_url (mint_url b) = mint
                     then b\<lparr>balance_sats := saturating_sub (balance_sats b) (clamp_u64 (amount_sats r))\<rparr> else b) bs)
       (filter (\<lambda>(j, r). r_state r = Reserved \<and> j \<noteq> job) t) balances"

section \<open>Sums over the table\<close>

definition wf_table :: "res_table \<Rightarrow> bool" where
  "wf_table t \<longleftrightarrow> distinct (map fst t) \<and> list_all (\<lambda>(_, r). 0 \<le> amount_sats r \<and> amount_sats r < 2 ^ 63) t"

definition weight :: "(res_row \<Rightarrow> bool) \<Rightarrow> res_row option \<Rightarrow> int" where
  "weight p r = (case r of None \<Rightarrow> 0 | Some r \<Rightarrow> if r_state r = Reserved \<and> p r then amount_sats r else 0)"

definition held :: "(res_row \<Rightarrow> bool) \<Rightarrow> res_table \<Rightarrow> int" where
  "held p t = sum_list (reserved_amounts p t)"

lemma held_Nil [simp]: "held p [] = 0"
  by (simp add: held_def reserved_amounts_def)

lemma held_Cons [simp]: "held p ((k, r) # t) = weight p (Some r) + held p t"
  by (simp add: held_def reserved_amounts_def weight_def)

lemma held_update:
  "distinct (map fst t) \<Longrightarrow> held p (AList.update k r t) = held p t - weight p (map_of t k) + weight p (Some r)"
proof (induction t)
  case Nil
  show ?case by (simp add: weight_def)
next
  case (Cons x t)
  then show ?case by (cases x) (auto simp: weight_def map_of_eq_None_iff)
qed

lemma held_nonneg: "list_all (\<lambda>(_, r). 0 \<le> amount_sats r) t \<Longrightarrow> 0 \<le> held p t"
  by (induction t) (auto simp: weight_def)

lemma wf_nonneg: "wf_table t \<Longrightarrow> 0 \<le> held p t"
  by (intro held_nonneg) (auto simp: wf_table_def list_all_iff)

lemma wf_update:
  "wf_table t \<Longrightarrow> 0 \<le> amount_sats r \<Longrightarrow> amount_sats r < 2 ^ 63 \<Longrightarrow> wf_table (AList.update k r t)"
  by (auto simp: wf_table_def list_all_iff distinct_update dest!: set_AList_update [THEN subsetD] split: prod.splits)

lemma wf_row: "wf_table t \<Longrightarrow> map_of t job = Some r \<Longrightarrow> 0 \<le> amount_sats r \<and> amount_sats r < 2 ^ 63"
  by (auto simp: wf_table_def list_all_iff dest!: map_of_SomeD)

section \<open>What each operation does to the sums\<close>

lemma against_pooled: "c_mint c = None \<Longrightarrow> against c = (\<lambda>_. True)"
  by (simp add: against_def fun_eq_iff)

lemma sum_reserved_against_eq:
  "sum_reserved_against t c = Inr n \<Longrightarrow> wf_table t \<Longrightarrow> uint n = held (against c) t \<and> held (against c) t < 2 ^ 63"
  using wf_nonneg [of t "against c"]
  by (auto simp: sum_reserved_against_def sum_reserved_def sql_sum_def held_def clamp_exact against_pooled
        elim!: try_bind_InrE split: if_splits)

lemma set_state_wf: "wf_table t \<Longrightarrow> wf_table (set_state job st now t)"
  by (auto simp: set_state_def split: option.splits intro!: wf_update dest: wf_row)

lemma set_state_held:
  assumes "wf_table t" and "st \<noteq> Reserved"
  shows "held p (set_state job st now t) = held p t - weight p (map_of t job)"
  using assms
  by (auto simp: set_state_def held_update wf_table_def weight_def split: option.splits)

lemma weight_nonneg: "wf_table t \<Longrightarrow> 0 \<le> weight p (map_of t job)"
  by (auto simp: weight_def split: option.splits dest: wf_row)

text \<open>A successful new reservation adds its amount to its own ceiling, within the balance, and to
  no other mint's.\<close>

lemma reserve_new:
  assumes "reserve_at job amount c now t = (Inr (ReservedNew av), t')" and "wf_table t"
  shows "wf_table t'" and "held (against c) t' = held (against c) t + uint amount"
    and "held (against c) t' \<le> max (held (against c) t) (uint (c_balance c))"
    and "uint av = max 0 (uint (c_balance c) - held (against c) t)"
    and "\<And>p. \<not> p \<lparr>amount_sats = uint amount, r_state = Reserved,
           created_at_unix = (case map_of t job of None \<Rightarrow> now | Some r \<Rightarrow> created_at_unix r),
           updated_at_unix = now, source_mint = c_mint c\<rparr> \<Longrightarrow> held p t' = held p t"
proof -
  let ?row = "\<lparr>amount_sats = uint amount, r_state = Reserved,
           created_at_unix = (case map_of t job of None \<Rightarrow> now | Some r \<Rightarrow> created_at_unix r),
           updated_at_unix = now, source_mint = c_mint c\<rparr>"
  obtain n where n: "sum_reserved_against t c = Inr n"
    and av: "av = br_available (available_breakdown (c_balance c) n)" and le: "\<not> amount > av"
    and check: "0 \<le> as_i64 amount" and t': "t' = AList.update job (?row\<lparr>amount_sats := as_i64 amount\<rparr>) t"
    and free: "case map_of t job of None \<Rightarrow> True | Some r \<Rightarrow> r_state r = Released"
    using assms(1)
    by (auto simp: reserve_at_def Let_def upsert_reserved_def
          split: option.splits ReservationState.splits sum.splits if_splits)
  note exact = as_i64_exact [OF check]
  note sum = sum_reserved_against_eq [OF n assms(2)]
  have t'': "t' = AList.update job ?row t" using t' exact by simp
  have w0: "weight p (map_of t job) = 0" for p
    using free by (auto simp: weight_def split: option.splits)
  have d: "distinct (map fst t)" using assms(2) by (simp add: wf_table_def)
  have p: "against c ?row" by (simp add: against_def split: option.splits)
  show h: "held (against c) t' = held (against c) t + uint amount"
    using p by (simp add: t'' held_update [OF d] w0) (simp add: weight_def)
  show av': "uint av = max 0 (uint (c_balance c) - held (against c) t)"
    using sum wf_nonneg [OF assms(2), of "against c"] uint_bounded [of "c_balance c"]
    by (simp add: av available_breakdown_def uint_word_of_int)
  show "held (against c) t' \<le> max (held (against c) t) (uint (c_balance c))"
  proof -
    have "0 \<le> uint amount" by simp
    moreover have "uint amount \<le> uint av" using le by (simp add: word_less_def)
    ultimately show ?thesis using av' h by linarith
  qed
  show "wf_table t'" unfolding t'' using assms(2) exact by (intro wf_update) auto
  show "\<not> p ?row \<Longrightarrow> held p t' = held p t" for p
    by (simp add: t'' held_update [OF d] w0) (simp add: weight_def)
qed

text \<open>Every other answer of \<open>reserve_at\<close> leaves each sum as it was: a refusal writes
  nothing, and a replay only records the default mint on a row that counted there already.\<close>

lemma reserve_refused: "reserve_at job amount c now t = (Inl e, t') \<Longrightarrow> t' = t"
  by (auto simp: reserve_at_def Let_def split: option.splits ReservationState.splits sum.splits if_splits)

lemma reserve_replay:
  assumes "reserve_at job amount c now t = (Inr ReservedIdempotent, t')" and "wf_table t"
    and p: "\<And>r. c_is_default c \<Longrightarrow> source_mint r = None \<Longrightarrow> p (r\<lparr>source_mint := c_mint c\<rparr>) = p r"
  shows "wf_table t'" and "held p t' = held p t"
proof -
  consider "t' = t" | r where "map_of t job = Some r" "r_state r = Reserved" "c_is_default c" "source_mint r = None"
      "t' = AList.update job (r\<lparr>source_mint := c_mint c\<rparr>) t"
    using assms(1)
    by (auto simp: reserve_at_def Let_def split: option.splits ReservationState.splits sum.splits if_splits)
  then have "wf_table t' \<and> held p t' = held p t"
  proof cases
    case 2
    have "distinct (map fst t)" using assms(2) by (simp add: wf_table_def)
    with 2 show ?thesis using wf_row [OF assms(2) 2(1)] assms(2) p [OF 2(3,4)]
      by (auto simp: held_update weight_def intro!: wf_update)
  qed (use assms(2) in simp)
  then show "wf_table t'" and "held p t' = held p t" by auto
qed

lemma release_held:
  assumes "wf_table t"
  shows "wf_table (snd (release job now t)) \<and> held p (snd (release job now t)) \<le> held p t"
  using assms weight_nonneg [OF assms, of p job]
  by (auto simp: release_def set_state_wf set_state_held split: option.splits ReservationState.splits)

lemma convert_held:
  assumes "wf_table t"
  shows "wf_table (snd (convert_to_spent job amount now t))"
    and "held p (snd (convert_to_spent job amount now t)) = held p t - weight p (map_of t job)"
proof -
  have d: "distinct (map fst t)" using assms by (simp add: wf_table_def)
  show "wf_table (snd (convert_to_spent job amount now t))"
    using assms as_i64_exact [of amount]
    by (auto simp: convert_to_spent_def read_reservation_def split: option.splits ReservationState.splits
          intro!: set_state_wf wf_update)
  show "held p (snd (convert_to_spent job amount now t)) = held p t - weight p (map_of t job)"
    using assms
    by (auto simp: convert_to_spent_def read_reservation_def set_state_held held_update [OF d] weight_def
          split: option.splits ReservationState.splits)
qed

lemma reconcile_one_table:
  "snd (reconcile_one now (job, d) (rep, t)) =
     (case map_of t job of
        None \<Rightarrow> t
      | Some r \<Rightarrow> if d = Dead \<and> r_state r = Reserved then set_state job Released now t
                  else if d = Paid \<and> r_state r \<noteq> Spent then set_state job Spent now t else t)"
  by (auto simp: read_reservation_def split: option.splits ReservationState.splits JobDisposition.splits)

lemma reconcile_held:
  assumes "wf_table t"
  shows "wf_table (snd (fold (reconcile_one now) ds (rep, t))) \<and> held p (snd (fold (reconcile_one now) ds (rep, t))) \<le> held p t"
  using assms
proof (induction ds arbitrary: rep t)
  case Nil
  then show ?case by simp
next
  case (Cons x ds)
  obtain job d where x: "x = (job, d)" by (cases x)
  obtain rep' t' where s: "reconcile_one now (job, d) (rep, t) = (rep', t')"
    by (cases "reconcile_one now (job, d) (rep, t)")
  have "t' = snd (reconcile_one now (job, d) (rep, t))" by (simp only: s snd_conv)
  then have "wf_table t' \<and> held p t' \<le> held p t"
    using Cons.prems weight_nonneg [OF Cons.prems, of p job]
    unfolding reconcile_one_table
    by (auto simp: set_state_wf set_state_held split: option.splits if_splits)
  with Cons.IH [of t' rep'] show ?case by (auto simp: x s simp del: reconcile_one.simps)
qed

section \<open>Properties of the ledger\<close>

text \<open>Any interleaving of the ledger's operations; a reservation is checked at one funding mint
  whose live balance is \<open>bal\<close>.\<close>

datatype ledger_op =
    OpReserve string u64 string
  | OpRelease string
  | OpConvert string u64
  | OpReconcile "(string \<times> JobDisposition) list"

fun ledger_exec :: "(string \<Rightarrow> u64) \<Rightarrow> string \<Rightarrow> int \<times> ledger_op \<Rightarrow> res_table \<Rightarrow> res_table" where
  "ledger_exec bal dflt (now, OpReserve job amount m) t = snd (reserve_at job amount (at_mint m (bal m) (m = dflt)) now t)"
| "ledger_exec bal dflt (now, OpRelease job) t = snd (release job now t)"
| "ledger_exec bal dflt (now, OpConvert job amount) t = snd (convert_to_spent job amount now t)"
| "ledger_exec bal dflt (now, OpReconcile ds) t = snd (reconcile ds now t)"

definition committed_at :: "string \<Rightarrow> string \<Rightarrow> res_table \<Rightarrow> int" where
  "committed_at dflt m t = held (\<lambda>r. source_mint r = Some m \<or> (source_mint r = None \<and> m = dflt)) t"

lemma against_at_mint: "against (at_mint m b (m = dflt)) = (\<lambda>r. source_mint r = Some m \<or> (source_mint r = None \<and> m = dflt))"
  by (simp add: against_def at_mint_def fun_eq_iff)

lemma ledger_exec_bounded:
  assumes "wf_table t" and "\<And>m. committed_at dflt m t \<le> uint (bal m)"
  shows "wf_table (ledger_exec bal dflt op t) \<and> committed_at dflt m (ledger_exec bal dflt op t) \<le> uint (bal m)"
proof (cases "(bal, dflt, op, t)" rule: ledger_exec.cases)
  case (1 bal dflt now job amount n t)
  let ?c = "at_mint n (bal n) (n = dflt)"
  obtain r t' where r: "reserve_at job amount ?c now t = (r, t')" by (cases "reserve_at job amount ?c now t")
  consider (refused) e where "r = Inl e" | (replay) "r = Inr ReservedIdempotent" | (new) av where "r = Inr (ReservedNew av)"
    by (cases r; cases "projr r") auto
  then show ?thesis
  proof cases
    case refused
    with reserve_refused [of job amount ?c now t e t'] r 1 assms show ?thesis by auto
  next
    case replay
    have p: "c_is_default ?c \<Longrightarrow> source_mint x = None \<Longrightarrow>
        (source_mint (x\<lparr>source_mint := c_mint ?c\<rparr>) = Some m \<or> source_mint (x\<lparr>source_mint := c_mint ?c\<rparr>) = None \<and> m = dflt) =
        (source_mint x = Some m \<or> source_mint x = None \<and> m = dflt)" for x
      by (auto simp: at_mint_def)
    note out = reserve_replay [OF r [unfolded replay], where p = "\<lambda>r. source_mint r = Some m \<or> source_mint r = None \<and> m = dflt", OF _ p]
    show ?thesis using out r 1 assms by (simp add: committed_at_def)
  next
    case new
    note out = reserve_new [OF r [unfolded new]]
    show ?thesis
    proof (cases "m = n")
      case True
      with out(1-3) 1 assms(1) assms(2) [of n] show ?thesis
        by (auto simp: committed_at_def against_at_mint r) (auto simp: at_mint_def)
    next
      case False
      have "held (\<lambda>r. source_mint r = Some m \<or> source_mint r = None \<and> m = dflt) t' =
          held (\<lambda>r. source_mint r = Some m \<or> source_mint r = None \<and> m = dflt) t"
        using False by (intro out(5)) (use 1 assms(1) in \<open>auto simp: at_mint_def\<close>)
      with out(1) 1 assms show ?thesis by (simp add: committed_at_def r)
    qed
  qed
next
  case (2 bal dflt now job t)
  then show ?thesis using assms release_held [of t job now] by (auto simp: committed_at_def intro: order_trans)
next
  case (3 bal dflt now job amount t)
  have "held p (snd (convert_to_spent job amount now t)) \<le> held p t" for p
    using convert_held(2) [of t p job amount now] weight_nonneg [of t p job] assms(1) 3 by simp
  then show ?thesis using assms convert_held(1) [of t job amount now] 3
    by (auto simp: committed_at_def intro: order_trans)
next
  case (4 bal dflt now ds t)
  have "snd (reconcile ds now t) = snd (fold (reconcile_one now) ds (empty_report, t))"
    by (simp add: reconcile_def split: prod.splits)
  then have "wf_table (snd (reconcile ds now t)) \<and> committed_at dflt m (snd (reconcile ds now t)) \<le> committed_at dflt m t"
    using reconcile_held [of t now ds empty_report] assms(1) 4 by (simp add: committed_at_def)
  then show ?thesis using assms(2) [of m] 4 by auto
qed

text \<open>C9. No mint is ever over-committed: whatever reservations, releases, conversions and
  reconcile passes are interleaved, in whatever order and with whatever amounts, the sum of
  the reservations that count against a mint (those recorded at it, and the unrecorded ones if it
  is the default) stays within the balance at that mint.\<close>

theorem reservations_never_overcommit:
  assumes "wf_table t" and "\<And>m. committed_at dflt m t \<le> uint (bal m)"
  shows "committed_at dflt m (fold (ledger_exec bal dflt) ops t) \<le> uint (bal m)"
proof -
  have "wf_table (fold (ledger_exec bal dflt) ops t) \<and>
      (\<forall>m. committed_at dflt m (fold (ledger_exec bal dflt) ops t) \<le> uint (bal m))"
    using assms
  proof (induction ops arbitrary: t)
    case Nil
    then show ?case by simp
  next
    case (Cons op ops)
    then show ?case using ledger_exec_bounded [of t dflt bal op] by simp
  qed
  then show ?thesis by blast
qed

theorem reservations_never_overcommit_witness:
  "committed_at ''a'' ''a'' (fold (ledger_exec (\<lambda>m. if m = ''a'' then 150 else 100) ''a'')
     [(1, OpReserve ''j1'' 100 ''a''), (2, OpReserve ''j2'' 100 ''a''), (3, OpReserve ''j3'' 50 ''a'')] []) \<le> 150"
proof -
  have "committed_at ''a'' ''a'' (fold (ledger_exec (\<lambda>m. if m = ''a'' then 150 else 100) ''a'')
     [(1, OpReserve ''j1'' 100 ''a''), (2, OpReserve ''j2'' 100 ''a''), (3, OpReserve ''j3'' 50 ''a'')] [])
     \<le> uint ((if ''a'' = ''a'' then 150 else 100) :: u64)"
    by (rule reservations_never_overcommit [where bal = "\<lambda>m. if m = ''a'' then 150 else 100"])
       (simp_all add: wf_table_def committed_at_def)
  then show ?thesis by simp
qed

lemma set_state_map_of:
  "map_of (set_state job st now t) j =
     (if j = job then map_option (\<lambda>r. r\<lparr>r_state := st, updated_at_unix := now\<rparr>) (map_of t job) else map_of t j)"
  by (auto simp: set_state_def split: option.splits)

lemma reconcile_one_spent:
  "map_of t job = Some r \<Longrightarrow> r_state r = Spent \<Longrightarrow> map_of (snd (reconcile_one now x (rep, t))) job = Some r"
  by (cases x) (auto simp del: reconcile_one.simps simp: reconcile_one_table set_state_map_of split: option.splits)

lemma reconcile_fold_spent:
  "map_of t job = Some r \<Longrightarrow> r_state r = Spent \<Longrightarrow> map_of (snd (fold (reconcile_one now) ds (rep, t))) job = Some r"
proof (induction ds arbitrary: rep t)
  case (Cons x ds)
  then show ?case using reconcile_one_spent [of t job r now x rep]
    by (cases "reconcile_one now x (rep, t)") (simp del: reconcile_one.simps)
qed simp

lemma ledger_exec_spent:
  assumes "map_of t job = Some r" and "r_state r = Spent"
  shows "map_of (ledger_exec bal dflt op t) job = Some r"
proof (cases "(bal, dflt, op, t)" rule: ledger_exec.cases)
  case (1 bal dflt now j amount m t)
  then show ?thesis using assms
    by (auto simp: reserve_at_def Let_def upsert_reserved_def
          split: option.splits ReservationState.splits sum.splits if_splits)
next
  case (4 bal dflt now ds t)
  then show ?thesis using assms reconcile_fold_spent [of t job r now ds empty_report]
    by (auto simp: reconcile_def split: prod.splits)
qed (use assms in \<open>auto simp: release_def convert_to_spent_def read_reservation_def set_state_map_of
        split: option.splits ReservationState.splits\<close>)

text \<open>A paid reservation is final: once a job's row is Spent, no interleaving of further
  reservations, releases, conversions and reconcile passes changes anything of it, a new
  reservation for the job is refused as already spent, and a release of it frees nothing.\<close>

theorem spent_reservation_is_final:
  assumes "map_of t job = Some r" and "r_state r = Spent"
  shows "map_of (fold (ledger_exec bal dflt) ops t) job = Some r \<and>
    fst (reserve_at job amount c now (fold (ledger_exec bal dflt) ops t)) = Inl (AlreadySpentRefused job) \<and>
    fst (release job now (fold (ledger_exec bal dflt) ops t)) = WasSpent"
proof -
  have "map_of (fold (ledger_exec bal dflt) ops t) job = Some r"
    using assms by (induction ops arbitrary: t) (auto intro: ledger_exec_spent)
  then show ?thesis using assms(2) by (simp add: reserve_at_def release_def read_reservation_def)
qed

definition demo_table :: res_table where
  "demo_table = [(''j1'', \<lparr>amount_sats = 10, r_state = Spent, created_at_unix = 0, updated_at_unix = 1, source_mint = None\<rparr>),
     (''j2'', \<lparr>amount_sats = 20, r_state = Reserved, created_at_unix = 0, updated_at_unix = 0, source_mint = Some ''a''\<rparr>)]"

theorem spent_reservation_is_final_witness:
  "fst (reserve_at ''j1'' 10 (pooled 100) 5 (fold (ledger_exec (\<lambda>_. 100) ''a'')
     [(2, OpRelease ''j1''), (3, OpReconcile [(''j1'', Dead), (''j2'', Paid)])] demo_table)) =
   Inl (AlreadySpentRefused ''j1'')"
  using spent_reservation_is_final [of demo_table "''j1''", where bal = "\<lambda>_. 100" and dflt = "''a''" and c = "pooled 100"
      and amount = 10 and now = 5 and ops = "[(2, OpRelease ''j1''), (3, OpReconcile [(''j1'', Dead), (''j2'', Paid)])]"]
  by (simp add: demo_table_def)

text \<open>A disposition that already holds of the table is kept.\<close>

definition resolved :: "res_table \<Rightarrow> string \<times> JobDisposition \<Rightarrow> bool" where
  "resolved t x =
     (case map_of t (fst x) of
        None \<Rightarrow> True
      | Some r \<Rightarrow> (snd x = Dead \<longrightarrow> r_state r \<noteq> Reserved) \<and> (snd x = Paid \<longrightarrow> r_state r = Spent))"

lemma reconcile_one_resolves: "resolved (snd (reconcile_one now x (rep, t))) x"
  by (cases x) (auto simp del: reconcile_one.simps simp: reconcile_one_table resolved_def set_state_map_of split: option.splits)

lemma reconcile_one_other: "fst y \<noteq> fst x \<Longrightarrow> map_of (snd (reconcile_one now y (rep, t))) (fst x) = map_of t (fst x)"
  by (cases y) (auto simp del: reconcile_one.simps simp: reconcile_one_table set_state_map_of split: option.splits)

lemma reconcile_resolves:
  assumes "distinct (map fst ds)" and "x \<in> set ds"
  shows "resolved (snd (fold (reconcile_one now) ds (rep, t))) x"
  using assms
proof (induction ds arbitrary: rep t)
  case (Cons y ds)
  obtain rep' t' where s: "reconcile_one now y (rep, t) = (rep', t')" by (cases "reconcile_one now y (rep, t)")
  show ?case
  proof (cases "x = y")
    case True
    have same: "map_of (snd (fold (reconcile_one now) ds (r, u))) (fst x) = map_of u (fst x)"
      if "fst x \<notin> fst ` set ds" for r u
      using that
    proof (induction ds arbitrary: r u)
      case (Cons z ds)
      then show ?case using reconcile_one_other [of z x now r u]
        by (cases "reconcile_one now z (r, u)") (auto simp del: reconcile_one.simps)
    qed simp
    have "resolved t' x" using reconcile_one_resolves [of now x rep t] s True by (simp del: reconcile_one.simps)
    moreover have "map_of (snd (fold (reconcile_one now) ds (rep', t'))) (fst x) = map_of t' (fst x)"
      using Cons.prems(1) True by (intro same) auto
    ultimately show ?thesis using s by (simp add: resolved_def del: reconcile_one.simps)
  next
    case False
    then show ?thesis using Cons s by (simp del: reconcile_one.simps)
  qed
qed simp

lemma reconcile_one_resolved:
  "resolved t x \<Longrightarrow> snd (reconcile_one now x (rep, t)) = t \<and>
     rep_released (fst (reconcile_one now x (rep, t))) = rep_released rep \<and>
     rep_converted (fst (reconcile_one now x (rep, t))) = rep_converted rep"
  by (cases x)
     (auto simp: resolved_def read_reservation_def split: option.splits ReservationState.splits JobDisposition.splits)

lemma reconcile_resolved_fold:
  assumes "\<And>x. x \<in> set ds \<Longrightarrow> resolved t x"
  shows "snd (fold (reconcile_one now) ds (rep, t)) = t \<and>
    rep_released (fst (fold (reconcile_one now) ds (rep, t))) = rep_released rep \<and>
    rep_converted (fst (fold (reconcile_one now) ds (rep, t))) = rep_converted rep"
  using assms
proof (induction ds arbitrary: rep)
  case (Cons x ds)
  have "resolved t x" using Cons.prems by simp
  from reconcile_one_resolved [OF this, of now rep] obtain rep' where "reconcile_one now x (rep, t) = (rep', t)"
    "rep_released rep' = rep_released rep" "rep_converted rep' = rep_converted rep"
    by (cases "reconcile_one now x (rep, t)") auto
  then show ?case using Cons by (simp del: reconcile_one.simps)
qed simp

text \<open>Reconciling is idempotent: a second pass with the same dispositions (one per job), at any
  later time, releases nothing, converts nothing and leaves the table as the first left it.\<close>

theorem reconcile_idempotent:
  assumes "distinct (map fst ds)" and "reconcile ds now t = (rep, t')" and "reconcile ds later t' = (rep', t'')"
  shows "t'' = t' \<and> rep_released rep' = [] \<and> rep_converted rep' = []"
proof -
  have t': "t' = snd (fold (reconcile_one now) ds (empty_report, t))"
    using assms(2) by (auto simp: reconcile_def split: prod.splits)
  have "snd (fold (reconcile_one later) ds (empty_report, t')) = t' \<and>
    rep_released (fst (fold (reconcile_one later) ds (empty_report, t'))) = rep_released empty_report \<and>
    rep_converted (fst (fold (reconcile_one later) ds (empty_report, t'))) = rep_converted empty_report"
    using reconcile_resolves [OF assms(1)] t' by (intro reconcile_resolved_fold) simp
  then show ?thesis using assms(3) by (auto simp: reconcile_def empty_report_def split: prod.splits)
qed

theorem reconcile_idempotent_witness:
  "case reconcile [(''j2'', Dead), (''j1'', Paid)] 5 demo_table of
     (rep, t') \<Rightarrow> (case reconcile [(''j2'', Dead), (''j1'', Paid)] 9 t' of
       (rep', t'') \<Rightarrow> t'' = t' \<and> rep_released rep' = [] \<and> rep_converted rep' = [])"
proof -
  let ?ds = "[(''j2'', Dead), (''j1'', Paid)]"
  obtain rep t' where 1: "reconcile ?ds 5 demo_table = (rep, t')" by (cases "reconcile ?ds 5 demo_table")
  obtain rep' t'' where 2: "reconcile ?ds 9 t' = (rep', t'')" by (cases "reconcile ?ds 9 t'")
  show ?thesis unfolding 1 prod.case 2 by (rule reconcile_idempotent [OF _ 1 2]) simp
qed

text \<open>Settling a payment keeps the headroom of its mint: when the wallet first melts exactly the
  reserved amount at the mint the row is held at and the row is then converted, the balance of
  that mint less what is committed to it is what it was, and no other mint's commitments move.\<close>

theorem settlement_conserves_headroom:
  assumes "wf_table t" and "map_of t job = Some r" and "r_state r = Reserved"
    and "m = (case source_mint r of Some n \<Rightarrow> n | None \<Rightarrow> dflt)"
  shows "(bal(m := bal m - amount_sats r)) n - committed_at dflt n (snd (convert_to_spent job amount now t)) = bal n - committed_at dflt n t"
  using assms by (auto simp: committed_at_def convert_held weight_def split: option.splits)

theorem settlement_conserves_headroom_witness:
  "((\<lambda>_. 100)(''a'' := 100 - amount_sats (the (map_of demo_table ''j2'')))) ''a'' - committed_at ''b'' ''a'' (snd (convert_to_spent ''j2'' 20 7 demo_table)) =
   100 - committed_at ''b'' ''a'' demo_table"
  by (rule settlement_conserves_headroom [where bal = "\<lambda>_. 100" and dflt = "''b''" and m = "''a''"
        and r = "the (map_of demo_table ''j2'')" and n = "''a''"])
     (simp_all add: wf_table_def demo_table_def)

end
