(* ===== verification/Buyer_Store.thy ===== *)
theory Buyer_Store
  imports Buyer_Ledger
begin

text \<open>
  The buyer's state database, \<^verbatim>\<open>buyer/store.rs\<close>: the reservation ledger together with
  the auto-award intents, the published awards, the award-attempt outbox and the session turns.
  Each call first draws from a schedule of SQLite failures; a call that fails changes no table.
  A process that dies is one whose remaining calls all fail.
\<close>

section \<open>Tables\<close>

datatype AttemptState = Pending | Confirmed | Refused

record attempt_row =
  at_claim_id :: string
  at_seller_pubkey :: string
  at_award_event_id :: string
  at_event_json :: string
  at_amount_sats :: int
  at_quoted_mints_json :: string
  at_offer_deadline_unix :: int
  at_send_count :: int
  at_relay_url :: string
  at_state :: AttemptState
  at_detail :: "string option"
  at_created_at_unix :: int
  at_updated_at_unix :: int

record AwardAttempt =
  att_job_id :: string
  att_claim_id :: string
  att_seller_pubkey :: string
  att_award_event_id :: string
  att_event_json :: string
  att_amount_sats :: u64
  att_quoted_mints_json :: string
  att_offer_deadline_unix :: int
  att_send_count :: u64
  att_relay_url :: string
  att_state :: AttemptState
  att_detail :: "string option"

datatype BeginAttempt = Pinned | Existing AwardAttempt

record award_row =
  aw_claim_id :: string
  aw_award_event_id :: string
  aw_seller_pubkey :: string
  aw_amount_sats :: int
  aw_awarded_at_unix :: int
  aw_agent_used :: "string option"
  aw_model_used :: "string option"

record AwardRecord =
  awr_job_id :: string
  awr_claim_id :: string
  awr_award_event_id :: string
  awr_seller_pubkey :: string
  awr_amount_sats :: u64
  awr_awarded_at_unix :: int
  awr_agent_used :: "string option"
  awr_model_used :: "string option"

datatype AttributeAward = AttributionWritten | AlreadyAttributed | NoAwardRow

datatype IntentState = IntentPending | IntentAwarded | IntentParked

record intent_row =
  in_max_sats :: int
  in_harness :: "string option"
  in_model :: "string option"
  in_state :: IntentState
  in_reason :: "string option"
  in_created_at_unix :: int
  in_updated_at_unix :: int

datatype SessionState = SessionOpen | SessionClosed | SessionExpired

record session_row =
  se_cap_sats :: int
  se_state :: SessionState
  se_updated_at_unix :: int

datatype TurnState = TurnPending | TurnSent | TurnDelivered | TurnCollected | TurnRefused | TurnNoResponse

record turn_row =
  tu_job_id :: string
  tu_turn :: nat
  tu_event_json :: string
  tu_amount_sats :: int
  tu_deadline_unix :: int
  tu_result_id :: "string option"
  tu_state :: TurnState
  tu_created_at_unix :: int
  tu_updated_at_unix :: int

record BuyerTurn =
  bt_followup_id :: string
  bt_job_id :: string
  bt_turn :: nat
  bt_event_json :: string
  bt_amount_sats :: u64
  bt_deadline_unix :: u64
  bt_result_id :: "string option"
  bt_state :: TurnState

record buyer_db =
  reservations :: res_table
  pending_awards :: "(string \<times> intent_row) list"
  awards :: "(string \<times> award_row) list"
  award_attempts :: "(string \<times> attempt_row) list"
  sessions :: "(string \<times> session_row) list"
  session_turns :: "(string \<times> turn_row) list"
  db_faults :: "string option list"

definition db_call :: "buyer_db \<Rightarrow> (string + unit) \<times> buyer_db" where
  "db_call db =
     (case db_faults db of
        [] \<Rightarrow> (Inr (), db)
      | None # fs \<Rightarrow> (Inr (), db\<lparr>db_faults := fs\<rparr>)
      | Some e # fs \<Rightarrow> (Inl e, db\<lparr>db_faults := fs\<rparr>))"

definition db_read :: "(buyer_db \<Rightarrow> 'a) \<Rightarrow> buyer_db \<Rightarrow> (string + 'a) \<times> buyer_db" where
  "db_read f = st_bind db_call (\<lambda>_ db. (Inr (f db), db))"

definition db_write :: "(buyer_db \<Rightarrow> 'a \<times> buyer_db) \<Rightarrow> buyer_db \<Rightarrow> (string + 'a) \<times> buyer_db" where
  "db_write f = st_bind db_call (\<lambda>_ db. case f db of (r, db') \<Rightarrow> (Inr r, db'))"

text \<open>\<open>x as u64\<close> of a stored \<open>i64\<close>, which undoes \<open>x as i64\<close>.\<close>

definition as_u64 :: "int \<Rightarrow> u64" where
  "as_u64 n = word_of_int n"

lemma as_u64_as_i64 [simp]: "as_u64 (as_i64 w) = w"
  by (simp add: as_u64_def as_i64_def)

section \<open>Reservations\<close>

definition store_reserve_at ::
  "string \<Rightarrow> u64 \<Rightarrow> MintCeiling \<Rightarrow> int \<Rightarrow> buyer_db \<Rightarrow> (ReserveRefused + Reserved_outcome) \<times> buyer_db"
where
  "store_reserve_at job amount ceiling now =
     st_bind (st_map_err ReserveStore db_call) (\<lambda>_ db.
       case reserve_at job amount ceiling now (reservations db) of (r, t) \<Rightarrow> (r, db\<lparr>reservations := t\<rparr>))"

definition store_release :: "string \<Rightarrow> int \<Rightarrow> buyer_db \<Rightarrow> (string + Released_outcome) \<times> buyer_db" where
  "store_release job now =
     db_write (\<lambda>db. case release job now (reservations db) of (r, t) \<Rightarrow> (r, db\<lparr>reservations := t\<rparr>))"

definition store_convert_to_spent :: "string \<Rightarrow> u64 \<Rightarrow> int \<Rightarrow> buyer_db \<Rightarrow> (string + Converted) \<times> buyer_db" where
  "store_convert_to_spent job amount now =
     st_bind db_call (\<lambda>_ db.
       case convert_to_spent job amount now (reservations db) of (r, t) \<Rightarrow> (r, db\<lparr>reservations := t\<rparr>))"

definition store_reconcile :: "(string \<times> JobDisposition) list \<Rightarrow> int \<Rightarrow> buyer_db \<Rightarrow> (string + ReconcileReport) \<times> buyer_db" where
  "store_reconcile dispositions now =
     db_write (\<lambda>db. case reconcile dispositions now (reservations db) of (r, t) \<Rightarrow> (r, db\<lparr>reservations := t\<rparr>))"

definition reservation :: "string \<Rightarrow> buyer_db \<Rightarrow> (string + (ReservationState \<times> u64) option) \<times> buyer_db" where
  "reservation job = db_read (\<lambda>db. read_reservation (reservations db) job)"

section \<open>Auto-award intents\<close>

definition put_pending_award ::
  "string \<Rightarrow> u64 \<Rightarrow> string option \<Rightarrow> string option \<Rightarrow> int \<Rightarrow> buyer_db \<Rightarrow> (string + unit) \<times> buyer_db"
where
  "put_pending_award job max_sats harness model now =
     st_bind db_call (\<lambda>_ db.
       if as_i64 max_sats < 0 then (Inl ''CHECK constraint failed: max_sats >= 0'', db)
       else (Inr (), db\<lparr>pending_awards := AList.update job
         \<lparr>in_max_sats = as_i64 max_sats, in_harness = harness, in_model = model, in_state = IntentPending,
          in_reason = None,
          in_created_at_unix = (case map_of (pending_awards db) job of None \<Rightarrow> now | Some r \<Rightarrow> in_created_at_unix r),
          in_updated_at_unix = now\<rparr> (pending_awards db)\<rparr>))"

definition list_pending_awards :: "buyer_db \<Rightarrow> (string + (string \<times> u64 \<times> string option \<times> string option) list) \<times> buyer_db" where
  "list_pending_awards = db_read (\<lambda>db.
     map (\<lambda>(job, r). (job, clamp_u64 (in_max_sats r), in_harness r, in_model r))
       (sort_key (\<lambda>(_, r). in_created_at_unix r) (filter (\<lambda>(_, r). in_state r = IntentPending) (pending_awards db))))"

definition mark_award_awarded :: "string \<Rightarrow> int \<Rightarrow> buyer_db \<Rightarrow> (string + unit) \<times> buyer_db" where
  "mark_award_awarded job now = db_write (\<lambda>db. ((), db\<lparr>pending_awards :=
     update_row job (\<lambda>r. r\<lparr>in_state := IntentAwarded, in_reason := None, in_updated_at_unix := now\<rparr>) (pending_awards db)\<rparr>))"

definition mark_award_parked :: "string \<Rightarrow> string \<Rightarrow> int \<Rightarrow> buyer_db \<Rightarrow> (string + unit) \<times> buyer_db" where
  "mark_award_parked job reason now = db_write (\<lambda>db. ((), db\<lparr>pending_awards :=
     update_row job (\<lambda>r. r\<lparr>in_state := IntentParked, in_reason := Some reason, in_updated_at_unix := now\<rparr>) (pending_awards db)\<rparr>))"

definition pending_award_state :: "string \<Rightarrow> buyer_db \<Rightarrow> (string + (IntentState \<times> string option) option) \<times> buyer_db" where
  "pending_award_state job = db_read (\<lambda>db. map_option (\<lambda>r. (in_state r, in_reason r)) (map_of (pending_awards db) job))"

definition parked_awards :: "buyer_db \<Rightarrow> (string + (string \<times> string) list) \<times> buyer_db" where
  "parked_awards = db_read (\<lambda>db.
     map (\<lambda>(job, r). (job, case in_reason r of None \<Rightarrow> [] | Some e \<Rightarrow> e))
       (sort_key (\<lambda>(_, r). in_updated_at_unix r) (filter (\<lambda>(_, r). in_state r = IntentParked) (pending_awards db))))"

section \<open>Published awards\<close>

definition row_to_award :: "string \<Rightarrow> award_row \<Rightarrow> AwardRecord" where
  "row_to_award job r = \<lparr>awr_job_id = job, awr_claim_id = aw_claim_id r, awr_award_event_id = aw_award_event_id r,
     awr_seller_pubkey = aw_seller_pubkey r, awr_amount_sats = clamp_u64 (aw_amount_sats r),
     awr_awarded_at_unix = aw_awarded_at_unix r, awr_agent_used = aw_agent_used r, awr_model_used = aw_model_used r\<rparr>"

definition record_award ::
  "string \<Rightarrow> string \<Rightarrow> string \<Rightarrow> string \<Rightarrow> u64 \<Rightarrow> int \<Rightarrow> buyer_db \<Rightarrow> (string + unit) \<times> buyer_db"
where
  "record_award job claim event seller amount now =
     st_bind db_call (\<lambda>_ db.
       if as_i64 amount < 0 then (Inl ''CHECK constraint failed: amount_sats >= 0'', db)
       else (Inr (), db\<lparr>awards := AList.update job
         \<lparr>aw_claim_id = claim, aw_award_event_id = event, aw_seller_pubkey = seller,
          aw_amount_sats = as_i64 amount, aw_awarded_at_unix = now,
          aw_agent_used = Option.bind (map_of (awards db) job) aw_agent_used,
          aw_model_used = Option.bind (map_of (awards db) job) aw_model_used\<rparr> (awards db)\<rparr>))"

definition award_record :: "string \<Rightarrow> buyer_db \<Rightarrow> (string + AwardRecord option) \<times> buyer_db" where
  "award_record job = db_read (\<lambda>db. map_option (row_to_award job) (map_of (awards db) job))"

definition attribute_award ::
  "string \<Rightarrow> string option \<Rightarrow> string option \<Rightarrow> buyer_db \<Rightarrow> (string + AttributeAward) \<times> buyer_db"
where
  "attribute_award job agent model =
     st_bind db_call (\<lambda>_ db.
       case map_of (awards db) job of
         Some r \<Rightarrow>
           if aw_agent_used r = None \<and> aw_model_used r = None
           then (Inr AttributionWritten,
                 db\<lparr>awards := AList.update job (r\<lparr>aw_agent_used := agent, aw_model_used := model\<rparr>) (awards db)\<rparr>)
           else st_bind db_call (\<lambda>_ db. (Inr AlreadyAttributed, db)) db
       | None \<Rightarrow> st_bind db_call (\<lambda>_ db. (Inr NoAwardRow, db)) db)"

definition awarded_unsettled_job_ids :: "buyer_db \<Rightarrow> (string + string list) \<times> buyer_db" where
  "awarded_unsettled_job_ids = db_read (\<lambda>db.
     map fst (sort_key (\<lambda>(_, a). aw_awarded_at_unix a)
       (filter (\<lambda>(job, _). map_option r_state (map_of (reservations db) job) = Some Reserved) (awards db))))"

definition unattributed_settled_award_job_ids :: "buyer_db \<Rightarrow> (string + string list) \<times> buyer_db" where
  "unattributed_settled_award_job_ids = db_read (\<lambda>db.
     map fst (sort_key (\<lambda>(_, a). aw_awarded_at_unix a)
       (filter (\<lambda>(job, a). map_option r_state (map_of (reservations db) job) = Some Spent
          \<and> aw_agent_used a = None \<and> aw_model_used a = None) (awards db))))"

section \<open>The award attempt outbox\<close>

definition row_to_attempt :: "string \<Rightarrow> attempt_row \<Rightarrow> AwardAttempt" where
  "row_to_attempt job r = \<lparr>att_job_id = job, att_claim_id = at_claim_id r, att_seller_pubkey = at_seller_pubkey r,
     att_award_event_id = at_award_event_id r, att_event_json = at_event_json r,
     att_amount_sats = clamp_u64 (at_amount_sats r), att_quoted_mints_json = at_quoted_mints_json r,
     att_offer_deadline_unix = at_offer_deadline_unix r, att_send_count = clamp_u64 (at_send_count r),
     att_relay_url = at_relay_url r, att_state = at_state r, att_detail = at_detail r\<rparr>"

definition award_attempt :: "string \<Rightarrow> buyer_db \<Rightarrow> (string + AwardAttempt option) \<times> buyer_db" where
  "award_attempt job = db_read (\<lambda>db. map_option (row_to_attempt job) (map_of (award_attempts db) job))"

definition begin_award_attempt :: "AwardAttempt \<Rightarrow> int \<Rightarrow> buyer_db \<Rightarrow> (string + BeginAttempt) \<times> buyer_db" where
  "begin_award_attempt a now =
     st_bind db_call (\<lambda>_ db.
       case map_of (award_attempts db) (att_job_id a) of
         None \<Rightarrow>
           if as_i64 (att_amount_sats a) < 0 then (Inl ''CHECK constraint failed: amount_sats >= 0'', db)
           else (Inr Pinned, db\<lparr>award_attempts := AList.update (att_job_id a)
             \<lparr>at_claim_id = att_claim_id a, at_seller_pubkey = att_seller_pubkey a,
              at_award_event_id = att_award_event_id a, at_event_json = att_event_json a,
              at_amount_sats = as_i64 (att_amount_sats a), at_quoted_mints_json = att_quoted_mints_json a,
              at_offer_deadline_unix = att_offer_deadline_unix a, at_send_count = 0,
              at_relay_url = att_relay_url a, at_state = Pending, at_detail = None,
              at_created_at_unix = now, at_updated_at_unix = now\<rparr> (award_attempts db)\<rparr>)
       | Some r \<Rightarrow>
           if as_i64 (att_amount_sats a) < 0 then (Inl ''CHECK constraint failed: amount_sats >= 0'', db)
           else st_bind db_call (\<lambda>_ db. (Inr (Existing (row_to_attempt (att_job_id a) r)), db)) db)"

definition record_attempt_send :: "string \<Rightarrow> int \<Rightarrow> buyer_db \<Rightarrow> (string + u64) \<times> buyer_db" where
  "record_attempt_send job now =
     st_bind db_call (\<lambda>_ db.
       case map_of (award_attempts db) job of
         None \<Rightarrow> (Inl (''no award attempt for '' @ job @ '' to record a send against''), db)
       | Some r \<Rightarrow>
           if at_send_count r + 1 \<ge> 2 ^ 63 then (Inl ''integer overflow'', db)
           else (Inr (clamp_u64 (at_send_count r)),
            db\<lparr>award_attempts := AList.update job
              (r\<lparr>at_send_count := at_send_count r + 1, at_updated_at_unix := now\<rparr>) (award_attempts db)\<rparr>))"

definition mark_attempt_confirmed :: "string \<Rightarrow> int \<Rightarrow> buyer_db \<Rightarrow> (string + bool) \<times> buyer_db" where
  "mark_attempt_confirmed job now =
     db_write (\<lambda>db.
       case map_of (award_attempts db) job of
         Some r \<Rightarrow>
           if at_state r = Pending
           then (True, db\<lparr>award_attempts := AList.update job
                  (r\<lparr>at_state := Confirmed, at_updated_at_unix := now\<rparr>) (award_attempts db)\<rparr>)
           else (False, db)
       | None \<Rightarrow> (False, db))"

definition mark_attempt_refused :: "string \<Rightarrow> string \<Rightarrow> int \<Rightarrow> buyer_db \<Rightarrow> (string + bool) \<times> buyer_db" where
  "mark_attempt_refused job detail now =
     db_write (\<lambda>db.
       case map_of (award_attempts db) job of
         Some r \<Rightarrow>
           if at_state r = Pending
           then (True, db\<lparr>award_attempts := AList.update job
                  (r\<lparr>at_state := Refused, at_detail := Some detail, at_updated_at_unix := now\<rparr>) (award_attempts db)\<rparr>)
           else (False, db)
       | None \<Rightarrow> (False, db))"

definition attempts_where :: "(buyer_db \<Rightarrow> string \<Rightarrow> attempt_row \<Rightarrow> bool) \<Rightarrow> buyer_db \<Rightarrow> (string + AwardAttempt list) \<times> buyer_db" where
  "attempts_where p = db_read (\<lambda>db.
     map (\<lambda>(job, r). row_to_attempt job r)
       (sort_key (\<lambda>(_, r). at_created_at_unix r) (filter (\<lambda>(job, r). p db job r) (award_attempts db))))"

definition pending_award_attempts :: "buyer_db \<Rightarrow> (string + AwardAttempt list) \<times> buyer_db" where
  "pending_award_attempts = attempts_where (\<lambda>db job r. at_state r = Pending)"

definition refused_attempts_still_reserved :: "buyer_db \<Rightarrow> (string + AwardAttempt list) \<times> buyer_db" where
  "refused_attempts_still_reserved = attempts_where (\<lambda>db job r.
     at_state r = Refused \<and> map_option r_state (map_of (reservations db) job) = Some Reserved)"

definition confirmed_attempts_without_award_row :: "buyer_db \<Rightarrow> (string + AwardAttempt list) \<times> buyer_db" where
  "confirmed_attempts_without_award_row = attempts_where (\<lambda>db job r.
     at_state r = Confirmed \<and> map_of (awards db) job = None)"

definition is_attempt_held :: "buyer_db \<Rightarrow> string \<Rightarrow> attempt_row \<Rightarrow> bool" where
  "is_attempt_held db job r \<longleftrightarrow>
     at_state r = Pending \<or> (at_state r = Confirmed \<and> map_of (awards db) job = None)"

definition attempt_held_job_ids :: "buyer_db \<Rightarrow> (string + string list) \<times> buyer_db" where
  "attempt_held_job_ids = db_read (\<lambda>db. sort (map fst (filter (\<lambda>(job, r). is_attempt_held db job r) (award_attempts db))))"

section \<open>Session turns\<close>

definition open_session :: "string \<Rightarrow> u64 \<Rightarrow> int \<Rightarrow> buyer_db \<Rightarrow> (string + (u64 \<times> bool)) \<times> buyer_db" where
  "open_session job cap now =
     st_bind
       (db_write (\<lambda>db. ((), if map_of (sessions db) job \<noteq> None \<or> as_i64 cap < 0 then db
          else db\<lparr>sessions := AList.update job
            \<lparr>se_cap_sats = as_i64 cap, se_state = SessionOpen, se_updated_at_unix = now\<rparr> (sessions db)\<rparr>)))
       (\<lambda>_. st_bind db_call (\<lambda>_ db.
          case map_of (sessions db) job of
            None \<Rightarrow> (Inl ''Query returned no rows'', db)
          | Some r \<Rightarrow> (Inr (as_u64 (se_cap_sats r), se_state r = SessionOpen), db)))"

definition set_session_cap :: "string \<Rightarrow> u64 \<Rightarrow> int \<Rightarrow> buyer_db \<Rightarrow> (string + unit) \<times> buyer_db" where
  "set_session_cap job cap now =
     st_bind db_call (\<lambda>_ db.
       if map_of (sessions db) job \<noteq> None \<and> as_i64 cap < 0
       then (Inl ''CHECK constraint failed: session_cap_sats >= 0'', db)
       else (Inr (), db\<lparr>sessions :=
         update_row job (\<lambda>r. r\<lparr>se_cap_sats := as_i64 cap, se_updated_at_unix := now\<rparr>) (sessions db)\<rparr>))"

definition close_session :: "string \<Rightarrow> int \<Rightarrow> buyer_db \<Rightarrow> (string + unit) \<times> buyer_db" where
  "close_session job now = db_write (\<lambda>db. ((), db\<lparr>sessions := AList.update job
     (case map_of (sessions db) job of
        None \<Rightarrow> \<lparr>se_cap_sats = 0, se_state = SessionClosed, se_updated_at_unix = now\<rparr>
      | Some r \<Rightarrow> r\<lparr>se_state := SessionClosed, se_updated_at_unix := now\<rparr>) (sessions db)\<rparr>))"

definition expire_session :: "string \<Rightarrow> int \<Rightarrow> buyer_db \<Rightarrow> (string + unit) \<times> buyer_db" where
  "expire_session job now = db_write (\<lambda>db. ((), db\<lparr>sessions :=
     update_row job (\<lambda>r. r\<lparr>se_state := SessionExpired, se_updated_at_unix := now\<rparr>) (sessions db)\<rparr>))"

definition turn_from_row :: "string \<Rightarrow> turn_row \<Rightarrow> BuyerTurn" where
  "turn_from_row fid r = \<lparr>bt_followup_id = fid, bt_job_id = tu_job_id r, bt_turn = tu_turn r,
     bt_event_json = tu_event_json r, bt_amount_sats = as_u64 (tu_amount_sats r),
     bt_deadline_unix = as_u64 (tu_deadline_unix r), bt_result_id = tu_result_id r, bt_state = tu_state r\<rparr>"

definition live_turn :: "turn_row \<Rightarrow> bool" where
  "live_turn r \<longleftrightarrow> tu_state r \<noteq> TurnRefused \<and> tu_state r \<noteq> TurnNoResponse"

definition live_turn_id :: "string \<Rightarrow> nat \<Rightarrow> (string \<times> turn_row) list \<Rightarrow> string option" where
  "live_turn_id job n t =
     map_option fst (List.find (\<lambda>(_, r). tu_job_id r = job \<and> tu_turn r = n \<and> live_turn r) t)"

definition put_turn ::
  "string \<Rightarrow> string \<Rightarrow> nat \<Rightarrow> string \<Rightarrow> u64 \<Rightarrow> u64 \<Rightarrow> int \<Rightarrow> buyer_db \<Rightarrow> (string + BuyerTurn) \<times> buyer_db"
where
  "put_turn fid job n event amount deadline now =
     st_bind db_call (\<lambda>_ db.
       case live_turn_id job n (session_turns db) of
         Some live \<Rightarrow>
           (case map_of (session_turns db) live of
              None \<Rightarrow> (Inl ''turn row vanished'', db)
            | Some r \<Rightarrow> (Inr (turn_from_row live r), db))
       | None \<Rightarrow>
           if map_of (session_turns db) fid \<noteq> None then (Inl ''UNIQUE constraint failed: session_turns.followup_id'', db)
           else if n < 2 \<or> as_i64 amount < 0 then (Inl ''CHECK constraint failed'', db)
           else
             (let r = \<lparr>tu_job_id = job, tu_turn = n, tu_event_json = event, tu_amount_sats = as_i64 amount,
                tu_deadline_unix = as_i64 deadline, tu_result_id = None, tu_state = TurnPending,
                tu_created_at_unix = now, tu_updated_at_unix = now\<rparr>
              in (Inr (turn_from_row fid r), db\<lparr>session_turns := session_turns db @ [(fid, r)]\<rparr>)))"

definition set_turn_state ::
  "string \<Rightarrow> TurnState \<Rightarrow> string option \<Rightarrow> int \<Rightarrow> buyer_db \<Rightarrow> (string + unit) \<times> buyer_db"
where
  "set_turn_state fid st result now = db_write (\<lambda>db. ((), db\<lparr>session_turns :=
     update_row fid (\<lambda>r. r\<lparr>tu_state := st,
       tu_result_id := (case result of None \<Rightarrow> tu_result_id r | Some x \<Rightarrow> Some x),
       tu_updated_at_unix := now\<rparr>) (session_turns db)\<rparr>))"

definition turn_of :: "string \<Rightarrow> buyer_db \<Rightarrow> (string + BuyerTurn option) \<times> buyer_db" where
  "turn_of fid = db_read (\<lambda>db. map_option (turn_from_row fid) (map_of (session_turns db) fid))"

definition session_turns_of :: "string \<Rightarrow> buyer_db \<Rightarrow> (string + BuyerTurn list) \<times> buyer_db" where
  "session_turns_of job = db_read (\<lambda>db.
     map (\<lambda>(fid, r). turn_from_row fid r)
       (sort_key (\<lambda>(_, r). tu_turn r) (sort_key (\<lambda>(_, r). tu_created_at_unix r)
         (filter (\<lambda>(_, r). tu_job_id r = job) (session_turns db)))))"

definition session_committed_sats :: "string \<Rightarrow> buyer_db \<Rightarrow> (string + u64) \<times> buyer_db" where
  "session_committed_sats job =
     st_bind db_call (\<lambda>_ db.
       (try_bind (sql_sum (map (amount_sats \<circ> snd) (filter (\<lambda>(k, r).
            (r_state r = Reserved \<or> r_state r = Spent) \<and>
            (k = job \<or> k \<in> set (map fst (filter (\<lambda>(_, u). tu_job_id u = job) (session_turns db))))) (reservations db))))
          (\<lambda>n. Inr (clamp_u64 n)), db))"

end
