(* ===== verification/Award.thy ===== *)
theory Award
  imports Buyer_Store
begin

text \<open>
  The award path of \<^verbatim>\<open>buyer/lifecycle.rs\<close>: the decision what may be done about a job, the
  reserve, sign, pin and send sequence, the fold of the relay's verdict into the database, the
  settlement after a payment, and the two operations of \<^verbatim>\<open>buyer/mod.rs\<close> that act on an
  attempt outside that path. The relay, the signer and the presence probe are functions on the
  state \<open>'w\<close> of the world; the encoding of the list of mints is an argument. Error messages
  that interpolate values are cut before the interpolation.
\<close>

section \<open>Types\<close>

record AwardClaimOutcome =
  oc_award_event_id :: string
  oc_job_id :: string
  oc_claim_id :: string
  oc_seller_pubkey :: string
  oc_quoted_mints :: "string list"

record PreparedAward =
  pa_job_id :: string
  pa_claim_id :: string
  pa_seller_pubkey :: string
  pa_award_event_id :: string
  pa_event_json :: string
  pa_quoted_mints :: "string list"
  pa_offer_deadline_unix :: int
  pa_relay_url :: string

datatype SendOutcome = Acked | SendRefused string | SendUnresolved string

record RelayedAward =
  ra_award_event_id :: string
  ra_claim_id :: string
  ra_seller_pubkey :: string

datatype AwardPresence = Repairable RelayedAward | Unrepairable string string

datatype 'a PresenceRead = Present 'a | ConfirmedAbsent | Unverified

datatype AwardStep = StepAlreadyAwarded | RepairFromAttempt | RefusedTerminal | ResumeAttempt | ProbeLegacy | Fresh

datatype AwardOutcome = Published AwardClaimOutcome | AlreadyAwarded AwardRecord

datatype AwardError =
    ReserveError ReserveRefused
  | PublishedButUnrecorded string string string
  | PresenceUnverified string string
  | PresenceError string
  | PublishError string
  | RefusedError string string
  | UnresolvedError string string string
  | StoreFailure string

fun award_step :: "bool \<Rightarrow> AttemptState option \<Rightarrow> ReservationState option \<Rightarrow> AwardStep" where
  "award_step True _ _ = StepAlreadyAwarded"
| "award_step False (Some Confirmed) _ = RepairFromAttempt"
| "award_step False (Some Refused) _ = RefusedTerminal"
| "award_step False (Some Pending) _ = ResumeAttempt"
| "award_step False None (Some Reserved) = ProbeLegacy"
| "award_step False None (Some Released) = ProbeLegacy"
| "award_step False None (Some Spent) = Fresh"
| "award_step False None None = Fresh"

record 'w award_effects =
  probe :: "'w \<Rightarrow> (string + AwardPresence PresenceRead) \<times> 'w"
  prepare :: "'w \<Rightarrow> (string + PreparedAward) \<times> 'w"
  transmit :: "string \<Rightarrow> string \<Rightarrow> 'w \<Rightarrow> SendOutcome \<times> 'w"

record mints_codec =
  enc_mints :: "string list \<Rightarrow> string"
  dec_mints :: "string \<Rightarrow> string list"

section \<open>The award path\<close>

definition on_store :: "('e \<Rightarrow> 'f) \<Rightarrow> (buyer_db \<Rightarrow> ('e + 'a) \<times> buyer_db) \<Rightarrow> buyer_db \<times> 'w \<Rightarrow> ('f + 'a) \<times> buyer_db \<times> 'w" where
  "on_store h m s = (case s of (db, w) \<Rightarrow> (case m db of (r, db') \<Rightarrow> (map_err h r, db', w)))"

text \<open>A call whose error the code matches on or logs.\<close>

definition try_store :: "(buyer_db \<Rightarrow> ('e + 'a) \<times> buyer_db) \<Rightarrow> buyer_db \<times> 'w \<Rightarrow> ('f + ('e + 'a)) \<times> buyer_db \<times> 'w" where
  "try_store m s = (case s of (db, w) \<Rightarrow> (case m db of (r, db') \<Rightarrow> (Inr r, db', w)))"

definition on_relay :: "('w \<Rightarrow> 'a \<times> 'w) \<Rightarrow> buyer_db \<times> 'w \<Rightarrow> ('f + 'a) \<times> buyer_db \<times> 'w" where
  "on_relay m s = (case s of (db, w) \<Rightarrow> (case m w of (r, w') \<Rightarrow> (Inr r, db, w')))"

definition rehold ::
  "string \<Rightarrow> u64 \<Rightarrow> MintCeiling \<Rightarrow> int \<Rightarrow> (ReserveRefused \<Rightarrow> AwardError) \<Rightarrow> buyer_db \<times> 'w \<Rightarrow>
   (AwardError + unit) \<times> buyer_db \<times> 'w"
where
  "rehold job amount ceiling now h =
     st_bind (try_store (store_reserve_at job amount ceiling now)) (\<lambda>res. st_lift
       (case res of
          Inr _ \<Rightarrow> Inr ()
        | Inl (AlreadySpentRefused _) \<Rightarrow> Inr ()
        | Inl refused \<Rightarrow> Inl (h refused)))"

text \<open>What each verdict of the relay means for the attempt and its funds.\<close>

definition fold_verdict ::
  "mints_codec \<Rightarrow> string \<Rightarrow> AwardAttempt \<Rightarrow> int \<Rightarrow> u64 \<Rightarrow> SendOutcome \<Rightarrow> buyer_db \<times> 'w \<Rightarrow> (AwardError + AwardOutcome) \<times> buyer_db \<times> 'w"
where
  "fold_verdict mc job attempt now prior_sends verdict =
     (case verdict of
        Acked \<Rightarrow>
          st_bind (try_store (mark_attempt_confirmed job now)) (\<lambda>_.
          st_bind (try_store (record_award job (att_claim_id attempt) (att_award_event_id attempt)
                     (att_seller_pubkey attempt) (att_amount_sats attempt) now)) (\<lambda>_.
            st_lift (Inr (Published \<lparr>oc_award_event_id = att_award_event_id attempt, oc_job_id = job,
              oc_claim_id = att_claim_id attempt, oc_seller_pubkey = att_seller_pubkey attempt,
              oc_quoted_mints = dec_mints mc (att_quoted_mints_json attempt)\<rparr>))))
      | SendRefused detail \<Rightarrow>
          if prior_sends > 0
          then st_lift (Inl (UnresolvedError job (att_award_event_id attempt) ''the relay refused a RE-send''))
          else st_bind (on_store PresenceError (mark_attempt_refused job detail now)) (\<lambda>won.
            if \<not> won
            then st_lift (Inl (UnresolvedError job (att_award_event_id attempt)
                   ''the relay refused this transmission, but the attempt was resolved concurrently''))
            else st_bind (on_store StoreFailure (store_release job now)) (\<lambda>_.
                   st_lift (Inl (RefusedError job detail))))
      | SendUnresolved detail \<Rightarrow> st_lift (Inl (UnresolvedError job (att_award_event_id attempt) detail)))"

definition drive_send ::
  "mints_codec \<Rightarrow> string \<Rightarrow> AwardAttempt \<Rightarrow> (string \<Rightarrow> string \<Rightarrow> 'w \<Rightarrow> SendOutcome \<times> 'w) \<Rightarrow> int \<Rightarrow> u64 option \<Rightarrow>
   buyer_db \<times> 'w \<Rightarrow> (AwardError + AwardOutcome) \<times> buyer_db \<times> 'w"
where
  "drive_send mc job attempt send now licensed_prior_sends =
     st_bind
       (case licensed_prior_sends of
          Some prior \<Rightarrow> st_lift (Inr (max prior (saturating_sub (att_send_count attempt) 1)))
        | None \<Rightarrow> on_store PresenceError (record_attempt_send job now))
     (\<lambda>prior_sends.
     st_bind (on_relay (send (att_event_json attempt) (att_award_event_id attempt))) (\<lambda>verdict.
       fold_verdict mc job attempt now prior_sends verdict))"

definition record_and_read_back ::
  "string \<Rightarrow> AwardAttempt \<Rightarrow> int \<Rightarrow> buyer_db \<times> 'w \<Rightarrow> (AwardError + AwardRecord) \<times> buyer_db \<times> 'w"
where
  "record_and_read_back job attempt now =
     st_bind (on_store (\<lambda>e. PublishedButUnrecorded job (att_award_event_id attempt)
                          ''writing the awards row from the confirmed attempt failed'')
                (record_award job (att_claim_id attempt) (att_award_event_id attempt) (att_seller_pubkey attempt)
                   (att_amount_sats attempt) now)) (\<lambda>_.
     st_bind (on_store PresenceError (award_record job)) (\<lambda>row.
       st_lift (ok_or (PublishedButUnrecorded job (att_award_event_id attempt)
         ''the awards row written from the confirmed attempt did not read back'') row)))"

definition probe_legacy ::
  "'w award_effects \<Rightarrow> string \<Rightarrow> u64 \<Rightarrow> MintCeiling \<Rightarrow> int \<Rightarrow> buyer_db \<times> 'w \<Rightarrow> (AwardError + AwardOutcome) \<times> buyer_db \<times> 'w"
where
  "probe_legacy E job amt ceiling now =
     st_bind (on_relay (probe E)) (\<lambda>presence.
       case presence of
         Inr (Present (Repairable relayed)) \<Rightarrow>
           st_bind (rehold job amt ceiling now (\<lambda>_. PublishedButUnrecorded job (ra_award_event_id relayed)
                      ''the award is public but re-reserving its funds was refused'')) (\<lambda>_.
           st_bind (on_store (\<lambda>_. PublishedButUnrecorded job (ra_award_event_id relayed)
                      ''repairing the missing awards row failed'')
                     (record_award job (ra_claim_id relayed) (ra_award_event_id relayed) (ra_seller_pubkey relayed)
                        amt now)) (\<lambda>_.
           st_bind (on_store PresenceError (award_record job)) (\<lambda>row.
             st_lift (try_bind (ok_or (PublishedButUnrecorded job (ra_award_event_id relayed)
               ''the repaired awards row did not read back'') row) (\<lambda>r. Inr (AlreadyAwarded r))))))
       | Inr (Present (Unrepairable event detail)) \<Rightarrow> st_lift (Inl (PublishedButUnrecorded job event detail))
       | Inr ConfirmedAbsent \<Rightarrow>
           st_bind (on_store StoreFailure (store_release job now)) (\<lambda>_.
             st_lift (Inl (RefusedError job ''this job predates the award attempt ledger and the relay confirms no award is public; refusing to select a claim again (awards are write-once per offer)'')))
       | Inr Unverified \<Rightarrow> st_lift (Inl (PresenceUnverified job ''the relay did not demonstrate it was serving reads, so its empty answer proves nothing''))
       | Inl error \<Rightarrow> st_lift (Inl (PresenceUnverified job error)))"

definition fresh_award ::
  "mints_codec \<Rightarrow> 'w award_effects \<Rightarrow> string \<Rightarrow> u64 \<Rightarrow> MintCeiling \<Rightarrow> int \<Rightarrow> buyer_db \<times> 'w \<Rightarrow>
   (AwardError + AwardOutcome) \<times> buyer_db \<times> 'w"
where
  "fresh_award mc E job amount ceiling now =
     st_bind (on_store ReserveError (store_reserve_at job amount ceiling now)) (\<lambda>_.
     st_bind (on_relay (prepare E)) (\<lambda>prepared.
       case prepared of
         Inl error \<Rightarrow>
           st_bind (on_store StoreFailure (store_release job now)) (\<lambda>_. st_lift (Inl (PublishError error)))
       | Inr p \<Rightarrow>
           (let candidate = \<lparr>att_job_id = job, att_claim_id = pa_claim_id p, att_seller_pubkey = pa_seller_pubkey p,
              att_award_event_id = pa_award_event_id p, att_event_json = pa_event_json p, att_amount_sats = amount,
              att_quoted_mints_json = enc_mints mc (pa_quoted_mints p),
              att_offer_deadline_unix = pa_offer_deadline_unix p, att_send_count = 0, att_relay_url = pa_relay_url p,
              att_state = Pending, att_detail = None\<rparr>
            in st_bind (try_store (begin_award_attempt candidate now)) (\<lambda>pin.
                 case pin of
                   Inr Pinned \<Rightarrow> drive_send mc job candidate (transmit E) now None
                 | Inr (Existing existing) \<Rightarrow>
                     st_lift (Inl (UnresolvedError job (att_award_event_id existing)
                       ''an award attempt for this job appeared concurrently; retry to resolve the pinned attempt''))
                 | Inl error \<Rightarrow>
                     st_bind (on_store StoreFailure (store_release job now)) (\<lambda>_. st_lift (Inl (PresenceError error)))))))"

text \<open>The arm of the match on \<open>award_step\<close>, and the three local reads before it.\<close>

definition award_arm ::
  "mints_codec \<Rightarrow> 'w award_effects \<Rightarrow> string \<Rightarrow> u64 \<Rightarrow> MintCeiling \<Rightarrow> int \<Rightarrow> u64 option \<Rightarrow>
   AwardRecord option \<Rightarrow> AwardAttempt option \<Rightarrow> (ReservationState \<times> u64) option \<Rightarrow>
   buyer_db \<times> 'w \<Rightarrow> (AwardError + AwardOutcome) \<times> buyer_db \<times> 'w"
where
  "award_arm mc E job amount ceiling now licensed_prior_sends existing attempt hold =
     (case award_step (existing \<noteq> None) (map_option att_state attempt) (map_option fst hold) of
        StepAlreadyAwarded \<Rightarrow>
          st_bind (try_store (mark_attempt_confirmed job now)) (\<lambda>_. st_lift (Inr (AlreadyAwarded (the existing))))
      | RepairFromAttempt \<Rightarrow>
          st_bind (rehold job (att_amount_sats (the attempt)) ceiling now (\<lambda>_. PublishedButUnrecorded job
                     (att_award_event_id (the attempt)) ''the award is public but re-reserving its funds was refused'')) (\<lambda>_.
          st_bind (record_and_read_back job (the attempt) now) (\<lambda>r. st_lift (Inr (AlreadyAwarded r))))
      | RefusedTerminal \<Rightarrow>
          st_bind (if map_option fst hold = Some Reserved
                   then st_bind (on_store StoreFailure (store_release job now)) (\<lambda>_. st_lift (Inr ()))
                   else st_lift (Inr ())) (\<lambda>_.
            st_lift (Inl (RefusedError job (case att_detail (the attempt) of
              Some detail \<Rightarrow> detail | None \<Rightarrow> ''the relay refused the award event''))))
      | ResumeAttempt \<Rightarrow>
          st_bind (rehold job (att_amount_sats (the attempt)) ceiling now ReserveError) (\<lambda>_.
            drive_send mc job (the attempt) (transmit E) now licensed_prior_sends)
      | ProbeLegacy \<Rightarrow> probe_legacy E job (snd (the hold)) ceiling now
      | Fresh \<Rightarrow> fresh_award mc E job amount ceiling now)"

definition award_with_reservation ::
  "mints_codec \<Rightarrow> 'w award_effects \<Rightarrow> string \<Rightarrow> u64 \<Rightarrow> MintCeiling \<Rightarrow> int \<Rightarrow> u64 option \<Rightarrow> buyer_db \<times> 'w \<Rightarrow>
   (AwardError + AwardOutcome) \<times> buyer_db \<times> 'w"
where
  "award_with_reservation mc E job amount ceiling now licensed_prior_sends =
     st_bind (on_store PresenceError (award_record job)) (\<lambda>existing.
     st_bind (on_store PresenceError (award_attempt job)) (\<lambda>attempt.
     st_bind (on_store PresenceError (reservation job)) (\<lambda>hold.
       award_arm mc E job amount ceiling now licensed_prior_sends existing attempt hold)))"

datatype 'e SettleError = SettlePay 'e | SettleStore string

definition settle_after_pay ::
  "string \<Rightarrow> int \<Rightarrow> ('w \<Rightarrow> ('e + 't) \<times> 'w) \<Rightarrow> ('t \<Rightarrow> u64) \<Rightarrow> buyer_db \<times> 'w \<Rightarrow>
   ('e SettleError + ('t \<times> Converted)) \<times> buyer_db \<times> 'w"
where
  "settle_after_pay job now pay amount_of =
     st_bind (on_relay pay) (\<lambda>res.
       case res of
         Inl e \<Rightarrow> st_lift (Inl (SettlePay e))
       | Inr paid \<Rightarrow>
           st_bind (on_store SettleStore (store_convert_to_spent job (amount_of paid) now)) (\<lambda>converted.
             st_lift (Inr (paid, converted))))"

definition terminalize_absent_attempt :: "string \<Rightarrow> string \<Rightarrow> int \<Rightarrow> buyer_db \<Rightarrow> (string + bool) \<times> buyer_db" where
  "terminalize_absent_attempt job detail now =
     st_bind (award_record job) (\<lambda>row.
       if row \<noteq> None then st_lift (Inr False)
       else st_bind (mark_attempt_refused job detail now) (\<lambda>won.
         if \<not> won then st_lift (Inr False)
         else st_bind (store_release job now) (\<lambda>_.
              st_bind (mark_award_parked job detail now) (\<lambda>_. st_lift (Inr True)))))"

text \<open>The chokepoint call that never transmits and never signs: it replays a verdict the caller
  already has, or none.\<close>

definition replay_effects :: "'w award_effects \<Rightarrow> SendOutcome option \<Rightarrow> 'w award_effects" where
  "replay_effects E verdict =
     \<lparr>probe = probe E, prepare = (\<lambda>w. (Inl ''a pinned attempt must not re-prepare'', w)),
      transmit = (\<lambda>_ _ w. (case verdict of None \<Rightarrow> SendUnresolved ''this resolution path does not transmit'' | Some v \<Rightarrow> v, w))\<rparr>"

definition resolve_attempt_via_chokepoint ::
  "mints_codec \<Rightarrow> 'w award_effects \<Rightarrow> string \<Rightarrow> u64 \<Rightarrow> string + MintCeiling \<Rightarrow> int \<Rightarrow> SendOutcome option \<Rightarrow> u64 option \<Rightarrow>
   buyer_db \<times> 'w \<Rightarrow> (AwardError + AwardOutcome) \<times> buyer_db \<times> 'w"
where
  "resolve_attempt_via_chokepoint mc E job amount ceiling now verdict licensed_prior_sends =
     st_bind (st_lift (map_err PresenceError ceiling)) (\<lambda>c.
       award_with_reservation mc (replay_effects E verdict) job amount c now licensed_prior_sends)"

definition resume_crossed_deadline :: "AwardAttempt \<Rightarrow> int \<Rightarrow> bool" where
  "resume_crossed_deadline attempt now \<longleftrightarrow> att_state attempt = Pending \<and> now > att_offer_deadline_unix attempt"

text \<open>The license section of the attempt sweep: funding and the count of the transmission are
  durable before the bytes leave.\<close>

definition license_resend ::
  "AwardAttempt \<Rightarrow> string + MintCeiling \<Rightarrow> int \<Rightarrow> buyer_db \<Rightarrow> (string + u64 option) \<times> buyer_db"
where
  "license_resend attempt snapshot now =
     st_bind (award_attempt (att_job_id attempt)) (\<lambda>current.
       case current of
         None \<Rightarrow> st_lift (Inr None)
       | Some c \<Rightarrow>
           if resume_crossed_deadline c now then st_lift (Inr None)
           else if att_state c = Pending then
             (case snapshot of
                Inl _ \<Rightarrow> st_lift (Inr None)
              | Inr ceiling \<Rightarrow>
                  (\<lambda>db. case store_reserve_at (att_job_id attempt) (att_amount_sats attempt) ceiling now db of
                     (res, db') \<Rightarrow>
                       (case res of
                          Inl (AlreadySpentRefused _) \<Rightarrow> st_bind (record_attempt_send (att_job_id attempt) now) (\<lambda>p. st_lift (Inr (Some p))) db'
                        | Inl _ \<Rightarrow> (Inr None, db')
                        | Inr _ \<Rightarrow> st_bind (record_attempt_send (att_job_id attempt) now) (\<lambda>p. st_lift (Inr (Some p))) db')))
           else st_lift (Inr None))"

text \<open>The sweep over one pending attempt inside its deadline and without an awards row.\<close>

definition sweep_resend ::
  "AwardAttempt \<Rightarrow> string + MintCeiling \<Rightarrow> int \<Rightarrow> (string \<Rightarrow> string \<Rightarrow> 'w \<Rightarrow> SendOutcome \<times> 'w) \<Rightarrow>
   buyer_db \<times> 'w \<Rightarrow> (unit + (u64 \<times> SendOutcome) option) \<times> buyer_db \<times> 'w"
where
  "sweep_resend attempt snapshot now send =
     st_bind (try_store (license_resend attempt snapshot now)) (\<lambda>licensed.
       case licensed of
         Inr (Some prior) \<Rightarrow>
           st_bind (on_relay (send (att_event_json attempt) (att_award_event_id attempt))) (\<lambda>verdict.
             st_lift (Inr (Some (prior, verdict))))
       | _ \<Rightarrow> st_lift (Inr None))"

end
