(* ===== verification/Award_Safety.thy ===== *)
theory Award_Safety
  imports Award
begin

text \<open>
  The safety of the award path: which bytes can reach the relay for a job, what a refusal proves,
  and that the funds of an open award stay held. The transmissions are logged in the world; the
  invariant relates the log to the attempt table and to the reservations, and each operation is
  shown to keep it, whatever the relay, the signer and the database answer.
\<close>

section \<open>The invariant\<close>

type_synonym wire_log = "(string \<times> string) list"

definition sent :: "string \<Rightarrow> wire_log \<Rightarrow> int" where
  "sent job log = int (length (filter (\<lambda>(j, _). j = job) log))"

definition secured :: "res_table \<Rightarrow> string \<Rightarrow> bool" where
  "secured t job \<longleftrightarrow> (\<exists>r. map_of t job = Some r \<and> r_state r \<noteq> Released)"

definition attempt_safe :: "bool \<Rightarrow> buyer_db \<Rightarrow> wire_log \<Rightarrow> string \<Rightarrow> attempt_row \<Rightarrow> bool" where
  "attempt_safe strict db log job r \<longleftrightarrow>
     sent job log \<le> at_send_count r \<and> at_send_count r < 2 ^ 63 \<and>
     (strict \<and> at_state r = Refused \<longrightarrow> sent job log \<le> 1) \<and>
     (at_state r = Pending \<longrightarrow> secured (reservations db) job)"

definition safe :: "bool \<Rightarrow> buyer_db \<Rightarrow> wire_log \<Rightarrow> bool" where
  "safe strict db log \<longleftrightarrow>
     (\<forall>job bytes. (job, bytes) \<in> set log \<longrightarrow>
        (\<exists>r. map_of (award_attempts db) job = Some r \<and> at_event_json r = bytes)) \<and>
     (\<forall>job r. map_of (award_attempts db) job = Some r \<longrightarrow> attempt_safe strict db log job r)"

lemma sent_nonneg: "0 \<le> sent job log"
  by (simp add: sent_def)

lemma sent_snoc [simp]: "sent job (log @ [(j, b)]) = (if j = job then sent job log + 1 else sent job log)"
  by (simp add: sent_def)

lemma safeD:
  assumes "safe strict db log" and "map_of (award_attempts db) job = Some r"
  shows "attempt_safe strict db log job r"
  using assms by (auto simp: safe_def)

lemma safe_unsent: "safe strict db log \<Longrightarrow> map_of (award_attempts db) job = None \<Longrightarrow> sent job log = 0"
  by (fastforce simp: safe_def sent_def filter_empty_conv)

text \<open>Calls that leave the attempts alone and free nothing.\<close>

definition keeps :: "buyer_db \<Rightarrow> buyer_db \<Rightarrow> bool" where
  "keeps db db' \<longleftrightarrow> award_attempts db' = award_attempts db \<and>
     (\<forall>job. secured (reservations db) job \<longrightarrow> secured (reservations db') job)"

lemma keeps_refl [simp]: "keeps db db" and keeps_faults [simp]: "keeps db (db\<lparr>db_faults := f\<rparr>)"
  by (simp_all add: keeps_def)

lemma keeps_trans: "keeps db db' \<Longrightarrow> keeps db' db'' \<Longrightarrow> keeps db db''"
  by (simp add: keeps_def)

lemma keeps_safe: "keeps db db' \<Longrightarrow> safe strict db log \<Longrightarrow> safe strict db' log"
  by (simp add: keeps_def safe_def attempt_safe_def)

lemma db_call_keeps: "db_call db = (r, db') \<Longrightarrow> keeps db db'"
  by (auto simp: db_call_def split: list.splits option.splits)

lemma db_call_tables:
  "db_call db = (r, db') \<Longrightarrow> award_attempts db' = award_attempts db \<and> reservations db' = reservations db \<and> awards db' = awards db"
  by (auto simp: db_call_def split: list.splits option.splits)

lemma db_write_cases:
  assumes "db_write f db = (r, db')"
  obtains (fault) e where "r = Inl e" "db_call db = (Inl e, db')"
  | (ran) db1 where "db_call db = (Inr (), db1)" "r = Inr (fst (f db1))" "db' = snd (f db1)"
  using assms unfolding db_write_def by (elim st_bind_cases) (auto split: prod.splits)

lemma db_read_keeps: "db_read f db = (r, db') \<Longrightarrow> keeps db db'"
  by (auto simp: db_read_def elim!: st_bind_cases dest: db_call_keeps)

lemma db_read_value:
  "db_read f db = (Inr x, db') \<Longrightarrow> award_attempts db' = award_attempts db \<and> reservations db' = reservations db \<and> x = f db'"
  by (auto simp: db_read_def elim!: st_bind_cases dest: db_call_tables)

lemma reserve_at_secures:
  assumes "reserve_at job amount c now t = (res, t')" and "secured t j"
  shows "secured t' j"
  using assms
  by (auto simp: reserve_at_def secured_def Let_def upsert_reserved_def
        split: option.splits ReservationState.splits sum.splits if_splits)

lemma reserve_at_ok_secured: "reserve_at job amount c now t = (Inr res, t') \<Longrightarrow> secured t' job"
  by (auto simp: reserve_at_def secured_def Let_def upsert_reserved_def
        split: option.splits ReservationState.splits sum.splits if_splits)

lemma store_reserve_cases:
  assumes "store_reserve_at job amount c now db = (res, db')"
  obtains (fault) e where "res = Inl (ReserveStore e)" "award_attempts db' = award_attempts db" "reservations db' = reservations db"
  | (ran) "reserve_at job amount c now (reservations db) = (res, reservations db')" "award_attempts db' = award_attempts db"
proof -
  obtain x db1 where call: "db_call db = (x, db1)" by (cases "db_call db")
  note t = db_call_tables [OF call]
  show thesis
  proof (cases x)
    case (Inl e)
    then show thesis using assms call t fault by (auto simp: store_reserve_at_def st_bind_def st_map_err_def)
  next
    case (Inr u)
    then show thesis using assms call t ran
      by (cases "reserve_at job amount c now (reservations db1)") (auto simp: store_reserve_at_def st_bind_def st_map_err_def)
  qed
qed

lemma store_reserve_keeps: "store_reserve_at job amount c now db = (res, db') \<Longrightarrow> keeps db db'"
  by (erule store_reserve_cases) (auto simp: keeps_def intro: reserve_at_secures)

lemma store_reserve_ok: "store_reserve_at job amount c now db = (Inr res, db') \<Longrightarrow> secured (reservations db') job"
  by (erule store_reserve_cases) (auto intro: reserve_at_ok_secured)

lemma award_record_keeps: "award_record job db = (res, db') \<Longrightarrow> keeps db db'"
  unfolding award_record_def by (rule db_read_keeps)

lemma record_award_keeps: "record_award job c e s a now db = (res, db') \<Longrightarrow> keeps db db'"
  by (auto simp: record_award_def keeps_def elim!: st_bind_cases dest!: db_call_tables split: if_splits)

lemma release_other: "j \<noteq> job \<Longrightarrow> map_of (snd (release job now t)) j = map_of t j"
  by (auto simp: release_def set_state_map_of split: option.splits ReservationState.splits)

lemma store_release_safe:
  assumes "store_release job now db = (res, db')" and "safe strict db log"
    and "\<And>r. map_of (award_attempts db) job = Some r \<Longrightarrow> at_state r \<noteq> Pending"
  shows "safe strict db' log" and "award_attempts db' = award_attempts db"
proof -
  obtain x db1 where call: "db_call db = (x, db1)" by (cases "db_call db")
  have "award_attempts db' = award_attempts db \<and>
      (reservations db' = reservations db \<or> reservations db' = snd (release job now (reservations db)))"
    using assms(1) db_call_tables [OF call] call
    by (cases x; cases "release job now (reservations db1)") (auto simp: store_release_def db_write_def st_bind_def)
  then have t: "award_attempts db' = award_attempts db"
    "\<And>j. j \<noteq> job \<Longrightarrow> map_of (reservations db') j = map_of (reservations db) j"
    using release_other by auto
  have "attempt_safe strict db' log j r" if "map_of (award_attempts db) j = Some r" for j r
    using safeD [OF assms(2) that] assms(3) [of r] that t(2) [of j]
    by (cases "j = job") (simp_all add: attempt_safe_def secured_def)
  then show "safe strict db' log" using assms(2) t(1) by (simp add: safe_def)
  show "award_attempts db' = award_attempts db" by (rule t(1))
qed

text \<open>A change of one attempt row that keeps its bytes.\<close>

lemma safe_update_row:
  assumes "safe strict db log" and "map_of (award_attempts db) job = Some r" and "at_event_json r' = at_event_json r"
    and "award_attempts db' = AList.update job r' (award_attempts db)" and "reservations db' = reservations db"
    and "attempt_safe strict db log job r'"
  shows "safe strict db' log"
proof -
  have "\<exists>x. map_of (award_attempts db') j = Some x \<and> at_event_json x = b" if "(j, b) \<in> set log" for j b
    using that assms(1-4) by (cases "j = job") (fastforce simp: safe_def)+
  moreover have "attempt_safe strict db' log j x" if "map_of (award_attempts db') j = Some x" for j x
    using that assms(4-6) safeD [OF assms(1), of j x] by (auto simp: attempt_safe_def split: if_splits)
  ultimately show ?thesis by (simp add: safe_def)
qed

section \<open>The award path keeps it\<close>

text \<open>Effects whose transmissions are logged: once per call where the call owns the license to
  send, never where the caller has sent already.\<close>

definition wired :: "string \<Rightarrow> bool \<Rightarrow> ('w \<times> wire_log) award_effects \<Rightarrow> bool" where
  "wired job owns E \<longleftrightarrow>
     (\<forall>w log r w' log'. probe E (w, log) = (r, w', log') \<longrightarrow> log' = log) \<and>
     (\<forall>w log r w' log'. prepare E (w, log) = (r, w', log') \<longrightarrow> log' = log) \<and>
     (\<forall>b e w log r w' log'. transmit E b e (w, log) = (r, w', log') \<longrightarrow>
        log' = log \<or> (owns \<and> log' = log @ [(job, b)]))"

definition phase :: "bool \<Rightarrow> (buyer_db \<Rightarrow> wire_log \<Rightarrow> bool) \<Rightarrow> buyer_db \<times> 'w \<times> wire_log \<Rightarrow> bool" where
  "phase strict X s \<longleftrightarrow> safe strict (fst s) (snd (snd s)) \<and> X (fst s) (snd (snd s))"

abbreviation anything :: "buyer_db \<Rightarrow> wire_log \<Rightarrow> bool" where
  "anything \<equiv> \<lambda>_ _. True"

definition stable_cond :: "(buyer_db \<Rightarrow> wire_log \<Rightarrow> bool) \<Rightarrow> bool" where
  "stable_cond X \<longleftrightarrow> (\<forall>db db' log. keeps db db' \<longrightarrow> X db log \<longrightarrow> X db' log)"

definition pinned :: "string \<Rightarrow> (attempt_row option \<Rightarrow> bool) \<Rightarrow> buyer_db \<Rightarrow> wire_log \<Rightarrow> bool" where
  "pinned job p db log \<longleftrightarrow> p (map_of (award_attempts db) job)"

lemma stable_anything [simp]: "stable_cond anything"
  by (simp add: stable_cond_def)

lemma stable_pinned [simp]: "stable_cond (pinned job p)"
  by (simp add: stable_cond_def pinned_def keeps_def)

lemma phase_weaken: "phase strict X s \<Longrightarrow> phase strict anything s"
  by (simp add: phase_def)

lemma store_triple:
  assumes "\<And>db r db' log. safe strict db log \<Longrightarrow> X db log \<Longrightarrow> m db = (r, db') \<Longrightarrow>
      safe strict db' log \<and> (\<forall>x. r = Inr x \<longrightarrow> Y x db' log)"
  shows "triple (phase strict X) (on_store h m) (\<lambda>x. phase strict (Y x)) (\<lambda>_. phase strict anything)"
  unfolding triple_def
proof (intro allI impI)
  fix s :: "buyer_db \<times> 'w \<times> wire_log" and r t
  assume s: "phase strict X s" and run: "on_store h m s = (r, t)"
  obtain db w log where st: "s = (db, w, log)" by (cases s)
  obtain x db' where m: "m db = (x, db')" by (cases "m db")
  show "case r of Inl e \<Rightarrow> phase strict anything t | Inr x \<Rightarrow> phase strict (Y x) t"
    using assms [of db log x db'] s run st m by (cases x) (auto simp: on_store_def phase_def)
qed

lemma try_triple:
  assumes "\<And>db r db' log. safe strict db log \<Longrightarrow> X db log \<Longrightarrow> m db = (r, db') \<Longrightarrow>
      safe strict db' log \<and> Y r db' log"
  shows "triple (phase strict X) (try_store m) (\<lambda>x. phase strict (Y x)) (\<lambda>_. phase strict anything)"
  unfolding triple_def
proof (intro allI impI)
  fix s :: "buyer_db \<times> 'w \<times> wire_log" and r t
  assume s: "phase strict X s" and run: "try_store m s = (r, t)"
  obtain db w log where st: "s = (db, w, log)" by (cases s)
  obtain x db' where m: "m db = (x, db')" by (cases "m db")
  show "case r of Inl e \<Rightarrow> phase strict anything t | Inr x \<Rightarrow> phase strict (Y x) t"
    using assms [of db log x db'] s run st m by (auto simp: try_store_def phase_def)
qed

lemma relay_triple:
  fixes m :: "'w \<times> wire_log \<Rightarrow> 'a \<times> 'w \<times> wire_log" and R :: "'e \<Rightarrow> buyer_db \<times> 'w \<times> wire_log \<Rightarrow> bool"
  assumes "\<And>db w log r w' log'. safe strict db log \<Longrightarrow> X db log \<Longrightarrow> m (w, log) = (r, w', log') \<Longrightarrow>
      safe strict db log' \<and> Y r db log'"
  shows "triple (phase strict X) (on_relay m) (\<lambda>x. phase strict (Y x)) R"
  unfolding triple_def
proof (intro allI impI)
  fix s :: "buyer_db \<times> 'w \<times> wire_log" and r :: "'e + 'a" and t
  assume s: "phase strict X s" and run: "on_relay m s = (r, t)"
  obtain db w log where st: "s = (db, w, log)" by (cases s)
  obtain x w' log' where m: "m (w, log) = (x, w', log')" by (cases "m (w, log)")
  show "case r of Inl e \<Rightarrow> R e t | Inr x \<Rightarrow> phase strict (Y x) t"
    using assms [of db log w x w' log'] s run st m by (auto simp: on_relay_def phase_def)
qed

lemma done_triple: "triple (phase strict X) (st_lift r) (\<lambda>_. phase strict anything) (\<lambda>_. phase strict anything)"
  by (rule triple_lift) (auto intro: phase_weaken)

text \<open>The steps as rules from the front: a call that keeps the attempts, and a release.\<close>

lemma keeps_phase: "keeps db db' \<Longrightarrow> stable_cond X \<Longrightarrow> safe strict db log \<Longrightarrow> X db log \<Longrightarrow> safe strict db' log \<and> X db' log"
  using keeps_safe unfolding stable_cond_def by blast

lemma then_keep:
  assumes "\<And>db r db'. m db = (r, db') \<Longrightarrow> keeps db db'" and "stable_cond X"
    and "\<And>x. triple (phase strict X) (f x) Q (\<lambda>_. phase strict anything)"
  shows "triple (phase strict X) (st_bind (on_store h m) f) Q (\<lambda>_. phase strict anything)"
proof (rule triple_bind [OF store_triple [where Y = "\<lambda>_. X"]])
  fix db r db' log
  assume a: "safe strict db log" "X db log" "m db = (r, db')"
  have "safe strict db' log \<and> X db' log" by (rule keeps_phase [OF assms(1) [OF a(3)] assms(2) a(1,2)])
  then show "safe strict db' log \<and> (\<forall>x. r = Inr x \<longrightarrow> X db' log)" by simp
qed (rule assms(3))

lemma then_try_keep:
  assumes "\<And>db r db'. m db = (r, db') \<Longrightarrow> keeps db db'" and "stable_cond X"
    and "\<And>x. triple (phase strict X) (f x) Q (\<lambda>_. phase strict anything)"
  shows "triple (phase strict X) (st_bind (try_store m) f) Q (\<lambda>_. phase strict anything)"
proof (rule triple_bind [OF try_triple [where Y = "\<lambda>_. X"]])
  fix db r db' log
  assume a: "safe strict db log" "X db log" "m db = (r, db')"
  have "safe strict db' log \<and> X db' log" by (rule keeps_phase [OF assms(1) [OF a(3)] assms(2) a(1,2)])
  then show "safe strict db' log \<and> X db' log" by simp
qed (rule assms(3))

lemma then_release:
  assumes "\<And>db log r. X db log \<Longrightarrow> map_of (award_attempts db) job = Some r \<Longrightarrow> at_state r \<noteq> Pending"
    and "\<And>x. triple (phase strict anything) (f x) Q (\<lambda>_. phase strict anything)"
  shows "triple (phase strict X) (st_bind (on_store h (store_release job now)) f) Q (\<lambda>_. phase strict anything)"
proof (rule triple_bind [OF store_triple [where Y = "\<lambda>_. anything"]])
  show "safe strict db' log \<and> (\<forall>x. r = Inr x \<longrightarrow> True)"
    if "safe strict db log" "X db log" "store_release job now db = (r, db')" for db r db' log
    using store_release_safe(1) [OF that(3,1)] assms(1) [OF that(2)] by blast
qed (rule assms(2))

lemma rehold_triple:
  assumes "stable_cond X"
  shows "triple (phase strict X) (rehold job amount c now h) (\<lambda>_. phase strict X) (\<lambda>_. phase strict anything)"
  unfolding rehold_def
  by (rule then_try_keep [OF store_reserve_keeps assms])
     (auto intro!: triple_lift intro: phase_weaken split: sum.splits ReserveRefused.splits)

text \<open>Before a send the row is pending with the bytes to be sent. Where the call owns the license it
  is counted first; where a license is carried, the count the attempt was read with is the row's.\<close>

definition sendable :: "string \<Rightarrow> AwardAttempt \<Rightarrow> bool \<Rightarrow> buyer_db \<Rightarrow> wire_log \<Rightarrow> bool" where
  "sendable job a owns = pinned job (\<lambda>x. \<exists>r. x = Some r \<and> at_state r = Pending \<and> at_event_json r = att_event_json a \<and>
     (\<not> owns \<longrightarrow> att_send_count a = clamp_u64 (at_send_count r)))"

definition counted :: "string \<Rightarrow> AwardAttempt \<Rightarrow> bool \<Rightarrow> u64 \<Rightarrow> buyer_db \<Rightarrow> wire_log \<Rightarrow> bool" where
  "counted job a owns prior db log \<longleftrightarrow>
     (\<exists>r. map_of (award_attempts db) job = Some r \<and> at_state r = Pending \<and> at_event_json r = att_event_json a \<and>
        (owns \<longrightarrow> sent job log + 1 \<le> at_send_count r) \<and> (prior = 0 \<longrightarrow> at_send_count r \<le> 1))"

definition judged :: "string \<Rightarrow> u64 \<Rightarrow> buyer_db \<Rightarrow> wire_log \<Rightarrow> bool" where
  "judged job prior = pinned job (\<lambda>x. \<exists>r. x = Some r \<and> (prior = 0 \<longrightarrow> at_send_count r \<le> 1))"

lemma clamp_zero: "clamp_u64 n = 0 \<Longrightarrow> n < 2 ^ 63 \<Longrightarrow> n \<le> 0"
  using clamp_exact [of n] by (cases "n \<le> 0") auto

lemma record_send_counts:
  assumes "safe strict db log" and "sendable job a True db log" and "record_attempt_send job now db = (r, db')"
  shows "safe strict db' log \<and> (\<forall>p. r = Inr p \<longrightarrow> counted job a True p db' log)"
proof -
  obtain x db1 where call: "db_call db = (x, db1)" by (cases "db_call db")
  note t = db_call_tables [OF call] and k = keeps_safe [OF db_call_keeps [OF call] assms(1)]
  obtain row where row: "map_of (award_attempts db) job = Some row" "at_state row = Pending"
      "at_event_json row = att_event_json a"
    using assms(2) by (auto simp: sendable_def pinned_def)
  note s = safeD [OF assms(1) row(1)]
  show ?thesis
  proof (cases "(\<exists>e. x = Inl e) \<or> at_send_count row + 1 \<ge> 2 ^ 63")
    case True
    then have "db' = db1 \<and> (\<exists>e. r = Inl e)"
      using assms(3) call t row by (cases x) (auto simp: record_attempt_send_def st_bind_def)
    then show ?thesis using k by auto
  next
    case False
    let ?row = "row\<lparr>at_send_count := at_send_count row + 1, at_updated_at_unix := now\<rparr>"
    have db': "r = Inr (clamp_u64 (at_send_count row))" "award_attempts db' = AList.update job ?row (award_attempts db1)"
        "reservations db' = reservations db1"
      using False assms(3) call t row by (cases x; auto simp: record_attempt_send_def st_bind_def)+
    have "safe strict db' log"
      using s row(2) False t by (intro safe_update_row [OF k _ _ db'(2,3)]) (auto simp: attempt_safe_def row)
    moreover have "counted job a True p db' log" if "r = Inr p" for p
      using that s row db' clamp_zero [of "at_send_count row"] False by (auto simp: counted_def attempt_safe_def)
    ultimately show ?thesis by blast
  qed
qed

lemma transmit_logs:
  assumes "wired job owns E" and "safe strict db log" and "counted job a owns prior db log"
    and "transmit E (att_event_json a) e (w, log) = (v, w', log')"
  shows "safe strict db log' \<and> judged job prior db log'"
proof -
  obtain r where r: "map_of (award_attempts db) job = Some r" "at_state r = Pending" "at_event_json r = att_event_json a"
      "owns \<longrightarrow> sent job log + 1 \<le> at_send_count r" "prior = 0 \<longrightarrow> at_send_count r \<le> 1"
    using assms(3) by (auto simp: counted_def)
  have "log' = log \<or> owns \<and> log' = log @ [(job, att_event_json a)]"
    using assms(1,4) unfolding wired_def by blast
  then have "safe strict db log'"
  proof
    assume l: "owns \<and> log' = log @ [(job, att_event_json a)]"
    have "attempt_safe strict db log' j x" if "map_of (award_attempts db) j = Some x" for j x
      using safeD [OF assms(2) that] r that l by (auto simp: attempt_safe_def)
    then show ?thesis using assms(2) r(1,3) l by (auto simp: safe_def)
  qed (use assms(2) in simp)
  then show ?thesis using r by (auto simp: judged_def pinned_def)
qed

lemma confirm_safe:
  assumes "mark_attempt_confirmed job now db = (r, db')" and "safe strict db log"
  shows "safe strict db' log"
  using assms(1) unfolding mark_attempt_confirmed_def
proof (cases rule: db_write_cases)
  case (fault e)
  then show ?thesis using keeps_safe db_call_keeps assms(2) by blast
next
  case (ran db1)
  have k: "safe strict db1 log" using keeps_safe [OF db_call_keeps [OF ran(1)] assms(2)] .
  show ?thesis
  proof (cases "\<exists>row. map_of (award_attempts db1) job = Some row \<and> at_state row = Pending")
    case True
    then obtain row where row: "map_of (award_attempts db1) job = Some row" "at_state row = Pending" by blast
    let ?row = "row\<lparr>at_state := Confirmed, at_updated_at_unix := now\<rparr>"
    show ?thesis
      by (rule safe_update_row [OF k row(1), where r' = ?row]) (use safeD [OF k row(1)] in \<open>simp_all add: ran(3) row attempt_safe_def\<close>)
  next
    case False
    then have "db' = db1" using ran(3) by (cases "map_of (award_attempts db1) job") simp_all
    then show ?thesis using k by simp
  qed
qed

lemma refuse_safe:
  assumes "mark_attempt_refused job detail now db = (r, db')" and "safe strict db log"
    and "strict \<longrightarrow> sent job log \<le> 1"
  shows "safe strict db' log \<and> (r = Inr True \<longrightarrow> pinned job (\<lambda>x. \<exists>r. x = Some r \<and> at_state r = Refused) db' log)"
  using assms(1) unfolding mark_attempt_refused_def
proof (cases rule: db_write_cases)
  case (fault e)
  then show ?thesis using keeps_safe db_call_keeps assms(2) by blast
next
  case (ran db1)
  have k: "safe strict db1 log" using keeps_safe [OF db_call_keeps [OF ran(1)] assms(2)] .
  show ?thesis
  proof (cases "\<exists>row. map_of (award_attempts db1) job = Some row \<and> at_state row = Pending")
    case True
    then obtain row where row: "map_of (award_attempts db1) job = Some row" "at_state row = Pending" by blast
    let ?row = "row\<lparr>at_state := Refused, at_detail := Some detail, at_updated_at_unix := now\<rparr>"
    have "safe strict db' log"
      by (rule safe_update_row [OF k row(1), where r' = ?row])
         (use safeD [OF k row(1)] assms(3) in \<open>simp_all add: ran(3) row attempt_safe_def\<close>)
    then show ?thesis by (simp add: ran(3) row pinned_def)
  next
    case False
    then have "db' = db1 \<and> r = Inr False" using ran(2,3) by (cases "map_of (award_attempts db1) job") simp_all
    then show ?thesis using k by simp
  qed
qed

lemma carried_license:
  assumes "safe strict db log" and "sendable job a False db log"
  shows "counted job a False (max prior (saturating_sub (att_send_count a) 1)) db log"
proof -
  obtain r where r: "map_of (award_attempts db) job = Some r" "at_state r = Pending" "at_event_json r = att_event_json a"
      "att_send_count a = clamp_u64 (at_send_count r)"
    using assms(2) unfolding sendable_def pinned_def by blast
  have "at_send_count r \<le> 1" if "max prior (saturating_sub (att_send_count a) 1) = 0"
  proof -
    have "saturating_sub (att_send_count a) 1 \<le> max prior (saturating_sub (att_send_count a) 1)" by simp
    then have "att_send_count a \<le> 1"
      using that unat_saturating_sub [of "att_send_count a" 1] by (simp add: word_le_nat_alt)
    then have "uint (att_send_count a) \<le> 1" by (simp add: word_le_def)
    then show ?thesis using clamp_exact [of "at_send_count r"] r(4) safeD [OF assms(1) r(1)]
      by (cases "at_send_count r \<le> 0") (auto simp: attempt_safe_def)
  qed
  then show ?thesis using r by (auto simp: counted_def)
qed

lemma fold_verdict_triple:
  "triple (phase strict (judged job prior)) (fold_verdict mc job a now prior verdict)
    (\<lambda>_. phase strict anything) (\<lambda>_. phase strict anything)"
proof (cases verdict)
  case Acked
  show ?thesis unfolding fold_verdict_def Acked SendOutcome.case
  proof (rule triple_bind [OF try_triple [where Y = "\<lambda>_. anything"]])
    show "safe strict db' log \<and> True"
      if "safe strict db log" "mark_attempt_confirmed job now db = (r, db')" for db r db' log
      using confirm_safe [OF that(2,1)] by simp
  qed (auto intro!: then_try_keep record_award_keeps done_triple)
next
  case (SendRefused detail)
  let ?R = "pinned job (\<lambda>x. \<exists>r. x = Some r \<and> at_state r = Refused)"
  show ?thesis unfolding fold_verdict_def SendRefused SendOutcome.case
  proof (rule triple_if [OF done_triple], rule triple_bind [OF store_triple [where Y = "\<lambda>won. if won then ?R else anything"]])
    fix db r db' log
    assume n: "\<not> prior > 0" and s: "safe strict db log" and j: "judged job prior db log"
      and m: "mark_attempt_refused job detail now db = (r, db')"
    obtain row where row: "map_of (award_attempts db) job = Some row" "at_send_count row \<le> 1"
      using j n by (auto simp: judged_def pinned_def word_gt_0)
    have "sent job log \<le> 1" using safeD [OF s row(1)] row(2) by (simp add: attempt_safe_def)
    with refuse_safe [OF m s] show "safe strict db' log \<and> (\<forall>x. r = Inr x \<longrightarrow> (if x then ?R else anything) db' log)"
      by auto
  next
    fix won
    show "triple (phase strict (if won then ?R else anything)) (if \<not> won
            then st_lift (Inl (UnresolvedError job (att_award_event_id a)
                   ''the relay refused this transmission, but the attempt was resolved concurrently''))
            else st_bind (on_store StoreFailure (store_release job now)) (\<lambda>_.
                   st_lift (Inl (RefusedError job detail))))
        (\<lambda>_. phase strict anything) (\<lambda>_. phase strict anything)"
      by (cases won) (auto intro!: then_release done_triple simp: pinned_def)
  qed
next
  case (SendUnresolved detail)
  show ?thesis unfolding fold_verdict_def SendUnresolved SendOutcome.case by (rule done_triple)
qed

lemma drive_send_triple:
  assumes "wired job owns E" and "owns \<longleftrightarrow> licensed = None"
  shows "triple (phase strict (sendable job a owns)) (drive_send mc job a (transmit E) now licensed)
    (\<lambda>_. phase strict anything) (\<lambda>_. phase strict anything)"
  unfolding drive_send_def
proof (rule triple_bind)
  show "triple (phase strict (sendable job a owns))
      (case licensed of Some prior \<Rightarrow> st_lift (Inr (max prior (saturating_sub (att_send_count a) 1)))
        | None \<Rightarrow> on_store PresenceError (record_attempt_send job now))
      (\<lambda>p. phase strict (counted job a owns p)) (\<lambda>_. phase strict anything)"
  proof (cases licensed)
    case None
    then show ?thesis using assms(2) record_send_counts by (auto intro!: store_triple)
  next
    case (Some prior)
    then show ?thesis using assms(2) carried_license by (auto intro!: triple_lift simp: phase_def)
  qed
  fix prior
  show "triple (phase strict (counted job a owns prior))
      (st_bind (on_relay (transmit E (att_event_json a) (att_award_event_id a))) (fold_verdict mc job a now prior))
      (\<lambda>_. phase strict anything) (\<lambda>_. phase strict anything)"
    by (rule triple_bind [OF relay_triple [where Y = "\<lambda>_. judged job prior"] fold_verdict_triple])
       (use transmit_logs [OF assms(1)] in blast)
qed

lemma begin_pins:
  assumes "safe strict db log" and "map_of (award_attempts db) (att_job_id a) = None"
    and "secured (reservations db) (att_job_id a)" and "begin_award_attempt a now db = (r, db')"
  shows "safe strict db' log \<and>
    (case r of Inr Pinned \<Rightarrow> sendable (att_job_id a) a True db' log
             | _ \<Rightarrow> pinned (att_job_id a) (\<lambda>x. x = None) db' log)"
proof -
  obtain x db1 where call: "db_call db = (x, db1)" by (cases "db_call db")
  note t = db_call_tables [OF call] and k = keeps_safe [OF db_call_keeps [OF call] assms(1)]
  show ?thesis
  proof (cases "(\<exists>e. x = Inl e) \<or> as_i64 (att_amount_sats a) < 0")
    case True
    then have "db' = db1 \<and> (\<exists>e. r = Inl e)"
      using assms(2,4) call t by (cases x) (auto simp: begin_award_attempt_def st_bind_def)
    then show ?thesis using k assms(2) t by (auto simp: pinned_def)
  next
    case False
    let ?row = "\<lparr>at_claim_id = att_claim_id a, at_seller_pubkey = att_seller_pubkey a,
              at_award_event_id = att_award_event_id a, at_event_json = att_event_json a,
              at_amount_sats = as_i64 (att_amount_sats a), at_quoted_mints_json = att_quoted_mints_json a,
              at_offer_deadline_unix = att_offer_deadline_unix a, at_send_count = 0,
              at_relay_url = att_relay_url a, at_state = Pending, at_detail = None,
              at_created_at_unix = now, at_updated_at_unix = now\<rparr>"
    have r: "r = Inr Pinned" and db': "award_attempts db' = AList.update (att_job_id a) ?row (award_attempts db)"
      "reservations db' = reservations db"
      using False assms(2,4) call t by (cases x; simp add: begin_award_attempt_def st_bind_def; force)+
    have unsent: "sent (att_job_id a) log = 0" by (rule safe_unsent [OF assms(1,2)])
    have "attempt_safe strict db' log j row" if "map_of (award_attempts db') j = Some row" for j row
      using that db' safeD [OF assms(1), of j row] unsent assms(3)
      by (auto simp: attempt_safe_def split: if_splits)
    moreover have "\<exists>row. map_of (award_attempts db') j = Some row \<and> at_event_json row = b" if "(j, b) \<in> set log" for j b
      using that assms(1,2) db' by (cases "j = att_job_id a") (fastforce simp: safe_def)+
    ultimately have "safe strict db' log" by (simp add: safe_def)
    then show ?thesis using r db' by (simp add: sendable_def pinned_def)
  qed
qed

lemma then_relay:
  assumes "\<And>w log r w' log'. m (w, log) = (r, w', log') \<Longrightarrow> log' = log"
    and "\<And>x. triple (phase strict X) (f x) Q (\<lambda>_. phase strict anything)"
  shows "triple (phase strict X) (st_bind (on_relay m) f) Q (\<lambda>_. phase strict anything)"
proof (rule triple_bind [OF relay_triple [where Y = "\<lambda>_. X"] assms(2)])
  show "safe strict db log' \<and> X db log'" if "safe strict db log" "X db log" "m (w, log) = (r, w', log')" for db w log r w' log'
    using assms(1) [OF that(3)] that(1,2) by simp
qed

lemma fresh_triple:
  assumes "wired job True E"
  shows "triple (phase strict (pinned job (\<lambda>x. x = None))) (fresh_award mc E job amount c now)
    (\<lambda>_. phase strict anything) (\<lambda>_. phase strict anything)"
  unfolding fresh_award_def Let_def
proof (rule triple_bind)
  let ?X = "\<lambda>db log. map_of (award_attempts db) job = None \<and> secured (reservations db) job"
  have x: "stable_cond ?X" by (simp add: stable_cond_def keeps_def)
  show "triple (phase strict (pinned job (\<lambda>x. x = None))) (on_store ReserveError (store_reserve_at job amount c now))
      (\<lambda>_. phase strict ?X) (\<lambda>_. phase strict anything)"
  proof (rule store_triple)
    fix db r db' log
    assume s: "safe strict db log" and p: "pinned job (\<lambda>x. x = None) db log" and m: "store_reserve_at job amount c now db = (r, db')"
    note k = store_reserve_keeps [OF m]
    show "safe strict db' log \<and> (\<forall>x. r = Inr x \<longrightarrow> ?X db' log)"
      using keeps_safe [OF k s] k p m store_reserve_ok by (auto simp: keeps_def pinned_def)
  qed
  fix u
  let ?a = "\<lambda>p. \<lparr>att_job_id = job, att_claim_id = pa_claim_id p, att_seller_pubkey = pa_seller_pubkey p,
              att_award_event_id = pa_award_event_id p, att_event_json = pa_event_json p, att_amount_sats = amount,
              att_quoted_mints_json = enc_mints mc (pa_quoted_mints p),
              att_offer_deadline_unix = pa_offer_deadline_unix p, att_send_count = 0, att_relay_url = pa_relay_url p,
              att_state = Pending, att_detail = None\<rparr>"
  let ?send = "\<lambda>p pin. case pin of
                   Inr Pinned \<Rightarrow> drive_send mc job (?a p) (transmit E) now None
                 | Inr (Existing existing) \<Rightarrow>
                     st_lift (Inl (UnresolvedError job (att_award_event_id existing)
                       ''an award attempt for this job appeared concurrently; retry to resolve the pinned attempt''))
                 | Inl error \<Rightarrow>
                     st_bind (on_store StoreFailure (store_release job now)) (\<lambda>_. st_lift (Inl (PresenceError error)))"
  have send: "triple (phase strict ?X) (st_bind (try_store (begin_award_attempt (?a p) now)) (?send p))
      (\<lambda>_. phase strict anything) (\<lambda>_. phase strict anything)" for p
  proof (rule triple_bind [OF try_triple])
    fix db r db' log
    assume s: "safe strict db log" and p: "?X db log" and m: "begin_award_attempt (?a p) now db = (r, db')"
    show "safe strict db' log \<and> (case r of Inr Pinned \<Rightarrow> sendable job (?a p) True
        | _ \<Rightarrow> pinned job (\<lambda>x. x = None)) db' log"
      using begin_pins [OF s _ _ m] p by (auto split: sum.splits BeginAttempt.splits)
  next
    fix pin
    show "triple (phase strict (case pin of Inr Pinned \<Rightarrow> sendable job (?a p) True | _ \<Rightarrow> pinned job (\<lambda>x. x = None)))
        (?send p pin) (\<lambda>_. phase strict anything) (\<lambda>_. phase strict anything)"
      using drive_send_triple [OF assms, of None strict "?a p" mc now]
      by (auto split: sum.splits BeginAttempt.splits intro!: then_release done_triple simp: pinned_def)
  qed
  show "triple (phase strict ?X) (st_bind (on_relay (prepare E)) (\<lambda>prepared.
       case prepared of
         Inl error \<Rightarrow>
           st_bind (on_store StoreFailure (store_release job now)) (\<lambda>_. st_lift (Inl (PublishError error)))
       | Inr p \<Rightarrow> st_bind (try_store (begin_award_attempt (?a p) now)) (?send p)))
     (\<lambda>_. phase strict anything) (\<lambda>_. phase strict anything)"
    using assms send
    by (intro then_relay) (auto simp: wired_def Let_def split: sum.splits intro!: then_release done_triple)
qed

lemma probe_triple:
  assumes "wired job owns E"
  shows "triple (phase strict (pinned job (\<lambda>x. x = None))) (probe_legacy E job amt c now)
    (\<lambda>_. phase strict anything) (\<lambda>_. phase strict anything)"
  unfolding probe_legacy_def
proof (rule then_relay)
  show "probe E (w, log) = (r, w', log') \<Longrightarrow> log' = log" for w log r w' log'
    using assms unfolding wired_def by blast
  fix presence
  show "triple (phase strict (pinned job (\<lambda>x. x = None)))
      (case presence of
         Inr (Present (Repairable relayed)) \<Rightarrow>
           st_bind (rehold job amt c now (\<lambda>_. PublishedButUnrecorded job (ra_award_event_id relayed)
                      ''the award is public but re-reserving its funds was refused'')) (\<lambda>_.
           st_bind (on_store (\<lambda>_. PublishedButUnrecorded job (ra_award_event_id relayed)
                      ''repairing the missing awards row failed'')
                     (record_award job (ra_claim_id relayed) (ra_award_event_id relayed) (ra_seller_pubkey relayed)
                        amt now)) (\<lambda>_.
           st_bind (on_store PresenceError (award_record job)) (\<lambda>row.
             st_lift (try_bind (ok_or (PublishedButUnrecorded job (ra_award_event_id relayed)
               ''the repaired awards row did not read back'') row) (\<lambda>r. Inr (AlreadyAwarded r))))))
       | Inr (Present (Unrepairable event detail)) \<Rightarrow> st_lift (Inl (PublishedButUnrecorded job event detail))
       | Inr ConfirmedAbsent \<Rightarrow>
           st_bind (on_store StoreFailure (store_release job now)) (\<lambda>_.
             st_lift (Inl (RefusedError job ''this job predates the award attempt ledger and the relay confirms no award is public; refusing to select a claim again (awards are write-once per offer)'')))
       | Inr Unverified \<Rightarrow> st_lift (Inl (PresenceUnverified job ''the relay did not demonstrate it was serving reads, so its empty answer proves nothing''))
       | Inl error \<Rightarrow> st_lift (Inl (PresenceUnverified job error)))
    (\<lambda>_. phase strict anything) (\<lambda>_. phase strict anything)"
    by (auto split: sum.splits PresenceRead.splits AwardPresence.splits
          intro!: triple_bind [OF rehold_triple] then_keep then_release done_triple
          dest: record_award_keeps award_record_keeps simp: pinned_def)
qed

lemma wired_any: "wired job owns E \<Longrightarrow> wired job True E"
  unfolding wired_def by blast

lemma then_confirm:
  assumes "\<And>x. triple (phase strict anything) (f x) Q (\<lambda>_. phase strict anything)"
  shows "triple (phase strict X) (st_bind (try_store (mark_attempt_confirmed job now)) f) Q (\<lambda>_. phase strict anything)"
proof (rule triple_bind [OF try_triple [where Y = "\<lambda>_. anything"] assms])
  show "safe strict db' log \<and> True"
    if "safe strict db log" "mark_attempt_confirmed job now db = (r, db')" for db r db' log
    using confirm_safe [OF that(2,1)] by simp
qed

lemma repair_triple:
  "triple (phase strict anything)
     (st_bind (rehold job amt c now h) (\<lambda>_. st_bind (record_and_read_back job a now) (\<lambda>r. st_lift (Inr (AlreadyAwarded r)))))
     (\<lambda>_. phase strict anything) (\<lambda>_. phase strict anything)"
proof (rule triple_bind [OF rehold_triple [OF stable_anything]], rule triple_bind)
  show "triple (phase strict anything) (record_and_read_back job a now) (\<lambda>_. phase strict anything) (\<lambda>_. phase strict anything)"
    unfolding record_and_read_back_def
    by (auto intro!: then_keep done_triple dest: record_award_keeps award_record_keeps)
qed (rule done_triple)

definition read_as :: "string \<Rightarrow> AwardAttempt option \<Rightarrow> buyer_db \<Rightarrow> wire_log \<Rightarrow> bool" where
  "read_as job a = pinned job (\<lambda>x. map_option (row_to_attempt job) x = a)"

lemma resume_triple:
  assumes "wired job owns E" and "owns \<longleftrightarrow> licensed = None" and "att_state a = Pending"
  shows "triple (phase strict (read_as job (Some a)))
     (st_bind (rehold job amt c now h) (\<lambda>_. drive_send mc job a (transmit E) now licensed))
     (\<lambda>_. phase strict anything) (\<lambda>_. phase strict anything)"
proof (rule triple_bind [OF rehold_triple])
  show "stable_cond (read_as job (Some a))" by (simp add: read_as_def)
  show "triple (phase strict (read_as job (Some a))) (drive_send mc job a (transmit E) now licensed)
      (\<lambda>_. phase strict anything) (\<lambda>_. phase strict anything)"
    by (rule triple_weaken [OF drive_send_triple [OF assms(1,2), where a = a]])
       (use assms(3) in \<open>auto simp: phase_def read_as_def sendable_def pinned_def row_to_attempt_def\<close>)
qed

lemma refused_triple:
  assumes "att_state a = Refused"
  shows "triple (phase strict (read_as job (Some a)))
     (st_bind (if b then st_bind (on_store StoreFailure (store_release job now)) (\<lambda>_. st_lift (Inr ())) else st_lift (Inr ()))
        (\<lambda>_. st_lift (Inl e)))
     (\<lambda>_. phase strict anything) (\<lambda>_. phase strict anything)"
proof (rule triple_bind)
  show "triple (phase strict (read_as job (Some a)))
      (if b then st_bind (on_store StoreFailure (store_release job now)) (\<lambda>_. st_lift (Inr ())) else st_lift (Inr ()))
      (\<lambda>_. phase strict anything) (\<lambda>_. phase strict anything)"
    using assms
    by (intro triple_if then_release done_triple) (auto simp: read_as_def pinned_def row_to_attempt_def)
qed (rule done_triple)

lemma triple_any:
  "triple (phase strict anything) m Q R \<Longrightarrow> triple (phase strict X) m Q R"
  by (erule triple_weaken) (auto intro: phase_weaken)

lemma arm_triple:
  assumes "wired job owns E" and "owns \<longleftrightarrow> licensed = None"
  shows "triple (phase strict (read_as job attempt)) (award_arm mc E job amount c now licensed existing attempt hold)
    (\<lambda>_. phase strict anything) (\<lambda>_. phase strict anything)"
proof (cases "(existing \<noteq> None, map_option att_state attempt, map_option fst hold)" rule: award_step.cases)
  case 1
  then show ?thesis by (auto simp: award_arm_def intro!: then_confirm done_triple)
next
  case (2 v)
  then show ?thesis by (auto simp: award_arm_def intro!: triple_any [OF repair_triple])
next
  case (3 v)
  then obtain z where z: "attempt = Some z" "att_state z = Refused" by auto
  have step: "award_step (existing \<noteq> None) (map_option att_state (Some z)) (map_option fst hold) = RefusedTerminal"
    using 3 z by simp
  show ?thesis unfolding award_arm_def z step AwardStep.case option.sel by (rule refused_triple [OF z(2)])
next
  case (4 v)
  then show ?thesis using assms by (auto simp: award_arm_def intro!: resume_triple)
qed (use assms fresh_triple [OF wired_any [OF assms(1)]] probe_triple in \<open>auto simp: award_arm_def read_as_def\<close>)

lemma award_triple:
  assumes "wired job owns E" and "owns \<longleftrightarrow> licensed = None"
  shows "triple (phase strict anything) (award_with_reservation mc E job amount c now licensed)
    (\<lambda>_. phase strict anything) (\<lambda>_. phase strict anything)"
  unfolding award_with_reservation_def
proof (rule then_keep [OF award_record_keeps stable_anything], assumption, rule triple_bind [OF store_triple])
  fix db r db' log
  assume s: "safe strict db log" and m: "award_attempt job db = (r, db')"
  show "safe strict db' log \<and> (\<forall>x. r = Inr x \<longrightarrow> read_as job x db' log)"
    using keeps_safe [OF db_read_keeps s] db_read_value m
    by (fastforce simp: award_attempt_def read_as_def pinned_def)
next
  fix existing attempt
  show "triple (phase strict (read_as job attempt)) (st_bind (on_store PresenceError (reservation job))
      (award_arm mc E job amount c now licensed existing attempt)) (\<lambda>_. phase strict anything) (\<lambda>_. phase strict anything)"
  proof (rule then_keep [OF _ _ arm_triple [OF assms]])
    show "reservation job db = (r, db') \<Longrightarrow> keeps db db'" for db r db'
      unfolding reservation_def by (rule db_read_keeps)
  qed (simp add: read_as_def)
qed

end
