(* ===== verification/Reconcile.thy ===== *)
theory Reconcile
  imports Award_Safety Payment
begin

text \<open>
  Reconciling the reservations with what the payment journals and the relay say:
  \<^verbatim>\<open>scan_payment_progress\<close>, \<^verbatim>\<open>plan_reconcile\<close> and
  \<^verbatim>\<open>reconcile_reservations\<close> of \<^verbatim>\<open>buyer/mod.rs\<close> with the classifiers of
  \<^verbatim>\<open>buyer/lifecycle.rs\<close>; and the buyer as a whole, as any interleaving of award calls,
  re-sends of the attempt sweep, replayed verdicts, settlements, terminal probes and reconcile
  passes. What the relay says of a claim is an argument of the pass.
\<close>

section \<open>Classification\<close>

datatype PaymentProgress = ProgressClosed | ProgressUncertain | ProgressAttempted | ProgressNone

datatype RearmAction = RearmSkip | RearmAttempt

definition plan_rearm :: "bool \<Rightarrow> ReservationState option \<Rightarrow> RearmAction" where
  "plan_rearm award_on_relay hold =
     (if award_on_relay then RearmSkip else if hold = Some Spent then RearmSkip else RearmAttempt)"

datatype MissingOfferAction = ParkOfferAbsent | RetryRead | ParkUnreadable u32

definition plan_missing_offer :: "bool \<Rightarrow> u32 \<Rightarrow> u32 \<Rightarrow> MissingOfferAction" where
  "plan_missing_offer read_confirmed unanswered_reads max_unanswered_reads =
     (if read_confirmed then ParkOfferAbsent
      else if unanswered_reads < max_unanswered_reads then RetryRead
      else ParkUnreadable unanswered_reads)"

fun classify_disposition :: "PaymentProgress \<Rightarrow> bool \<Rightarrow> JobDisposition" where
  "classify_disposition ProgressClosed _ = Paid"
| "classify_disposition ProgressUncertain _ = Payable"
| "classify_disposition _ claim_payable = (if claim_payable then Payable else Dead)"

record UnattemptedFloor =
  fl_enabled :: bool
  fl_grace_secs :: u64

definition apply_unattempted_floor ::
  "JobDisposition \<Rightarrow> PaymentProgress \<Rightarrow> u64 option \<Rightarrow> UnattemptedFloor \<Rightarrow> JobDisposition"
where
  "apply_unattempted_floor verdict payment age floor =
     (if \<not> fl_enabled floor then verdict
      else case (verdict, payment, age) of
             (Payable, ProgressNone, Some a) \<Rightarrow> if a > fl_grace_secs floor then Dead else verdict
           | _ \<Rightarrow> verdict)"

definition planned ::
  "(string \<rightharpoonup> PaymentProgress) \<Rightarrow> (string \<rightharpoonup> bool) \<Rightarrow> string set \<Rightarrow> (string \<rightharpoonup> u64) \<Rightarrow> UnattemptedFloor \<Rightarrow> string \<Rightarrow> JobDisposition"
where
  "planned progress payable attempt_held ages floor job =
     (let payment = (case progress job of None \<Rightarrow> ProgressNone | Some p \<Rightarrow> p);
          claim_payable = (case payable job of None \<Rightarrow> True | Some b \<Rightarrow> b);
          verdict = classify_disposition payment claim_payable;
          verdict = apply_unattempted_floor verdict payment (ages job) floor
      in if verdict = Dead \<and> job \<in> attempt_held then Payable else verdict)"

text \<open>The dispositions are a sorted map from the reserved jobs.\<close>

definition plan_reconcile ::
  "string list \<Rightarrow> (string \<rightharpoonup> PaymentProgress) \<Rightarrow> (string \<rightharpoonup> bool) \<Rightarrow> string set \<Rightarrow> (string \<rightharpoonup> u64) \<Rightarrow> UnattemptedFloor \<Rightarrow>
   (string \<times> JobDisposition) list"
where
  "plan_reconcile reserved progress payable attempt_held ages floor =
     map (\<lambda>job. (job, planned progress payable attempt_held ages floor job)) (sort (remdups reserved))"

section \<open>Payment progress from the journals\<close>

fun progress_from_state :: "PaymentState option \<Rightarrow> PaymentProgress" where
  "progress_from_state (Some (Closed _ _)) = ProgressClosed"
| "progress_from_state (Some (Sent _ _)) = ProgressUncertain"
| "progress_from_state (Some (ReceiptPublished _ _)) = ProgressUncertain"
| "progress_from_state (Some (Intent _)) = ProgressAttempted"
| "progress_from_state (Some (Locked _)) = ProgressAttempted"
| "progress_from_state None = ProgressNone"

fun progress_rank :: "PaymentProgress \<Rightarrow> nat" where
  "progress_rank ProgressNone = 0"
| "progress_rank ProgressAttempted = 1"
| "progress_rank ProgressUncertain = 2"
| "progress_rank ProgressClosed = 3"

definition merge_progress :: "PaymentProgress option \<Rightarrow> PaymentProgress \<Rightarrow> PaymentProgress" where
  "merge_progress existing nxt =
     (case existing of
        Some e \<Rightarrow> if progress_rank e \<ge> progress_rank nxt then e else nxt
      | None \<Rightarrow> nxt)"

text \<open>The non-blank lines of a file, all decoded or the first error.\<close>

fun decode_lines :: "('l \<Rightarrow> string + PaymentRecord) \<Rightarrow> 'l line list \<Rightarrow> string + PaymentRecord list" where
  "decode_lines dec [] = Inr []"
| "decode_lines dec (Blank # ls) = decode_lines dec ls"
| "decode_lines dec (Text l # ls) = try_bind (dec l) (\<lambda>r. try_bind (decode_lines dec ls) (\<lambda>rs. Inr (r # rs)))"

text \<open>A directory entry: whether it is named \<open>*.jsonl\<close>, and its text if it can be read.\<close>

record 'l journal_file =
  is_jsonl :: bool
  contents :: "'l line list option"

definition scan_entry ::
  "('l \<Rightarrow> string + PaymentRecord) \<Rightarrow> 'l journal_file \<Rightarrow> (string \<rightharpoonup> PaymentProgress) \<Rightarrow> (string \<rightharpoonup> PaymentProgress)"
where
  "scan_entry dec f progress =
     (if \<not> is_jsonl f then progress
      else case contents f of
        None \<Rightarrow> progress
      | Some ls \<Rightarrow>
          (case decode_lines dec ls of
             Inl _ \<Rightarrow> progress
           | Inr [] \<Rightarrow> progress
           | Inr (r # rs) \<Rightarrow>
               (let job = payload_id (rec_key r);
                    folded = (case fold_records (rec_key r) (r # rs) of
                                Inr st \<Rightarrow> progress_from_state st
                              | Inl _ \<Rightarrow> ProgressUncertain)
                in progress(job \<mapsto> merge_progress (progress job) folded))))"

definition scan_payment_progress ::
  "('l \<Rightarrow> string + PaymentRecord) \<Rightarrow> 'l journal_file list \<Rightarrow> (string \<rightharpoonup> PaymentProgress)"
where
  "scan_payment_progress dec fs = fold (scan_entry dec) fs Map.empty"

section \<open>The reconcile pass\<close>

definition reconcile_reservations ::
  "(string \<rightharpoonup> PaymentProgress) \<Rightarrow> (string \<rightharpoonup> bool) \<Rightarrow> UnattemptedFloor \<Rightarrow> int \<Rightarrow> buyer_db \<Rightarrow> (string + ReconcileReport) \<times> buyer_db"
where
  "reconcile_reservations progress payable floor now =
     st_bind (db_read (\<lambda>db. reserved_job_ids (reservations db))) (\<lambda>reserved.
     st_bind attempt_held_job_ids (\<lambda>attempt_held.
       if reserved = [] then st_lift (Inr empty_report)
       else st_bind (db_read (\<lambda>db. reserved_ages now (reservations db))) (\<lambda>ages.
         store_reconcile (plan_reconcile reserved progress payable (set attempt_held) (map_of ages) floor) now)))"

text \<open>A reservation is planned for release exactly when no component has a claim on it: it is
  reserved, the attempt machinery does not hold it, and either no money has left and the relay
  positively says the claim is not payable, or the age floor is switched on and the job
  has no payment journal at all and is older than the grace. A closed payment is always planned
  as paid, and an uncertain one never as dead.\<close>

theorem planned_release_exactly_when_unclaimed:
  "(job, Dead) \<in> set (plan_reconcile reserved progress payable attempt_held ages floor) \<longleftrightarrow>
     job \<in> set reserved \<and> job \<notin> attempt_held \<and>
     ((progress job \<noteq> Some ProgressClosed \<and> progress job \<noteq> Some ProgressUncertain \<and> payable job = Some False) \<or>
      (fl_enabled floor \<and> (progress job = None \<or> progress job = Some ProgressNone) \<and>
       (\<exists>a. ages job = Some a \<and> a > fl_grace_secs floor)))"
proof -
  have "planned progress payable attempt_held ages floor job = Dead \<longleftrightarrow> job \<notin> attempt_held \<and>
     ((progress job \<noteq> Some ProgressClosed \<and> progress job \<noteq> Some ProgressUncertain \<and> payable job = Some False) \<or>
      (fl_enabled floor \<and> (progress job = None \<or> progress job = Some ProgressNone) \<and>
       (\<exists>a. ages job = Some a \<and> a > fl_grace_secs floor)))"
    by (cases "progress job"; cases "the (progress job)"; cases "payable job"; cases "ages job")
       (auto simp: planned_def apply_unattempted_floor_def Let_def)
  then show ?thesis by (auto simp: plan_reconcile_def image_iff)
qed


definition demo_record :: "PaymentState \<Rightarrow> PaymentRecord" where
  "demo_record st = \<lparr>rec_key = PaymentKey_new ''job'' ''r'' ''d'' ''h'' \<lparr>t_mint = ''m'', t_amount = 5, t_unit = ''sat'',
     seller_nostr_pubkey = ''s'', seller_p2pk_lock = ''l''\<rparr> None, rec_value = st\<rparr>"


section \<open>The buyer as a whole\<close>

definition logged :: "string \<Rightarrow> 'w award_effects \<Rightarrow> ('w \<times> wire_log) award_effects" where
  "logged job E =
     \<lparr>probe = (\<lambda>(w, log). case probe E w of (r, w') \<Rightarrow> (r, w', log)),
      prepare = (\<lambda>(w, log). case prepare E w of (r, w') \<Rightarrow> (r, w', log)),
      transmit = (\<lambda>b e (w, log). case transmit E b e w of (r, w') \<Rightarrow> (r, w', log @ [(job, b)]))\<rparr>"

lemma wired_logged: "wired job True (logged job E)"
  by (auto simp: wired_def logged_def split: prod.splits)

lemma wired_replay: "wired job False (replay_effects (logged job E) v)"
  by (auto simp: wired_def logged_def replay_effects_def split: prod.splits)

text \<open>The sweep's turn on one job: read its attempt, then license and transmit.\<close>

definition sweep_job ::
  "string \<Rightarrow> string + MintCeiling \<Rightarrow> int \<Rightarrow> 'w award_effects \<Rightarrow> buyer_db \<times> 'w \<Rightarrow> (unit + (u64 \<times> SendOutcome) option) \<times> buyer_db \<times> 'w"
where
  "sweep_job job snapshot now E =
     st_bind (try_store (award_attempt job)) (\<lambda>a.
       case a of
         Inr (Some attempt) \<Rightarrow> sweep_resend attempt snapshot now (transmit E)
       | _ \<Rightarrow> st_lift (Inr None))"

datatype 'w buyer_step =
    CallAward string u64 MintCeiling int "'w award_effects"
  | CallSweep string "string + MintCeiling" int "'w award_effects"
  | CallVerdict string u64 "string + MintCeiling" int "'w award_effects" "SendOutcome option" "u64 option"
  | CallSettle string u64 int
  | CallTerminalize string string int
  | CallReconcile "string \<rightharpoonup> PaymentProgress" "string \<rightharpoonup> bool" UnattemptedFloor int

fun buyer_exec :: "mints_codec \<Rightarrow> 'w buyer_step \<Rightarrow> buyer_db \<times> 'w \<times> wire_log \<Rightarrow> buyer_db \<times> 'w \<times> wire_log" where
  "buyer_exec mc (CallAward job amt c now E) s =
     snd (award_with_reservation mc (logged job E) job amt c now None s)"
| "buyer_exec mc (CallSweep job snapshot now E) s = snd (sweep_job job snapshot now (logged job E) s)"
| "buyer_exec mc (CallVerdict job amt c now E v prior) s =
     snd (resolve_attempt_via_chokepoint mc (logged job E) job amt c now v prior s)"
| "buyer_exec mc (CallSettle job amt now) s = apfst (\<lambda>db. snd (store_convert_to_spent job amt now db)) s"
| "buyer_exec mc (CallTerminalize job detail now) s = apfst (\<lambda>db. snd (terminalize_absent_attempt job detail now db)) s"
| "buyer_exec mc (CallReconcile progress payable floor now) s =
     apfst (\<lambda>db. snd (reconcile_reservations progress payable floor now db)) s"

text \<open>A sequence of calls, each with its own schedule of database failures.\<close>

fun buyer_run ::
  "mints_codec \<Rightarrow> (string option list \<times> 'w buyer_step) list \<Rightarrow> buyer_db \<times> 'w \<times> wire_log \<Rightarrow> buyer_db \<times> 'w \<times> wire_log"
where
  "buyer_run mc [] s = s"
| "buyer_run mc ((fl, c) # cs) s = buyer_run mc cs (buyer_exec mc c (apfst (\<lambda>db. db\<lparr>db_faults := fl\<rparr>) s))"

lemma triple_state:
  assumes "triple (phase strict anything) m (\<lambda>_. phase strict anything) (\<lambda>_. phase strict anything)"
    and "phase strict anything s"
  shows "phase strict anything (snd (m s))"
proof -
  obtain r t where m: "m s = (r, t)" by (cases "m s")
  from triple_result [OF assms m] m show ?thesis by (cases r) auto
qed

lemma award_attempt_read:
  "award_attempt job db = (x, db') \<Longrightarrow> keeps db db'"
  "award_attempt job db = (Inr y, db') \<Longrightarrow> read_as job y db' log"
  unfolding award_attempt_def by (erule db_read_keeps) (auto simp: read_as_def pinned_def dest: db_read_value)

lemma read_as_keeps: "keeps db db' \<Longrightarrow> read_as job a db log \<Longrightarrow> read_as job a db' log"
  by (simp add: read_as_def pinned_def keeps_def)

lemma read_as_sendable: "read_as job (Some a) db log \<Longrightarrow> att_state a = Pending \<Longrightarrow> sendable job a True db log"
  by (auto simp: read_as_def sendable_def pinned_def row_to_attempt_def)

lemma send_licensed:
  assumes "safe strict db log" and "sendable job a True db log"
    and "st_bind (record_attempt_send job now) (\<lambda>p. st_lift (Inr (Some p))) db = (r, db')"
  shows "safe strict db' log \<and> (\<forall>p. r = Inr (Some p) \<longrightarrow> counted job a True p db' log)"
  using assms(3)
proof (cases rule: st_bind_cases)
  case (err e)
  then show ?thesis using record_send_counts [OF assms(1,2) err(1)] by simp
next
  case (ok p u)
  then show ?thesis using record_send_counts [OF assms(1,2) ok(1)] by auto
qed

lemma license_counts:
  assumes "safe strict db log" and "read_as (att_job_id a) (Some a) db log"
    and "license_resend a snapshot now db = (r, db')"
  shows "safe strict db' log \<and> (\<forall>p. r = Inr (Some p) \<longrightarrow> counted (att_job_id a) a True p db' log)"
  using assms(3) unfolding license_resend_def
proof (cases rule: st_bind_cases)
  case (err e)
  then show ?thesis using keeps_safe [OF award_attempt_read(1) assms(1)] by blast
next
  case (ok current db1)
  note k = award_attempt_read(1) [OF ok(1)]
  have s1: "safe strict db1 log" and r1: "read_as (att_job_id a) (Some a) db1 log"
    using keeps_safe [OF k assms(1)] read_as_keeps [OF k assms(2)] .
  have c: "current = Some a" using award_attempt_read(2) [OF ok(1), of log] r1 by (auto simp: read_as_def pinned_def)
  show ?thesis
  proof (cases "\<not> resume_crossed_deadline a now \<and> att_state a = Pending \<and> (\<exists>ceiling. snapshot = Inr ceiling)")
    case False
    then have "r = Inr None \<and> db' = db1" using ok(2) c by (cases snapshot) (auto split: if_splits)
    then show ?thesis using s1 by simp
  next
    case True
    then obtain ceiling where ceil: "snapshot = Inr ceiling" by blast
    obtain res db2 where m: "store_reserve_at (att_job_id a) (att_amount_sats a) ceiling now db1 = (res, db2)"
      by (cases "store_reserve_at (att_job_id a) (att_amount_sats a) ceiling now db1")
    note k2 = store_reserve_keeps [OF m]
    have s2: "safe strict db2 log" "sendable (att_job_id a) a True db2 log"
      using keeps_safe [OF k2 s1] read_as_sendable [OF read_as_keeps [OF k2 r1]] True by auto
    have "(r = Inr None \<and> db' = db2) \<or>
        st_bind (record_attempt_send (att_job_id a) now) (\<lambda>p. st_lift (Inr (Some p))) db2 = (r, db')"
      using ok(2) c True ceil m by (auto split: sum.splits ReserveRefused.splits)
    then show ?thesis using send_licensed [OF s2] s2(1) by auto
  qed
qed

lemma sweep_triple:
  "triple (phase strict anything) (sweep_job job snapshot now (logged job E))
     (\<lambda>_. phase strict anything) (\<lambda>_. phase strict anything)"
  unfolding sweep_job_def
proof (rule triple_bind [OF try_triple])
  show "safe strict db' log \<and> (case r of Inr y \<Rightarrow> read_as job y db' log | Inl _ \<Rightarrow> True)"
    if "safe strict db log" "award_attempt job db = (r, db')" for db r db' log
    using keeps_safe [OF award_attempt_read(1) that(1)] award_attempt_read(2) that(2) by (auto split: sum.splits)
  fix a
  show "triple (phase strict (\<lambda>db log. case a of Inr y \<Rightarrow> read_as job y db log | Inl _ \<Rightarrow> True))
     (case a of Inr (Some attempt) \<Rightarrow> sweep_resend attempt snapshot now (transmit (logged job E)) | _ \<Rightarrow> st_lift (Inr None))
     (\<lambda>_. phase strict anything) (\<lambda>_. phase strict anything)"
  proof (cases "\<exists>x. a = Inr (Some x)")
    case False
    then show ?thesis by (auto split: sum.splits option.splits intro: done_triple)
  next
    case True
    then obtain x where a: "a = Inr (Some x)" by blast
    have "triple (phase strict (read_as job (Some x))) (sweep_resend x snapshot now (transmit (logged job E)))
        (\<lambda>_. phase strict anything) (\<lambda>_. phase strict anything)"
      unfolding sweep_resend_def
    proof (rule triple_bind [OF try_triple])
      show "safe strict db' log \<and> (case r of Inr (Some p) \<Rightarrow> counted job x True p db' log | _ \<Rightarrow> True)"
        if s: "safe strict db log" and x: "read_as job (Some x) db log" and m: "license_resend x snapshot now db = (r, db')"
        for db r db' log
      proof -
        have j: "att_job_id x = job" using x by (auto simp: read_as_def pinned_def row_to_attempt_def)
        show ?thesis using license_counts [OF s _ m] x by (auto simp: j split: sum.splits option.splits)
      qed
      fix l
      show "triple (phase strict (\<lambda>db log. case l of Inr (Some p) \<Rightarrow> counted job x True p db log | _ \<Rightarrow> True))
         (case l of Inr (Some prior) \<Rightarrow>
             st_bind (on_relay (transmit (logged job E) (att_event_json x) (att_award_event_id x))) (\<lambda>verdict. st_lift (Inr (Some (prior, verdict))))
           | _ \<Rightarrow> st_lift (Inr None)) (\<lambda>_. phase strict anything) (\<lambda>_. phase strict anything)"
        using transmit_logs [OF wired_logged, THEN conjunct1, of strict _ _ job x]
        by (auto split: sum.splits option.splits intro!: done_triple triple_bind [OF relay_triple [where Y = "\<lambda>_. anything"]])
    qed
    then show ?thesis by (simp add: a)
  qed
qed

lemma award_step_safe:
  assumes "phase strict anything s"
  shows "phase strict anything (snd (award_with_reservation mc (logged job E) job amt c now None s))"
    and "phase strict anything (snd (sweep_job job snapshot now (logged job E) s))"
    and "phase strict anything (snd (resolve_attempt_via_chokepoint mc (logged job E) job amt cl now v prior s))"
proof -
  show "phase strict anything (snd (award_with_reservation mc (logged job E) job amt c now None s))"
    by (rule triple_state [OF award_triple [OF wired_logged] assms]) simp
  show "phase strict anything (snd (sweep_job job snapshot now (logged job E) s))"
    by (rule triple_state [OF sweep_triple assms])
  have w: "wired job (prior = None) (replay_effects (logged job E) v)"
    using wired_replay [of job E v] wired_any [OF wired_replay [of job E v]] by (cases prior) auto
  show "phase strict anything (snd (resolve_attempt_via_chokepoint mc (logged job E) job amt cl now v prior s))"
    unfolding resolve_attempt_via_chokepoint_def
  proof (rule triple_state [OF triple_bind assms])
    show "triple (phase strict anything) (st_lift (map_err PresenceError cl)) (\<lambda>_. phase strict anything) (\<lambda>_. phase strict anything)"
      by (rule done_triple)
  qed (rule award_triple [OF w], simp)
qed

lemma settle_keeps: "keeps db (snd (store_convert_to_spent job amt now db))"
proof -
  obtain x db1 where call: "db_call db = (x, db1)" by (cases "db_call db")
  have "convert_to_spent job amt now t = (r, t') \<Longrightarrow> secured t j \<Longrightarrow> secured t' j" for t r t' j
    by (auto simp: secured_def convert_to_spent_def read_reservation_def set_state_map_of
          split: option.splits ReservationState.splits if_splits)
  then show ?thesis using call db_call_tables [OF call]
    by (cases x; cases "convert_to_spent job amt now (reservations db1)")
       (auto simp: store_convert_to_spent_def st_bind_def keeps_def)
qed

lemma mark_parked_keeps: "mark_award_parked job detail now db = (r, db') \<Longrightarrow> keeps db db'"
  unfolding mark_award_parked_def
  by (erule db_write_cases) (auto dest: db_call_keeps db_call_tables simp: keeps_def)

lemma terminalize_safe:
  assumes "safe False db log"
  shows "safe False (snd (terminalize_absent_attempt job detail now db)) log"
proof -
  obtain r db' where t: "terminalize_absent_attempt job detail now db = (r, db')"
    by (cases "terminalize_absent_attempt job detail now db")
  obtain row db1 where read: "award_record job db = (row, db1)" by (cases "award_record job db")
  have s1: "safe False db1 log" by (rule keeps_safe [OF award_record_keeps [OF read] assms])
  obtain won db2 where m: "mark_attempt_refused job detail now db1 = (won, db2)"
    by (cases "mark_attempt_refused job detail now db1")
  have s2: "safe False db2 log" and p2: "won = Inr True \<Longrightarrow> pinned job (\<lambda>x. \<exists>r. x = Some r \<and> at_state r = AttemptState.Refused) db2 log"
    using refuse_safe [OF m s1] by auto
  obtain rel db3 where rel: "store_release job now db2 = (rel, db3)" by (cases "store_release job now db2")
  have s3: "safe False db3 log" if "won = Inr True"
    using store_release_safe(1) [OF rel s2] p2 [OF that] by (auto simp: pinned_def)
  obtain u db4 where park: "mark_award_parked job detail now db3 = (u, db4)" by (cases "mark_award_parked job detail now db3")
  have "db' = db1 \<or> db' = db2 \<or> won = Inr True \<and> (db' = db3 \<or> db' = db4)"
    using t read m rel park
    by (cases row; cases won; cases rel; cases u) (auto simp: terminalize_absent_attempt_def st_bind_def st_lift_def split: if_splits)
  then show ?thesis using t s1 s2 s3 keeps_safe [OF mark_parked_keeps [OF park]] by auto
qed

lemma reconcile_one_secured:
  "secured t j \<Longrightarrow> x \<noteq> (j, Dead) \<Longrightarrow> secured (snd (reconcile_one now x (rep, t))) j"
  by (cases x) (auto simp del: reconcile_one.simps simp: reconcile_one_table secured_def set_state_map_of split: option.splits)

lemma reconcile_secured:
  assumes "secured t j" and "(j, Dead) \<notin> set ds"
  shows "secured (snd (reconcile ds now t)) j"
proof -
  have "secured (snd (fold (reconcile_one now) ds (rep, t))) j" for rep
    using assms
  proof (induction ds arbitrary: rep t)
    case (Cons x ds)
    then show ?case using reconcile_one_secured [of t j x now rep]
      by (cases "reconcile_one now x (rep, t)") (auto simp del: reconcile_one.simps)
  qed simp
  then show ?thesis by (simp add: reconcile_def split: prod.splits) (metis snd_conv)
qed

lemma db_read_attempts: "db_read f db = (r, db') \<Longrightarrow> map_of (award_attempts db') j = map_of (award_attempts db) j"
  using db_read_keeps [of f db r db'] by (simp add: keeps_def)

lemma held_ids_read:
  assumes "attempt_held_job_ids db = (x, db')"
  shows "keeps db db'"
    and "x = Inr hs \<Longrightarrow> map_of (award_attempts db') j = Some row \<Longrightarrow> at_state row = Pending \<Longrightarrow> j \<in> set hs"
proof -
  show "keeps db db'" using assms unfolding attempt_held_job_ids_def by (rule db_read_keeps)
  assume "x = Inr hs" and m: "map_of (award_attempts db') j = Some row" and p: "at_state row = Pending"
  then have "hs = sort (map fst (filter (\<lambda>(job, r). is_attempt_held db' job r) (award_attempts db')))"
    using db_read_value [OF assms [unfolded attempt_held_job_ids_def \<open>x = Inr hs\<close>]] by simp
  moreover have "(j, row) \<in> set (award_attempts db')" using m by (rule map_of_SomeD)
  ultimately show "j \<in> set hs" using p by (force simp: is_attempt_held_def)
qed

lemma store_reconcile_safe:
  assumes "store_reconcile ds now db = (r, db')" and "safe strict db log"
    and "\<And>j row. map_of (award_attempts db) j = Some row \<Longrightarrow> at_state row = Pending \<Longrightarrow> (j, Dead) \<notin> set ds"
  shows "safe strict db' log"
  using assms(1) unfolding store_reconcile_def
proof (cases rule: db_write_cases)
  case (fault e)
  then show ?thesis using keeps_safe [OF db_call_keeps assms(2)] by blast
next
  case (ran db1)
  note t = db_call_tables [OF ran(1)]
  obtain rep t' where rec: "reconcile ds now (reservations db) = (rep, t')" by (cases "reconcile ds now (reservations db)")
  have db': "award_attempts db' = award_attempts db" "reservations db' = t'"
    using ran(3) t rec by auto
  have "secured (reservations db) j \<Longrightarrow> (j, Dead) \<notin> set ds \<Longrightarrow> secured t' j" for j
    using reconcile_secured [of "reservations db" j ds now] rec by simp
  then show ?thesis using assms(2,3) db' by (simp add: safe_def attempt_safe_def)
qed

lemma reconcile_reservations_safe:
  assumes "safe strict db log"
  shows "safe strict (snd (reconcile_reservations progress payable floor now db)) log"
proof -
  have "triple (\<lambda>db. safe strict db log) (reconcile_reservations progress payable floor now)
      (\<lambda>_ db. safe strict db log) (\<lambda>_ db. safe strict db log)"
    unfolding reconcile_reservations_def
  proof (rule triple_bind)
    show "triple (\<lambda>db. safe strict db log) (db_read f) (\<lambda>_ db. safe strict db log) (\<lambda>_ db. safe strict db log)"
      for f :: "buyer_db \<Rightarrow> 'x"
      unfolding triple_def using keeps_safe [OF db_read_keeps] by (auto split: sum.splits)
    fix reserved
    let ?H = "\<lambda>hs db. safe strict db log \<and>
      (\<forall>j row. map_of (award_attempts db) j = Some row \<longrightarrow> at_state row = Pending \<longrightarrow> j \<in> set hs)"
    show "triple (\<lambda>db. safe strict db log) (st_bind attempt_held_job_ids (\<lambda>attempt_held.
       if reserved = [] then st_lift (Inr empty_report)
       else st_bind (db_read (\<lambda>db. reserved_ages now (reservations db))) (\<lambda>ages.
         store_reconcile (plan_reconcile reserved progress payable (set attempt_held) (map_of ages) floor) now)))
      (\<lambda>_ db. safe strict db log) (\<lambda>_ db. safe strict db log)"
    proof (rule triple_bind)
      show "triple (\<lambda>db. safe strict db log) attempt_held_job_ids ?H (\<lambda>_ db. safe strict db log)"
        unfolding triple_def using keeps_safe [OF held_ids_read(1)] held_ids_read(2) by (auto split: sum.splits)
      fix hs
      have dead: "(j, Dead) \<notin> set (plan_reconcile reserved progress payable (set hs) ages floor)" if "j \<in> set hs" for j ages
        using that by (auto simp: plan_reconcile_def planned_def Let_def split: if_splits)
      have "?H hs t" if "?H hs db" "db_read f db = (r, t)" for f :: "buyer_db \<Rightarrow> (string \<times> u64) list" and db r t
        using that keeps_safe [OF db_read_keeps [OF that(2)]] db_read_attempts [OF that(2)] by simp
      then have "triple (?H hs) (db_read f) (\<lambda>_. ?H hs) (\<lambda>_ db. safe strict db log)" for f :: "buyer_db \<Rightarrow> (string \<times> u64) list"
        by (intro triple_weaken [OF triple_always [where P = "?H hs" and I = "?H hs"]]) blast+
      moreover have "triple (?H hs) (store_reconcile (plan_reconcile reserved progress payable (set hs) (map_of ages) floor) now)
          (\<lambda>_ db. safe strict db log) (\<lambda>_ db. safe strict db log)" for ages
        unfolding triple_def using store_reconcile_safe dead by (fastforce split: sum.splits)
      ultimately show "triple (?H hs) (if reserved = [] then st_lift (Inr empty_report)
         else st_bind (db_read (\<lambda>db. reserved_ages now (reservations db))) (\<lambda>ages.
           store_reconcile (plan_reconcile reserved progress payable (set hs) (map_of ages) floor) now))
        (\<lambda>_ db. safe strict db log) (\<lambda>_ db. safe strict db log)"
        by (auto intro!: triple_lift triple_bind)
    qed
  qed
  then show ?thesis using assms triple_result [of _ _ _ _ db]
    by (cases "reconcile_reservations progress payable floor now db"; cases "fst (reconcile_reservations progress payable floor now db)")
       fastforce+
qed

fun terminal_probe :: "'w buyer_step \<Rightarrow> bool" where
  "terminal_probe (CallTerminalize _ _ _) = True"
| "terminal_probe _ = False"

lemma buyer_exec_safe:
  assumes "phase strict anything s" and "terminal_probe c \<Longrightarrow> \<not> strict"
  shows "phase strict anything (buyer_exec mc c s)"
proof (cases c)
  case (CallSettle job amt now)
  then show ?thesis using assms keeps_safe [OF settle_keeps] by (auto simp: phase_def)
next
  case (CallTerminalize job detail now)
  then show ?thesis using assms terminalize_safe by (auto simp: phase_def)
next
  case (CallReconcile progress payable floor now)
  then show ?thesis using assms reconcile_reservations_safe by (auto simp: phase_def)
qed (use assms(2) award_step_safe [OF assms(1)] in auto)

lemma buyer_run_safe:
  assumes "phase strict anything s" and "strict \<Longrightarrow> \<not> list_ex (terminal_probe \<circ> snd) cs"
  shows "phase strict anything (buyer_run mc cs s)"
  using assms
proof (induction cs arbitrary: s)
  case (Cons x cs)
  obtain fl c where x: "x = (fl, c)" by (cases x)
  have "phase strict anything (apfst (\<lambda>db. db\<lparr>db_faults := fl\<rparr>) s)"
    using Cons.prems(1) keeps_safe [OF keeps_faults] by (auto simp: phase_def)
  then have "phase strict anything (buyer_exec mc c (apfst (\<lambda>db. db\<lparr>db_faults := fl\<rparr>) s))"
    by (rule buyer_exec_safe) (use Cons.prems(2) x in auto)
  from Cons.IH [OF this] Cons.prems(2) show ?case by (auto simp: x)
qed simp

lemma fresh_store_safe: "award_attempts db = [] \<Longrightarrow> phase strict anything (db, w, [])"
  by (simp add: phase_def safe_def)

text \<open>C4. One offer, one award, ever: over any interleaving of award calls, sweep re-sends,
  replayed verdicts, settlements, terminal probes and reconcile passes, whatever the relay, the
  signer and the database answer and wherever the process dies, all transmissions for a job carry
  the same bytes, namely those of the attempt row that was pinned before the first of them.\<close>

theorem one_award_event_per_job:
  assumes "award_attempts db = []" and "buyer_run mc cs (db, w, []) = (db', w', log)" and "(job, b) \<in> set log"
  shows "(\<exists>r. map_of (award_attempts db') job = Some r \<and> at_event_json r = b) \<and>
    (\<forall>b'. (job, b') \<in> set log \<longrightarrow> b' = b)"
proof -
  have "safe False db' log"
    using buyer_run_safe [OF fresh_store_safe [OF assms(1)], of False cs mc w] assms(2) by (simp add: phase_def)
  then have pin: "\<exists>r. map_of (award_attempts db') job = Some r \<and> at_event_json r = x" if "(job, x) \<in> set log" for x
    using that unfolding safe_def by blast
  from pin [OF assms(3)] pin show ?thesis by fastforce
qed

definition empty_db :: buyer_db where
  "empty_db = \<lparr>reservations = [], pending_awards = [], awards = [], award_attempts = [], sessions = [],
     session_turns = [], db_faults = []\<rparr>"

text \<open>A relay that gives no verdict on the first transmission and refuses from then on.\<close>

definition demo_prepared :: "nat \<Rightarrow> PreparedAward" where
  "demo_prepared n = \<lparr>pa_job_id = ''j'', pa_claim_id = ''c'', pa_seller_pubkey = ''s'',
     pa_award_event_id = ''e'', pa_event_json = replicate n (CHR ''x''), pa_quoted_mints = [],
     pa_offer_deadline_unix = 100, pa_relay_url = ''r''\<rparr>"

definition demo_relay :: "nat award_effects" where
  "demo_relay = \<lparr>probe = (\<lambda>w. (Inr Unverified, w)), prepare = (\<lambda>w. (Inr (demo_prepared w), w + 1)),
     transmit = (\<lambda>_ _ w. (if w \<le> 1 then SendUnresolved ''timeout'' else SendRefused ''blocked'', w + 1))\<rparr>"

definition demo_mints :: mints_codec where
  "demo_mints = \<lparr>enc_mints = (\<lambda>_. ''[]''), dec_mints = (\<lambda>_. [])\<rparr>"

definition demo_calls :: "(string option list \<times> nat buyer_step) list" where
  "demo_calls = [([], CallAward ''j'' 10 (pooled 100) 1 demo_relay), ([], CallAward ''j'' 10 (pooled 100) 2 demo_relay)]"

lemma demo_log: "snd (snd (buyer_run demo_mints demo_calls (empty_db, 0, []))) = [(''j'', []), (''j'', [])]"
  by code_simp

lemma demo_state:
  "map_option at_state (map_of (award_attempts (fst (buyer_run demo_mints demo_calls (empty_db, 0, [])))) ''j'') = Some Pending"
  by code_simp

lemma demo_final:
  obtains db' w' r where "buyer_run demo_mints demo_calls (empty_db, 0, []) = (db', w', [(''j'', []), (''j'', [])])"
    "map_of (award_attempts db') ''j'' = Some r" "at_state r = Pending"
  using demo_log demo_state by (cases "buyer_run demo_mints demo_calls (empty_db, 0, [])") auto

theorem one_award_event_per_job_witness:
  "case buyer_run demo_mints demo_calls (empty_db, 0, []) of
     (db', w', log) \<Rightarrow> (''j'', []) \<in> set log \<and> (\<exists>r. map_of (award_attempts db') ''j'' = Some r \<and> at_event_json r = []) \<and>
       (\<forall>b'. (''j'', b') \<in> set log \<longrightarrow> b' = [])"
proof -
  obtain db' w' r where run: "buyer_run demo_mints demo_calls (empty_db, 0, []) = (db', w', [(''j'', []), (''j'', [])])"
    by (rule demo_final)
  have "award_attempts empty_db = []" by (simp add: empty_db_def)
  from one_award_event_per_job [OF this run, of "''j''" "[]"] show ?thesis by (simp add: run)
qed

text \<open>C15. A relay refusal ends an award only when it is a proof: in every run without a terminal
  probe, an attempt that has been marked refused, whose reservation may be released, was
  transmitted at most once, so no earlier transmission with a lost verdict can have landed.\<close>

theorem refused_award_was_sent_at_most_once:
  assumes "award_attempts db = []" and "buyer_run mc cs (db, w, []) = (db', w', log)"
    and "\<not> list_ex (terminal_probe \<circ> snd) cs"
    and "map_of (award_attempts db') job = Some r" and "at_state r = AttemptState.Refused"
  shows "length (filter (\<lambda>(j, _). j = job) log) \<le> 1"
proof -
  have "safe True db' log"
    using buyer_run_safe [OF fresh_store_safe [OF assms(1)], of True cs mc w] assms(2,3) by (simp add: phase_def)
  from safeD [OF this assms(4)] assms(5) show ?thesis by (simp add: attempt_safe_def sent_def)
qed

definition refusing_relay :: "nat award_effects" where
  "refusing_relay = demo_relay\<lparr>transmit := (\<lambda>_ _ w. (SendRefused ''blocked'', w))\<rparr>"

definition refused_calls :: "(string option list \<times> nat buyer_step) list" where
  "refused_calls = [([], CallAward ''j'' 10 (pooled 100) 1 refusing_relay)]"

lemma refused_log: "snd (snd (buyer_run demo_mints refused_calls (empty_db, 0, []))) = [(''j'', [])]"
  by code_simp

lemma refused_state:
  "map_option at_state (map_of (award_attempts (fst (buyer_run demo_mints refused_calls (empty_db, 0, [])))) ''j'') = Some AttemptState.Refused"
  by code_simp

lemma refused_final:
  obtains db' w' r where "buyer_run demo_mints refused_calls (empty_db, 0, []) = (db', w', [(''j'', [])])"
    "map_of (award_attempts db') ''j'' = Some r" "at_state r = AttemptState.Refused"
  using refused_log refused_state by (cases "buyer_run demo_mints refused_calls (empty_db, 0, [])") auto

theorem refused_award_was_sent_at_most_once_witness:
  "case buyer_run demo_mints refused_calls (empty_db, 0, []) of
     (db', w', log) \<Rightarrow> log \<noteq> [] \<and> length (filter (\<lambda>(j, _). j = ''j'') log) \<le> 1"
proof -
  obtain db' w' r where run: "buyer_run demo_mints refused_calls (empty_db, 0, []) = (db', w', [(''j'', [])])"
    and r: "map_of (award_attempts db') ''j'' = Some r" "at_state r = AttemptState.Refused" by (rule refused_final)
  have "award_attempts empty_db = []" "\<not> list_ex (terminal_probe \<circ> snd) refused_calls"
    by (simp_all add: empty_db_def refused_calls_def)
  from refused_award_was_sent_at_most_once [OF this(1) run this(2) r] show ?thesis by (simp add: run)
qed



end
