(* ===== verification/Melt_Bound.thy ===== *)
theory Melt_Bound
  imports Prelude
begin

text \<open>
  The fee arithmetic of a melt, \<^verbatim>\<open>wallet_ops.rs\<close>, and the two functions of
  \<^verbatim>\<open>fee_remit.rs\<close> that decide with it: the input fee on a number of proofs, the
  denominations a swap yields, the figures the wallet recomputes after the swap, the bound on the
  whole debit, the search for the largest invoice that fits, and the check of a prepared melt.
  Machine words are kept at their width; \<open>*\<close> in \<open>fee_for\<close> wraps, as it does in a
  release build.
\<close>

section \<open>Figures\<close>

unbundle bit_operations_syntax

definition div_ceil :: "u64 \<Rightarrow> u64 \<Rightarrow> u64" where
  "div_ceil a b = (if a mod b = 0 then a div b else a div b + 1)"

definition fee_for :: "u64 \<Rightarrow> nat \<Rightarrow> u64" where
  "fee_for input_fee_ppk count = div_ceil (input_fee_ppk * of_nat count) 1000"

definition binary_split :: "u64 \<Rightarrow> u64 list" where
  "binary_split amount = filter (\<lambda>denomination. amount AND denomination \<noteq> 0) (map (\<lambda>bit. push_bit bit 1) (rev [0..<64]))"

definition post_swap_figures :: "u64 \<Rightarrow> u64 option \<Rightarrow> u64 \<Rightarrow> u64 \<times> u64" where
  "post_swap_figures need_sats prepared_input_fee_sats input_fee_ppk =
     (let prepared = (case prepared_input_fee_sats of
            Some fee \<Rightarrow> fee | None \<Rightarrow> fee_for input_fee_ppk (length (binary_split need_sats)));
          target_sats = saturating_add need_sats prepared
      in (target_sats, fee_for input_fee_ppk (length (binary_split target_sats))))"

record ConfirmBound =
  need_sats :: u64
  prepared_input_fee_sats :: u64
  target_sats :: u64
  actual_input_fee_sats :: u64
  cb_swap_fee_sats :: u64
  worst_debit_sats :: u64

datatype ConfirmShortfall =
    DifferentInvoice u64 u64
  | TargetShort ConfirmBound u64
  | OverCeiling ConfirmBound u64

definition confirm_bound ::
  "u64 \<Rightarrow> u64 \<Rightarrow> u64 option \<Rightarrow> u64 \<Rightarrow> u64 \<Rightarrow> bool \<Rightarrow> u64 \<Rightarrow> ConfirmShortfall + ConfirmBound"
where
  "confirm_bound invoice reserve prepared swap_fee ppk requires_swap max_debit =
     (let need = saturating_add invoice reserve;
          (prep, target, actual) =
            (if requires_swap
             then (case post_swap_figures need prepared ppk of (target, actual) \<Rightarrow> (saturating_sub target need, target, actual))
             else (case prepared of Some fee \<Rightarrow> (fee, need, fee) | None \<Rightarrow> (0, need, 0)));
          worst = saturating_add (saturating_add need actual) swap_fee;
          bound = \<lparr>need_sats = need, prepared_input_fee_sats = prep, target_sats = target,
                   actual_input_fee_sats = actual, cb_swap_fee_sats = swap_fee, worst_debit_sats = worst\<rparr>;
          needed_after_swap = saturating_add need actual
      in if requires_swap \<and> target < needed_after_swap then Inl (TargetShort bound needed_after_swap)
         else if worst > max_debit then Inl (OverCeiling bound max_debit)
         else Inr bound)"

record MeltCeiling =
  max_debit_sats :: u64
  mc_invoice_sats :: u64
  planned_quote_id :: "string option"

definition admits :: "MeltCeiling \<Rightarrow> u64 \<Rightarrow> u64 \<Rightarrow> bool" where
  "admits c invoice reserve \<longleftrightarrow>
     invoice = mc_invoice_sats c \<and> saturating_add invoice reserve \<le> max_debit_sats c"

definition admits_confirmable ::
  "MeltCeiling \<Rightarrow> u64 \<Rightarrow> u64 \<Rightarrow> u64 option \<Rightarrow> u64 \<Rightarrow> u64 \<Rightarrow> bool \<Rightarrow> ConfirmShortfall + ConfirmBound"
where
  "admits_confirmable c invoice reserve prepared swap_fee ppk requires_swap =
     (if invoice \<noteq> mc_invoice_sats c then Inl (DifferentInvoice invoice (mc_invoice_sats c))
      else confirm_bound invoice reserve prepared swap_fee ppk requires_swap (max_debit_sats c))"

definition total_debit :: "u64 \<Rightarrow> u64 \<Rightarrow> u64 \<Rightarrow> u64 \<Rightarrow> u64" where
  "total_debit invoice reserve input_fee swap_fee =
     saturating_add (saturating_add (saturating_add invoice reserve) input_fee) swap_fee"

record MeltPreparation =
  mp_mint_url :: string
  mp_quote_id :: string
  mp_invoice_sats :: u64
  mp_fee_reserve_sats :: u64
  mp_input_fee_sats :: u64
  mp_swap_fee_sats :: u64
  mp_requires_swap :: bool
  mp_input_fee_ppk :: u64
  mp_total_debit_sats :: u64
  mp_expiry_unix :: u64

section \<open>Planning and the check before the fence\<close>

text \<open>The search \<open>(1..=ceiling).rev().find(p)\<close>.\<close>

fun find_down :: "(u64 \<Rightarrow> bool) \<Rightarrow> nat \<Rightarrow> u64 option" where
  "find_down p 0 = None"
| "find_down p (Suc n) = (if p (of_nat (Suc n)) then Some (of_nat (Suc n)) else find_down p n)"

definition is_ok :: "'e + 'a \<Rightarrow> bool" where
  "is_ok r = (case r of Inl _ \<Rightarrow> False | Inr _ \<Rightarrow> True)"

definition plan_confirmable_invoice :: "u64 \<Rightarrow> u64 \<Rightarrow> u64 \<Rightarrow> u64 \<Rightarrow> u64 option" where
  "plan_confirmable_invoice gross reserve swap_fee ppk =
     (case checked_sub gross reserve of
        None \<Rightarrow> None
      | Some ceiling \<Rightarrow>
          find_down (\<lambda>invoice. is_ok (confirm_bound invoice reserve None swap_fee ppk True gross)) (unat ceiling))"

definition confirm_would_succeed :: "MeltPreparation \<Rightarrow> u64 \<Rightarrow> ConfirmShortfall + u64" where
  "confirm_would_succeed p gross =
     try_bind (confirm_bound (mp_invoice_sats p) (mp_fee_reserve_sats p) (Some (mp_input_fee_sats p))
       (mp_swap_fee_sats p) (mp_input_fee_ppk p) (mp_requires_swap p) gross)
       (\<lambda>bound. Inr (actual_input_fee_sats bound))"

section \<open>Denominations\<close>

lemma unat_two_power: "n < 64 \<Longrightarrow> unat (2 ^ n :: u64) = 2 ^ n"
  using unat_of_nat [where 'a = 64, of "2 ^ n"] power_strict_increasing [of n 64 "2 :: nat"] by simp

lemma split_prefix:
  "n \<le> 64 \<Longrightarrow> sum_list (map unat (filter (\<lambda>d. a AND d \<noteq> 0) (map (\<lambda>bit. push_bit bit 1) (rev [0..<n])))) = unat (take_bit n a)"
  for a :: u64
proof (induction n)
  case (Suc n)
  have "a AND push_bit n 1 \<noteq> 0 \<longleftrightarrow> bit a n"
    using Suc.prems by (simp add: bit_iff_and_push_bit_not_eq_0)
  moreover have "unat (push_bit n 1 :: u64) = 2 ^ n"
    using Suc.prems by (simp add: unat_two_power)
  moreover have "unat (take_bit (Suc n) a) = (if bit a n then 2 ^ n else 0) + unat (take_bit n a)"
    using Suc.prems by (simp add: unsigned_take_bit_eq take_bit_Suc_from_most bit_unsigned_iff of_bool_def)
  ultimately show ?case using Suc by simp
qed simp

lemma split_sum: "sum_list (map unat (binary_split a)) = unat a"
  using split_prefix [of 64 a] by (simp add: binary_split_def take_bit_word_eq_self)

lemma sorted_powers: "n \<le> 64 \<Longrightarrow> sorted_wrt (>) (map (\<lambda>bit. push_bit bit (1::u64)) (rev [0..<n]))"
proof (induction n)
  case (Suc n)
  have "push_bit i (1::u64) < push_bit n 1" if "i < n" for i
    using that Suc.prems by (simp add: word_less_nat_alt unat_two_power)
  then show ?case using Suc by auto
qed simp

lemma split_powers: "d \<in> set (binary_split a) \<Longrightarrow> \<exists>bit < 64. d = push_bit bit 1"
  by (auto simp: binary_split_def)

lemma length_split: "length (binary_split a) \<le> 64"
  unfolding binary_split_def by (rule order_trans [OF length_filter_le]) simp

lemma split_count: "length (binary_split a) = length (filter (bit a) [0..<64])"
proof -
  have "filter (\<lambda>n. a AND push_bit n 1 \<noteq> 0) (rev [0..<64]) = filter (bit a) (rev [0..<64])"
    by (rule filter_cong) (simp_all add: bit_iff_and_push_bit_not_eq_0)
  then show ?thesis
    by (simp add: binary_split_def filter_map o_def rev_filter [symmetric] del: push_bit_of_1 upt_rec_numeral)
qed

text \<open>How the kernel evaluates the split on concrete words.\<close>

fun low_split :: "nat \<Rightarrow> int \<Rightarrow> int \<Rightarrow> u64 list" where
  "low_split 0 d n = []"
| "low_split (Suc k) d n =
     (if n = 0 then [] else if n mod 2 = 1 then word_of_int d # low_split k (2 * d) (n div 2)
      else low_split k (2 * d) (n div 2))"

lemma low_split_eq:
  "low_split k (2 ^ m) n = map (\<lambda>b. push_bit b 1) (filter (\<lambda>b. bit n (b - m)) [m..<m + k])"
proof (induction k arbitrary: m n)
  case (Suc k)
  have up: "[m..<m + Suc k] = m # [Suc m..<Suc m + k]" by (simp add: upt_rec)
  have "filter (\<lambda>b. bit n (b - m)) [Suc m..<Suc m + k] = filter (\<lambda>b. bit (n div 2) (b - Suc m)) [Suc m..<Suc m + k]"
    by (rule filter_cong) (auto simp: bit_Suc [symmetric] Suc_diff_Suc)
  moreover have "(word_of_int (2 ^ m) :: u64) = push_bit m 1" by (simp add: word_of_int_2p)
  moreover have "low_split k (2 * 2 ^ m) (n div 2) = map (\<lambda>b. push_bit b 1) (filter (\<lambda>b. bit (n div 2) (b - Suc m)) [Suc m..<Suc m + k])"
    using Suc.IH [of "Suc m" "n div 2"] by simp
  ultimately show ?case
    unfolding up by (cases "n = 0") (auto simp: bit_0 odd_iff_mod_2_eq_one simp del: upt_Suc push_bit_of_1)
qed simp

lemma binary_split_eval [code]: "binary_split a = rev (low_split 64 1 (uint a))"
proof -
  have "filter (\<lambda>n. a AND push_bit n 1 \<noteq> 0) (rev [0..<64]) = filter (bit (uint a)) (rev [0..<64])"
    by (rule filter_cong) (simp_all add: bit_iff_and_push_bit_not_eq_0 [of a, symmetric] bit_uint_iff del: push_bit_of_1)
  then show ?thesis
    using low_split_eq [of 64 0 "uint a"]
    by (simp add: binary_split_def filter_map o_def rev_map rev_filter del: push_bit_of_1 upt_rec_numeral)
qed

text \<open>The denominations of a swap are the binary representation of the amount: they are powers
  of two, strictly decreasing, at most 64 of them, and they add up to the amount.\<close>

theorem binary_split_represents_amount:
  "sum_list (map unat (binary_split amount)) = unat amount \<and>
   sorted_wrt (>) (binary_split amount) \<and> length (binary_split amount) \<le> 64 \<and>
   set (binary_split amount) \<subseteq> {push_bit bit 1 | bit. bit < 64}"
  using split_sum [of amount] length_split [of amount] split_powers [of _ amount]
    sorted_wrt_filter [OF sorted_powers [of 64, OF order_refl]]
  by (auto simp: binary_split_def)

section \<open>The bound\<close>

text \<open>The target and the recomputed input fee the bound works with.\<close>

definition layout_figures :: "u64 \<Rightarrow> u64 option \<Rightarrow> u64 \<Rightarrow> bool \<Rightarrow> u64 \<times> u64" where
  "layout_figures need prepared ppk requires_swap =
     (if requires_swap then post_swap_figures need prepared ppk
      else (need, case prepared of Some fee \<Rightarrow> fee | None \<Rightarrow> 0))"

lemma confirm_bound_cases:
  assumes "layout_figures (saturating_add invoice reserve) prepared ppk requires_swap = (target, actual)"
  obtains bound where "need_sats bound = saturating_add invoice reserve" "target_sats bound = target"
    "actual_input_fee_sats bound = actual" "cb_swap_fee_sats bound = swap_fee"
    "worst_debit_sats bound = total_debit invoice reserve actual swap_fee"
    "confirm_bound invoice reserve prepared swap_fee ppk requires_swap max_debit =
      (if requires_swap \<and> target < saturating_add (saturating_add invoice reserve) actual
       then Inl (TargetShort bound (saturating_add (saturating_add invoice reserve) actual))
       else if total_debit invoice reserve actual swap_fee > max_debit then Inl (OverCeiling bound max_debit)
       else Inr bound)"
  using assms that
  by (fastforce simp: confirm_bound_def layout_figures_def total_debit_def Let_def split: if_splits prod.splits option.splits)

lemma total_debit_le:
  "m \<noteq> u64_max \<Longrightarrow> total_debit a b c d \<le> m \<longleftrightarrow> unat a + unat b + unat c + unat d \<le> unat m"
  using unat_less_2p [of m] by (auto simp: total_debit_def word_le_nat_alt word_unat_eq_iff u64_nat)

lemma confirm_bound_ok:
  assumes "confirm_bound invoice reserve prepared swap_fee ppk requires_swap max_debit = Inr bound"
    and "max_debit \<noteq> u64_max"
  shows "unat invoice + unat reserve + unat (actual_input_fee_sats bound) + unat swap_fee \<le> unat max_debit"
    and "requires_swap \<Longrightarrow> unat invoice + unat reserve + unat (actual_input_fee_sats bound) \<le> unat (target_sats bound)"
proof -
  obtain target actual where lay: "layout_figures (saturating_add invoice reserve) prepared ppk requires_swap = (target, actual)"
    by (cases "layout_figures (saturating_add invoice reserve) prepared ppk requires_swap")
  from confirm_bound_cases [OF lay, of swap_fee max_debit] obtain b where
    b: "target_sats b = target" "actual_input_fee_sats b = actual" and cb:
    "confirm_bound invoice reserve prepared swap_fee ppk requires_swap max_debit =
      (if requires_swap \<and> target < saturating_add (saturating_add invoice reserve) actual
       then Inl (TargetShort b (saturating_add (saturating_add invoice reserve) actual))
       else if total_debit invoice reserve actual swap_fee > max_debit then Inl (OverCeiling b max_debit)
       else Inr b)" by metis
  from cb assms(1) have "b = bound" and fits: "total_debit invoice reserve actual swap_fee \<le> max_debit"
    and covers: "requires_swap \<Longrightarrow> saturating_add (saturating_add invoice reserve) actual \<le> target"
    by (auto split: if_splits)
  from total_debit_le [OF assms(2)] fits \<open>b = bound\<close> b
  show nat: "unat invoice + unat reserve + unat (actual_input_fee_sats bound) + unat swap_fee \<le> unat max_debit" by metis
  show "unat invoice + unat reserve + unat (actual_input_fee_sats bound) \<le> unat (target_sats bound)" if requires_swap
    using covers [OF that] nat b \<open>b = bound\<close> unat_less_2p [of max_debit]
    by (simp add: word_le_nat_alt u64_nat min_def split: if_splits)
qed

lemma find_down_Some:
  "n < 2 ^ 64 \<Longrightarrow> find_down p n = Some x \<longleftrightarrow>
     0 < x \<and> unat x \<le> n \<and> p x \<and> (\<forall>y. x < y \<longrightarrow> unat y \<le> n \<longrightarrow> \<not> p y)"
proof (induction n)
  case (Suc n)
  let ?s = "of_nat (Suc n) :: u64"
  have s: "unat ?s = Suc n" "?s \<noteq> 0" using Suc.prems by (simp_all add: unat_of_nat word_unat_eq_iff del: of_nat_Suc)
  have le: "unat y \<le> Suc n \<longleftrightarrow> y = ?s \<or> unat y \<le> n" for y :: u64
    using s(1) by (auto simp: word_unat_eq_iff)
  have top: "unat y \<le> n \<Longrightarrow> \<not> ?s < y" for y :: u64
    using s(1) by (simp add: word_less_nat_alt)
  have gt: "unat x \<le> n \<Longrightarrow> x < ?s" using s(1) by (simp add: word_less_nat_alt)
  show ?case
  proof (cases "p ?s")
    case True
    then show ?thesis using s gt le top by (auto simp: word_gt_0 simp del: of_nat_Suc)
  next
    case False
    then show ?thesis using Suc le by (auto simp del: of_nat_Suc)
  qed
qed (auto simp: unat_eq_0)

lemma find_down_None: "n < 2 ^ 64 \<Longrightarrow> find_down p n = None \<longleftrightarrow> (\<forall>y. 0 < y \<longrightarrow> unat y \<le> n \<longrightarrow> \<not> p y)"
proof (induction n)
  case (Suc n)
  let ?s = "of_nat (Suc n) :: u64"
  have s: "unat ?s = Suc n" "?s > 0" using Suc.prems by (simp_all add: unat_of_nat word_gt_0 word_unat_eq_iff del: of_nat_Suc)
  have "unat y \<le> Suc n \<longleftrightarrow> y = ?s \<or> unat y \<le> n" for y :: u64
    using s(1) by (auto simp: word_unat_eq_iff)
  then show ?case using Suc s(2) by (auto simp del: of_nat_Suc)
qed (auto simp: unat_eq_0)

lemma is_ok_simps [simp]: "is_ok (Inr x)" "\<not> is_ok (Inl e)"
  by (simp_all add: is_ok_def)

lemma is_ok_iff: "is_ok r \<longleftrightarrow> (\<exists>x. r = Inr x)"
  by (cases r) auto

text \<open>What a melt that passed the bound can cost: for a gross below the largest word, a layout
  is accepted exactly when invoice, fee reserve, the input fee recomputed on the swapped proofs and
  swap fee together fit the gross as natural numbers, and, on a layout with a swap, the swap target
  covers invoice, reserve and recomputed fee, so the wallet does not refuse after its swap.\<close>

theorem confirm_bound_exact:
  assumes "gross \<noteq> u64_max"
    and "layout_figures (saturating_add invoice reserve) prepared ppk requires_swap = (target, actual)"
  shows "is_ok (confirm_bound invoice reserve prepared swap_fee ppk requires_swap gross) \<longleftrightarrow>
    unat invoice + unat reserve + unat actual + unat swap_fee \<le> unat gross \<and>
    (requires_swap \<longrightarrow> unat invoice + unat reserve + unat actual \<le> unat target)"
proof -
  have sat: "saturating_add (saturating_add invoice reserve) actual \<le> target \<longleftrightarrow>
      unat invoice + unat reserve + unat actual \<le> unat target"
    if "unat invoice + unat reserve + unat actual + unat swap_fee \<le> unat gross"
    using that unat_less_2p [of gross] by (simp add: word_le_nat_alt u64_nat min_def)
  show ?thesis
  proof (rule confirm_bound_cases [OF assms(2), of swap_fee gross])
    fix bound
    assume "confirm_bound invoice reserve prepared swap_fee ppk requires_swap gross =
      (if requires_swap \<and> target < saturating_add (saturating_add invoice reserve) actual
       then Inl (TargetShort bound (saturating_add (saturating_add invoice reserve) actual))
       else if total_debit invoice reserve actual swap_fee > gross then Inl (OverCeiling bound gross)
       else Inr bound)"
    then have "is_ok (confirm_bound invoice reserve prepared swap_fee ppk requires_swap gross) \<longleftrightarrow>
        \<not> (requires_swap \<and> target < saturating_add (saturating_add invoice reserve) actual) \<and>
        total_debit invoice reserve actual swap_fee \<le> gross" by (auto simp: not_less)
    then show ?thesis
      using total_debit_le [OF assms(1), of invoice reserve actual swap_fee] sat by (meson not_le)
  qed
qed

theorem confirm_bound_exact_witness:
  "is_ok (confirm_bound 13 2 None 1 1000 True 19) \<and> \<not> is_ok (confirm_bound 14 2 None 1 1000 True 20)"
proof -
  have "length (binary_split 15) = 4" "length (binary_split 19) = 3"
    "length (binary_split 16) = 1" "length (binary_split 17) = 2"
    by (simp_all add: split_count upt_rec)
  then have "layout_figures (saturating_add 13 2) None 1000 True = (19, 3)"
    "layout_figures (saturating_add 14 2) None 1000 True = (17, 2)"
    by (simp_all add: layout_figures_def post_swap_figures_def fee_for_def div_ceil_def saturating_add_def)
  from confirm_bound_exact [OF _ this(1), of 19 1] confirm_bound_exact [OF _ this(2), of 20 1]
  show ?thesis by (simp add: u64_max_def)
qed

lemma plan_is_largest:
  "case plan_confirmable_invoice gross reserve swap_fee ppk of
     Some n \<Rightarrow> 0 < n \<and> unat n + unat reserve \<le> unat gross \<and>
       is_ok (confirm_bound n reserve None swap_fee ppk True gross) \<and>
       (\<forall>m. n < m \<longrightarrow> unat m + unat reserve \<le> unat gross \<longrightarrow>
         \<not> is_ok (confirm_bound m reserve None swap_fee ppk True gross))
   | None \<Rightarrow> \<forall>m. 0 < m \<longrightarrow> unat m + unat reserve \<le> unat gross \<longrightarrow>
         \<not> is_ok (confirm_bound m reserve None swap_fee ppk True gross)"
proof (cases "checked_sub gross reserve")
  case None
  then have "unat gross < unat reserve"
    by (simp add: checked_sub_def word_le_nat_alt not_le split: if_splits)
  then show ?thesis using None by (simp add: plan_confirmable_invoice_def)
next
  case (Some c)
  then have c: "unat c + unat reserve = unat gross" by (simp add: checked_sub_Some)
  then have le: "unat m + unat reserve \<le> unat gross \<longleftrightarrow> unat m \<le> unat c" for m :: u64 by arith
  have "unat c < 2 ^ 64" using unat_less_2p [of c] by simp
  note fd = find_down_Some [OF this] find_down_None [OF this]
  show ?thesis
    using Some fd [of "\<lambda>invoice. is_ok (confirm_bound invoice reserve None swap_fee ppk True gross)"]
    by (auto simp: plan_confirmable_invoice_def le split: option.splits)
qed

lemma demo_plan: "plan_confirmable_invoice 4 0 1 0 = Some 3"
proof -
  have fig: "layout_figures (saturating_add m 0) None 0 True = (m, 0)" for m
    by (simp add: layout_figures_def post_swap_figures_def fee_for_def div_ceil_def)
  have ok: "is_ok (confirm_bound m 0 None 1 0 True 4) \<longleftrightarrow> unat m \<le> 3" for m
    by (rule confirm_bound_cases [OF fig [of m], of 1 4])
       (auto simp: total_debit_def word_less_nat_alt word_le_nat_alt u64_nat min_def)
  note best = plan_is_largest [of 0 4 1 0, unfolded ok]
  show ?thesis
  proof (cases "plan_confirmable_invoice 4 0 1 0")
    case None
    then show ?thesis using best by (auto dest: spec [of _ 3])
  next
    case (Some n)
    then have "unat n \<le> 3" "\<not> n < 3" using best by (auto dest: spec [of _ 3])
    then show ?thesis using Some by (simp add: word_less_nat_alt word_unat_eq_iff)
  qed
qed

text \<open>C13. The planner finds the best invoice: the answer is the largest amount, at least one and at
  most gross less reserve, that passes the bound with the probe's figures, and there is no answer
  exactly when the reserve exceeds the gross or no amount passes.\<close>

theorem plan_is_largest_confirmable:
  "case plan_confirmable_invoice gross reserve swap_fee ppk of
     Some n \<Rightarrow> 0 < n \<and> unat n + unat reserve \<le> unat gross \<and>
       is_ok (confirm_bound n reserve None swap_fee ppk True gross) \<and>
       (\<forall>m. n < m \<longrightarrow> unat m + unat reserve \<le> unat gross \<longrightarrow>
         \<not> is_ok (confirm_bound m reserve None swap_fee ppk True gross))
   | None \<Rightarrow> \<forall>m. 0 < m \<longrightarrow> unat m + unat reserve \<le> unat gross \<longrightarrow>
         \<not> is_ok (confirm_bound m reserve None swap_fee ppk True gross)"
  by (rule plan_is_largest)

theorem plan_is_largest_confirmable_witness:
  "is_ok (confirm_bound 3 0 None 1 0 True 4) \<and> \<not> is_ok (confirm_bound 4 0 None 1 0 True 4)"
  using plan_is_largest_confirmable [of 0 4 1 0] demo_plan by (auto dest: spec [of _ 4])

text \<open>Planner and gate agree: when the wallet prepares the planned invoice with the reserve, the
  swap fee and the rate the planner used, and states the input fee on the split of invoice plus
  reserve, the check before the fence lets it pass.\<close>

theorem planned_invoice_passes_the_gate:
  assumes "plan_confirmable_invoice gross reserve swap_fee ppk = Some (mp_invoice_sats p)"
    and "mp_fee_reserve_sats p = reserve" and "mp_swap_fee_sats p = swap_fee" and "mp_input_fee_ppk p = ppk"
    and "mp_requires_swap p"
    and "mp_input_fee_sats p = fee_for ppk (length (binary_split (saturating_add (mp_invoice_sats p) reserve)))"
  shows "is_ok (confirm_would_succeed p gross)"
proof -
  have "is_ok (confirm_bound (mp_invoice_sats p) reserve None swap_fee ppk True gross)"
    using plan_is_largest [of reserve gross swap_fee ppk] assms(1) by simp
  then show ?thesis using assms(2-6)
    by (auto simp: confirm_would_succeed_def is_ok_iff confirm_bound_def post_swap_figures_def Let_def try_bind_def
          split: if_splits)
qed

theorem planned_invoice_passes_the_gate_witness:
  "is_ok (confirm_would_succeed \<lparr>mp_mint_url = ''m'', mp_quote_id = ''q'', mp_invoice_sats = 3, mp_fee_reserve_sats = 0,
     mp_input_fee_sats = 0, mp_swap_fee_sats = 1, mp_requires_swap = True, mp_input_fee_ppk = 0,
     mp_total_debit_sats = 4, mp_expiry_unix = 0\<rparr> 4)"
  by (rule planned_invoice_passes_the_gate [where reserve = 0 and swap_fee = 1 and ppk = 0])
     (simp_all add: demo_plan fee_for_def div_ceil_def)

lemma ceil_1000: "(a + 999) div 1000 = (if a mod 1000 = 0 then a div 1000 else a div 1000 + 1)" for a :: nat
proof -
  define q r where a: "q = a div 1000" "r = a mod 1000"
  have "a = 1000 * q + r" "r < 1000" by (simp_all add: a)
  then show ?thesis unfolding a [symmetric] by (intro div_nat_eqI) auto
qed

lemma unat_div_Suc: "unat (m div 1000 + 1) = unat m div 1000 + 1" for m :: u64
proof -
  have "unat m < 2 ^ 64" using unat_less_2p [of m] by simp
  then have "unat m div 1000 + 1 < 2 ^ 64" by (simp add: div_less_iff_less_mult)
  moreover have "unat (m div 1000) = unat m div 1000" by (simp add: unat_div)
  ultimately show ?thesis using unat_word_ariths(1) [of "m div 1000" 1] by (simp add: mod_less)
qed


end
