(* ===== verification/Remit_Store.thy ===== *)
theory Remit_Store
  imports Prelude "HOL-Library.List_Lexorder"
begin

text \<open>
  The part of the seller's state database, \<^verbatim>\<open>seller_node/store.rs\<close>, that records what buyers
  paid and what of the platform fee was passed on: the receipts, the remittances, the journal of
  attempts and the state of the jobs. Columns hold \<open>i64\<close>; each operation is one
  transaction; every call first draws from a schedule of SQLite failures, and a call that fails
  changes no table. Messages that interpolate values are cut before the interpolation.
\<close>

section \<open>Rows\<close>

datatype RemittanceState = Planned | Spending | Settled | Failed

fun column_value :: "RemittanceState \<Rightarrow> string" where
  "column_value Planned = ''planned''"
| "column_value Spending = ''planned''"
| "column_value Settled = ''settled''"
| "column_value Failed = ''failed''"

definition RemittanceState_parse :: "string \<Rightarrow> string + RemittanceState" where
  "RemittanceState_parse raw =
     (if raw = ''planned'' then Inr Planned
      else if raw = ''settled'' then Inr Settled
      else if raw = ''failed'' then Inr Failed
      else Inl ''unknown remittance state'')"

definition from_columns :: "string \<Rightarrow> int option \<Rightarrow> string + RemittanceState" where
  "from_columns raw spending_since =
     try_bind (RemittanceState_parse raw) (\<lambda>state.
       Inr (if state = Planned \<and> spending_since \<noteq> None then Spending else state))"

definition is_in_flight :: "RemittanceState \<Rightarrow> bool" where
  "is_in_flight s \<longleftrightarrow> s = Planned \<or> s = Spending"

datatype SettledBy = ByMelt | ByReconciliation

fun SettledBy_as_str :: "SettledBy \<Rightarrow> string" where
  "SettledBy_as_str ByMelt = ''melt''"
| "SettledBy_as_str ByReconciliation = ''reconciliation''"

definition SettledBy_parse :: "string \<Rightarrow> string + SettledBy" where
  "SettledBy_parse raw =
     (if raw = ''melt'' then Inr ByMelt
      else if raw = ''reconciliation'' then Inr ByReconciliation
      else Inl ''unknown settled_by'')"

record receipt_row =
  rc_job_id :: string
  rc_amount_sats :: int
  rc_received_at_unix :: int
  rc_fee_bps :: int
  rc_fee_sats :: int
  rc_mint_fee_sats :: "int option"
  rc_remittance_id :: "string option"

record remittance_row =
  fr_gross_sats :: int
  fr_melt_fee_sats :: "int option"
  fr_net_sats :: int
  fr_destination :: string
  fr_melt_quote_id :: "string option"
  fr_payment_hash :: string
  fr_bolt11 :: string
  fr_state :: string
  fr_created_at_unix :: int
  fr_settled_at_unix :: "int option"
  fr_owner :: "string option"
  fr_lease_until_unix :: "int option"
  fr_melt_fee_reserve_sats :: "int option"
  fr_settled_by :: "string option"
  fr_spending_since_unix :: "int option"
  fr_spending_quote_id :: "string option"

record FeeRemittance =
  remittance_id :: string
  gross_sats :: u64
  melt_fee_sats :: "u64 option"
  melt_fee_reserve_sats :: "u64 option"
  net_sats :: u64
  destination :: string
  melt_quote_id :: "string option"
  payment_hash :: string
  bolt11 :: string
  state :: RemittanceState
  created_at_unix :: int
  settled_at_unix :: "int option"
  settled_by :: "SettledBy option"
  owner :: "string option"
  lease_until_unix :: "int option"
  spending_since_unix :: "int option"
  spending_quote_id :: "string option"
  receipts_count :: nat

record RemittancePlan =
  pl_payment_hash :: string
  pl_gross_sats :: u64
  pl_net_sats :: u64
  pl_melt_fee_reserve_sats :: u64
  pl_destination :: string
  pl_bolt11 :: string
  pl_melt_quote_id :: "string option"

record RemittanceReplan =
  rp_net_sats :: u64
  rp_payment_hash :: string
  rp_bolt11 :: string
  rp_melt_fee_reserve_sats :: u64
  rp_melt_quote_id :: "string option"

record RemitSettlement =
  st_net_paid_sats :: "u64 option"
  st_melt_fee_sats :: "u64 option"
  st_melt_fee_reserve_sats :: "u64 option"
  st_melt_quote_id :: "string option"
  st_settled_by :: SettledBy

datatype ReleaseOn =
    TerminalBoundQuote string
  | TerminalUnboundSpending
  | TerminalQuotePlanned
  | LeaseExpired int
  | OwnPlanned string

datatype OwnershipLost =
    Missing
  | NotPlanned RemittanceState
  | OtherOwner "string option"
  | LeaseTooShort "int option" int int

datatype PlanRefused =
    InFlight FeeRemittance
  | GrossMismatch u64 u64
  | DuplicateInvoice string
  | NothingToRemit
  | PlanStore string

datatype RemitAttemptTrigger = ByCollect | ByCommand | ByRetry

datatype RemitAttemptOutcome = AttemptPaid | AttemptRefused | AttemptFailed

record RemitAttempt =
  started_at_unix :: int
  ra_trigger :: RemitAttemptTrigger
  ra_unremitted_sats :: u64
  ra_outcome :: RemitAttemptOutcome
  ra_detail :: string
  ra_remittance_id :: "string option"

record ReceiptFees =
  mint_fee_sats :: u64
  fee_bps :: u32
  fee_sats :: u64

datatype Collected = New | Duplicate

record JobFeeAccrual =
  ja_job_id :: string
  ja_amount_sats :: u64
  ja_mint_fee_sats :: "u64 option"
  ja_fee_bps :: u32
  ja_fee_sats :: u64
  ja_received_at_unix :: int
  ja_remittance_id :: "string option"

record AccruedFees =
  total_amount_sats :: u64
  total_mint_fee_sats :: u64
  rows_without_mint_fee :: nat
  total_fee_sats :: u64
  unremitted_fee_sats :: u64
  remitted_fee_sats :: u64
  in_flight_fee_sats :: u64
  by_job :: "JobFeeAccrual list"

record job_row =
  jb_offer_id :: string
  jb_agent_name :: "string option"
  jb_state :: string
  jb_created_at_unix :: int
  jb_updated_at_unix :: int
  jb_pushed_commit :: "string option"
  jb_settled_elsewhere_at_unix :: "int option"

record seller_db =
  receipts :: "(string \<times> receipt_row) list"
  fee_remittances :: "(string \<times> remittance_row) list"
  fee_remit_attempts :: "RemitAttempt list"
  jobs :: "(string \<times> job_row) list"
  sdb_faults :: "string option list"

definition sdb_call :: "seller_db \<Rightarrow> (string + unit) \<times> seller_db" where
  "sdb_call db =
     (case sdb_faults db of
        [] \<Rightarrow> (Inr (), db)
      | None # fs \<Rightarrow> (Inr (), db\<lparr>sdb_faults := fs\<rparr>)
      | Some e # fs \<Rightarrow> (Inl e, db\<lparr>sdb_faults := fs\<rparr>))"

definition sdb_try :: "(seller_db \<Rightarrow> string + ('a \<times> seller_db)) \<Rightarrow> seller_db \<Rightarrow> (string + 'a) \<times> seller_db" where
  "sdb_try f = st_bind sdb_call (\<lambda>_ db. case f db of Inl e \<Rightarrow> (Inl e, db) | Inr (r, db') \<Rightarrow> (Inr r, db'))"

section \<open>Receipts\<close>

text \<open>\<open>INSERT OR IGNORE\<close> also passes over a row that violates a CHECK.\<close>

definition collect_receipt ::
  "string \<Rightarrow> string \<Rightarrow> u64 \<Rightarrow> ReceiptFees \<Rightarrow> int \<Rightarrow> seller_db \<Rightarrow> (string + Collected) \<times> seller_db"
where
  "collect_receipt receipt job amount fees now =
     sdb_try (\<lambda>db. Inr
       (if map_of (receipts db) receipt \<noteq> None \<or> as_i64 amount < 0 \<or> as_i64 (fee_sats fees) < 0 \<or>
           as_i64 (mint_fee_sats fees) < 0 \<or> uint (fee_bps fees) > 10000
        then (Duplicate, db)
        else (New, db\<lparr>receipts := receipts db @ [(receipt,
               \<lparr>rc_job_id = job, rc_amount_sats = as_i64 amount, rc_received_at_unix = now,
                rc_fee_bps = uint (fee_bps fees), rc_fee_sats = as_i64 (fee_sats fees),
                rc_mint_fee_sats = Some (as_i64 (mint_fee_sats fees)), rc_remittance_id = None\<rparr>)],
             jobs := update_row job (\<lambda>r. r\<lparr>jb_state := ''paid'', jb_updated_at_unix := now\<rparr>) (jobs db)\<rparr>)))"

definition fail_job :: "string \<Rightarrow> int \<Rightarrow> seller_db \<Rightarrow> (string + nat) \<times> seller_db" where
  "fail_job job now =
     sdb_try (\<lambda>db. Inr (case map_of (jobs db) job of
        None \<Rightarrow> (0, db)
      | Some r \<Rightarrow>
          if jb_state r = ''paid'' then (0, db)
          else (1, db\<lparr>jobs := AList.update job (r\<lparr>jb_state := ''failed'', jb_updated_at_unix := now\<rparr>) (jobs db)\<rparr>)))"

definition accrual_of :: "receipt_row \<Rightarrow> JobFeeAccrual" where
  "accrual_of r =
     \<lparr>ja_job_id = rc_job_id r, ja_amount_sats = clamp_u64 (rc_amount_sats r),
      ja_mint_fee_sats = map_option clamp_u64 (rc_mint_fee_sats r),
      ja_fee_bps = (if 0 \<le> rc_fee_bps r \<and> rc_fee_bps r < 2 ^ 32 then word_of_int (rc_fee_bps r) else 0),
      ja_fee_sats = clamp_u64 (rc_fee_sats r), ja_received_at_unix = rc_received_at_unix r,
      ja_remittance_id = rc_remittance_id r\<rparr>"

text \<open>One turn of the loop of \<open>accrued_fees\<close>: the receipt and the state column of the row it is
  pinned to, if there is one.\<close>

definition accrue :: "JobFeeAccrual \<times> string option \<Rightarrow> AccruedFees \<Rightarrow> AccruedFees" where
  "accrue x totals =
     (case x of (row, remittance_state) \<Rightarrow>
       (let t1 = totals\<lparr>total_amount_sats := saturating_add (total_amount_sats totals) (ja_amount_sats row),
                        total_fee_sats := saturating_add (total_fee_sats totals) (ja_fee_sats row)\<rparr>;
            t2 = (case ja_mint_fee_sats row of
                    Some fee \<Rightarrow> t1\<lparr>total_mint_fee_sats := saturating_add (total_mint_fee_sats t1) fee\<rparr>
                  | None \<Rightarrow> t1\<lparr>rows_without_mint_fee := rows_without_mint_fee t1 + 1\<rparr>);
            t3 = (case map_option RemittanceState_parse remittance_state of
                    Some (Inr Settled) \<Rightarrow> t2\<lparr>remitted_fee_sats := saturating_add (remitted_fee_sats t2) (ja_fee_sats row)\<rparr>
                  | Some (Inr Planned) \<Rightarrow> t2\<lparr>in_flight_fee_sats := saturating_add (in_flight_fee_sats t2) (ja_fee_sats row)\<rparr>
                  | _ \<Rightarrow> t2\<lparr>unremitted_fee_sats := saturating_add (unremitted_fee_sats t2) (ja_fee_sats row)\<rparr>)
        in t3\<lparr>by_job := by_job t3 @ [row]\<rparr>))"

definition AccruedFees_default :: AccruedFees where
  "AccruedFees_default = \<lparr>total_amount_sats = 0, total_mint_fee_sats = 0, rows_without_mint_fee = 0, total_fee_sats = 0,
     unremitted_fee_sats = 0, remitted_fee_sats = 0, in_flight_fee_sats = 0, by_job = []\<rparr>"

definition joined_receipts :: "seller_db \<Rightarrow> (JobFeeAccrual \<times> string option) list" where
  "joined_receipts db =
     map (\<lambda>(_, r). (accrual_of r, case rc_remittance_id r of
            None \<Rightarrow> None | Some i \<Rightarrow> map_option fr_state (map_of (fee_remittances db) i)))
       (sort_key (\<lambda>(_, r). rc_received_at_unix r) (sort_key fst (receipts db)))"

definition accrued_fees :: "seller_db \<Rightarrow> (string + AccruedFees) \<times> seller_db" where
  "accrued_fees = sdb_try (\<lambda>db. Inr (fold accrue (joined_receipts db) AccruedFees_default, db))"

definition pinned :: "string option \<Rightarrow> seller_db \<Rightarrow> receipt_row list" where
  "pinned i db = filter (\<lambda>r. rc_remittance_id r = i) (map snd (receipts db))"

definition unremitted_fee_sats_in :: "seller_db \<Rightarrow> string + u64" where
  "unremitted_fee_sats_in db =
     try_bind (sql_sum (map rc_fee_sats (pinned None db))) (\<lambda>n. Inr (clamp_u64 n))"

section \<open>Remittances\<close>

definition read_remittance :: "seller_db \<Rightarrow> string \<Rightarrow> remittance_row \<Rightarrow> string + FeeRemittance" where
  "read_remittance db i r =
     try_bind (from_columns (fr_state r) (fr_spending_since_unix r)) (\<lambda>st.
     try_bind (case fr_settled_by r of None \<Rightarrow> Inr None | Some raw \<Rightarrow> try_bind (SettledBy_parse raw) (\<lambda>b. Inr (Some b))) (\<lambda>by.
       Inr \<lparr>remittance_id = i, gross_sats = clamp_u64 (fr_gross_sats r),
         melt_fee_sats = map_option clamp_u64 (fr_melt_fee_sats r),
         melt_fee_reserve_sats = map_option clamp_u64 (fr_melt_fee_reserve_sats r),
         net_sats = clamp_u64 (fr_net_sats r), destination = fr_destination r, melt_quote_id = fr_melt_quote_id r,
         payment_hash = fr_payment_hash r, bolt11 = fr_bolt11 r, state = st, created_at_unix = fr_created_at_unix r,
         settled_at_unix = fr_settled_at_unix r, settled_by = by, owner = fr_owner r,
         lease_until_unix = fr_lease_until_unix r, spending_since_unix = fr_spending_since_unix r,
         spending_quote_id = fr_spending_quote_id r, receipts_count = length (pinned (Some i) db)\<rparr>))"

definition lease_holds :: "FeeRemittance \<Rightarrow> string \<Rightarrow> int \<Rightarrow> int \<Rightarrow> bool" where
  "lease_holds r who now margin \<longleftrightarrow>
     owner r = Some who \<and> (case lease_until_unix r of None \<Rightarrow> False | Some until \<Rightarrow> until > i64_saturating_add now margin)"

definition lease_expired :: "FeeRemittance \<Rightarrow> int \<Rightarrow> bool" where
  "lease_expired r now \<longleftrightarrow> (case lease_until_unix r of None \<Rightarrow> True | Some until \<Rightarrow> now \<ge> until)"

definition in_flight_remittance_in :: "seller_db \<Rightarrow> string + FeeRemittance option" where
  "in_flight_remittance_in db =
     (case filter (\<lambda>(_, r). fr_state r = column_value Planned) (fee_remittances db) of
        [] \<Rightarrow> Inr None
      | (i, r) # _ \<Rightarrow> try_bind (read_remittance db i r) (\<lambda>row. Inr (Some row)))"

definition in_flight_remittance :: "seller_db \<Rightarrow> (string + FeeRemittance option) \<times> seller_db" where
  "in_flight_remittance = sdb_try (\<lambda>db. try_bind (in_flight_remittance_in db) (\<lambda>r. Inr (r, db)))"

text \<open>The CHECK constraints of a row, and the row as it is read back by id.\<close>

definition row_checks :: "remittance_row \<Rightarrow> bool" where
  "row_checks r \<longleftrightarrow> fr_gross_sats r \<ge> 0 \<and> fr_net_sats r \<ge> 0 \<and> fr_net_sats r \<le> fr_gross_sats r \<and>
     (case fr_melt_fee_sats r of None \<Rightarrow> True | Some n \<Rightarrow> n \<ge> 0) \<and>
     (case fr_melt_fee_reserve_sats r of None \<Rightarrow> True | Some n \<Rightarrow> n \<ge> 0)"

definition read_back :: "string \<Rightarrow> seller_db \<Rightarrow> string + FeeRemittance" where
  "read_back i db =
     (case map_of (fee_remittances db) i of
        None \<Rightarrow> Inl ''Query returned no rows''
      | Some r \<Rightarrow> read_remittance db i r)"

definition planned_row :: "RemittancePlan \<Rightarrow> string \<Rightarrow> int \<Rightarrow> int \<Rightarrow> remittance_row" where
  "planned_row plan who lease now =
     \<lparr>fr_gross_sats = as_i64 (pl_gross_sats plan), fr_melt_fee_sats = None, fr_net_sats = as_i64 (pl_net_sats plan),
      fr_destination = pl_destination plan, fr_melt_quote_id = pl_melt_quote_id plan,
      fr_payment_hash = pl_payment_hash plan, fr_bolt11 = pl_bolt11 plan, fr_state = column_value Planned,
      fr_created_at_unix = now, fr_settled_at_unix = None, fr_owner = Some who, fr_lease_until_unix = Some lease,
      fr_melt_fee_reserve_sats = Some (as_i64 (pl_melt_fee_reserve_sats plan)), fr_settled_by = None,
      fr_spending_since_unix = None, fr_spending_quote_id = None\<rparr>"

definition pin :: "string \<Rightarrow> (string \<times> receipt_row) list \<Rightarrow> (string \<times> receipt_row) list" where
  "pin i = map (\<lambda>(k, rc). (k, if rc_remittance_id rc = None then rc\<lparr>rc_remittance_id := Some i\<rparr> else rc))"

definition plan_tx :: "RemittancePlan \<Rightarrow> string \<Rightarrow> int \<Rightarrow> int \<Rightarrow> seller_db \<Rightarrow> PlanRefused + (FeeRemittance \<times> seller_db)" where
  "plan_tx plan who lease now db =
     try_bind (map_err PlanStore (in_flight_remittance_in db)) (\<lambda>active.
       case active of
         Some row \<Rightarrow> Inl (InFlight row)
       | None \<Rightarrow>
     try_bind (map_err PlanStore (unremitted_fee_sats_in db)) (\<lambda>unremitted.
       if unremitted = 0 then Inl NothingToRemit
       else if unremitted \<noteq> pl_gross_sats plan then Inl (GrossMismatch (pl_gross_sats plan) unremitted)
       else
         (let i = pl_payment_hash plan; r = planned_row plan who lease now in
          if map_of (fee_remittances db) i \<noteq> None \<or>
             list_ex (\<lambda>(_, q). fr_payment_hash q = i \<or> fr_state q = column_value Planned) (fee_remittances db) \<or>
             \<not> row_checks r
          then Inl (DuplicateInvoice i)
          else
            (let db' = db\<lparr>fee_remittances := fee_remittances db @ [(i, r)],
                          receipts := pin i (receipts db)\<rparr>
             in try_bind (map_err PlanStore (read_back i db')) (\<lambda>row. Inr (row, db'))))))"

definition plan_remittance ::
  "RemittancePlan \<Rightarrow> string \<Rightarrow> int \<Rightarrow> int \<Rightarrow> seller_db \<Rightarrow> (PlanRefused + FeeRemittance) \<times> seller_db"
where
  "plan_remittance plan who lease now db =
     (if pl_net_sats plan > pl_gross_sats plan then (Inl (PlanStore ''net exceeds gross''), db)
      else if is_blank who then (Inl (PlanStore ''a remittance plan needs an owner token''), db)
      else st_bind (st_map_err PlanStore sdb_call) (\<lambda>_ db.
        case plan_tx plan who lease now db of Inl e \<Rightarrow> (Inl e, db) | Inr (row, db') \<Rightarrow> (Inr row, db')) db)"

text \<open>The fence. The clock is read inside the transaction: \<open>now\<close> is its value there.\<close>

definition admissible :: "remittance_row \<Rightarrow> string \<Rightarrow> int \<Rightarrow> int \<Rightarrow> bool" where
  "admissible r who now margin \<longleftrightarrow>
     fr_state r = column_value Planned \<and> fr_spending_since_unix r = None \<and> fr_owner r = Some who \<and>
     (case fr_lease_until_unix r of None \<Rightarrow> False | Some until \<Rightarrow> until > now + margin)"

definition admit_tx ::
  "string \<Rightarrow> string \<Rightarrow> string \<Rightarrow> int \<Rightarrow> int \<Rightarrow> seller_db \<Rightarrow> string + ((OwnershipLost + FeeRemittance) \<times> seller_db)"
where
  "admit_tx i who quote margin now db =
     (case map_of (fee_remittances db) i of
        None \<Rightarrow> Inr (Inl Missing, db)
      | Some r \<Rightarrow>
          if admissible r who now margin
          then (let db' = db\<lparr>fee_remittances := AList.update i
                  (r\<lparr>fr_spending_since_unix := Some now, fr_spending_quote_id := Some quote\<rparr>) (fee_remittances db)\<rparr>
                in try_bind (read_back i db') (\<lambda>row. Inr (Inr row, db')))
          else try_bind (read_remittance db i r) (\<lambda>row. Inr
            (Inl (if state row \<noteq> Planned then NotPlanned (state row)
                  else if owner row \<noteq> Some who then OtherOwner (owner row)
                  else LeaseTooShort (lease_until_unix row) now margin), db)))"

definition admit_remittance_spend ::
  "string \<Rightarrow> string \<Rightarrow> string \<Rightarrow> int \<Rightarrow> int \<Rightarrow> seller_db \<Rightarrow> (string + (OwnershipLost + FeeRemittance)) \<times> seller_db"
where
  "admit_remittance_spend i who quote margin now db =
     (if is_blank quote then (Inl ''a remittance is admitted to spend only against a named melt quote'', db)
      else sdb_try (admit_tx i who quote margin now) db)"

definition replanned_row :: "remittance_row \<Rightarrow> RemittanceReplan \<Rightarrow> remittance_row" where
  "replanned_row r replan =
     r\<lparr>fr_net_sats := as_i64 (rp_net_sats replan), fr_payment_hash := rp_payment_hash replan,
       fr_bolt11 := rp_bolt11 replan,
       fr_melt_fee_reserve_sats := Some (as_i64 (rp_melt_fee_reserve_sats replan)),
       fr_melt_quote_id := rp_melt_quote_id replan\<rparr>"

definition replan_tx :: "string \<Rightarrow> string \<Rightarrow> RemittanceReplan \<Rightarrow> seller_db \<Rightarrow> string + (FeeRemittance option \<times> seller_db)" where
  "replan_tx i who replan db =
     (case map_of (fee_remittances db) i of
        None \<Rightarrow> Inr (None, db)
      | Some r \<Rightarrow>
          if as_i64 (rp_net_sats replan) > fr_gross_sats r then Inl ''re-planned net exceeds gross''
          else if \<not> (fr_state r = column_value Planned \<and> fr_spending_since_unix r = None \<and> fr_owner r = Some who)
          then Inr (None, db)
          else if list_ex (\<lambda>(j, q). j \<noteq> i \<and> fr_payment_hash q = rp_payment_hash replan) (fee_remittances db)
          then Inl ''UNIQUE constraint failed: fee_remittances.payment_hash''
          else if \<not> row_checks (replanned_row r replan) then Inl ''CHECK constraint failed''
          else (let db' = db\<lparr>fee_remittances := AList.update i (replanned_row r replan) (fee_remittances db)\<rparr>
                in try_bind (read_back i db') (\<lambda>row. Inr (Some row, db'))))"

definition replan_remittance ::
  "string \<Rightarrow> string \<Rightarrow> RemittanceReplan \<Rightarrow> seller_db \<Rightarrow> (string + FeeRemittance option) \<times> seller_db"
where
  "replan_remittance i who replan db =
     (if is_blank (rp_payment_hash replan) \<or> is_blank (rp_bolt11 replan)
      then (Inl ''a re-plan names the new invoice: payment hash and bolt11'', db)
      else sdb_try (replan_tx i who replan) db)"

definition settled_row :: "remittance_row \<Rightarrow> RemitSettlement \<Rightarrow> int \<Rightarrow> remittance_row" where
  "settled_row r settlement now =
     r\<lparr>fr_state := column_value Settled, fr_settled_at_unix := Some now,
       fr_melt_fee_sats := map_option as_i64 (st_melt_fee_sats settlement),
       fr_net_sats := (case st_net_paid_sats settlement of None \<Rightarrow> fr_net_sats r | Some n \<Rightarrow> as_i64 n),
       fr_melt_quote_id := (case st_melt_quote_id settlement of None \<Rightarrow> fr_melt_quote_id r | q \<Rightarrow> q),
       fr_melt_fee_reserve_sats := (case st_melt_fee_reserve_sats settlement of
          None \<Rightarrow> fr_melt_fee_reserve_sats r | Some n \<Rightarrow> Some (as_i64 n)),
       fr_settled_by := Some (SettledBy_as_str (st_settled_by settlement))\<rparr>"

definition settle_tx :: "string \<Rightarrow> RemitSettlement \<Rightarrow> int \<Rightarrow> seller_db \<Rightarrow> string + (FeeRemittance \<times> seller_db)" where
  "settle_tx i settlement now db =
     (case map_of (fee_remittances db) i of
        None \<Rightarrow> Inl ''remittance is not planned; refusing to settle it''
      | Some r \<Rightarrow>
          if fr_state r \<noteq> column_value Planned then Inl ''remittance is not planned; refusing to settle it''
          else if \<not> row_checks (settled_row r settlement now) then Inl ''CHECK constraint failed''
          else (let db' = db\<lparr>fee_remittances := AList.update i (settled_row r settlement now) (fee_remittances db)\<rparr>
                in try_bind (read_back i db') (\<lambda>row. Inr (row, db'))))"

definition settle_remittance :: "string \<Rightarrow> RemitSettlement \<Rightarrow> int \<Rightarrow> seller_db \<Rightarrow> (string + FeeRemittance) \<times> seller_db" where
  "settle_remittance i settlement now = sdb_try (settle_tx i settlement now)"

text \<open>The predicate each reason for a release puts on the row, on top of \<open>state = 'planned'\<close>.\<close>

fun release_predicate :: "ReleaseOn \<Rightarrow> remittance_row \<Rightarrow> bool" where
  "release_predicate (TerminalBoundQuote quote) r \<longleftrightarrow> fr_spending_since_unix r \<noteq> None \<and> fr_spending_quote_id r = Some quote"
| "release_predicate TerminalUnboundSpending r \<longleftrightarrow> fr_spending_since_unix r \<noteq> None \<and> fr_spending_quote_id r = None"
| "release_predicate TerminalQuotePlanned r \<longleftrightarrow> fr_spending_since_unix r = None"
| "release_predicate (LeaseExpired at) r \<longleftrightarrow> fr_spending_since_unix r = None \<and>
     (case fr_lease_until_unix r of None \<Rightarrow> True | Some until \<Rightarrow> until \<le> at)"
| "release_predicate (OwnPlanned who) r \<longleftrightarrow> fr_spending_since_unix r = None \<and> fr_owner r = Some who"

definition unpin :: "string \<Rightarrow> (string \<times> receipt_row) list \<Rightarrow> (string \<times> receipt_row) list" where
  "unpin i = map (\<lambda>(k, rc). (k, if rc_remittance_id rc = Some i then rc\<lparr>rc_remittance_id := None\<rparr> else rc))"

definition release_tx :: "string \<Rightarrow> ReleaseOn \<Rightarrow> int \<Rightarrow> seller_db \<Rightarrow> string + (FeeRemittance option \<times> seller_db)" where
  "release_tx i on now db =
     (case map_of (fee_remittances db) i of
        None \<Rightarrow> Inr (None, db)
      | Some r \<Rightarrow>
          if \<not> (fr_state r = column_value Planned \<and> release_predicate on r) then Inr (None, db)
          else
            (let db' = db\<lparr>fee_remittances := AList.update i
                         (r\<lparr>fr_state := column_value Failed, fr_settled_at_unix := Some now\<rparr>) (fee_remittances db),
                       receipts := unpin i (receipts db)\<rparr>
             in try_bind (read_back i db') (\<lambda>row. Inr (Some row, db'))))"

definition release_remittance :: "string \<Rightarrow> ReleaseOn \<Rightarrow> int \<Rightarrow> seller_db \<Rightarrow> (string + FeeRemittance option) \<times> seller_db" where
  "release_remittance i on now = sdb_try (release_tx i on now)"

section \<open>The journal of attempts\<close>

definition record_remit_attempt :: "RemitAttempt \<Rightarrow> seller_db \<Rightarrow> (string + nat) \<times> seller_db" where
  "record_remit_attempt a =
     sdb_try (\<lambda>db.
       if as_i64 (ra_unremitted_sats a) < 0 then Inl ''CHECK constraint failed: unremitted_sats >= 0''
       else Inr (Suc (length (fee_remit_attempts db)), db\<lparr>fee_remit_attempts := fee_remit_attempts db @ [a]\<rparr>))"

definition recent_remit_attempts :: "nat \<Rightarrow> seller_db \<Rightarrow> (string + RemitAttempt list) \<times> seller_db" where
  "recent_remit_attempts limit = sdb_try (\<lambda>db. Inr (take limit (rev (fee_remit_attempts db)), db))"

end
