(* ===== verification/Fee_Remit.thy ===== *)
theory Fee_Remit
  imports Melt_Bound Remit_Store Processes
begin

text \<open>
  The remit path of the seller, \<^verbatim>\<open>fee_remit.rs\<close>: the decision about a remittance in
  flight, the attempt as a program whose atomic actions are the calls of the store and of the
  effects, and its journal entry.

  The effects are functions on the state \<open>'w\<close> of the world. Printing is left out, with the
  reasons that are only printed, and error messages are abbreviated. The observation points, which do nothing in the shipped effects, are left out.
  The parse of the constant destination address succeeds. The confirmed melts are a history
  variable: every call of \<open>confirm_melt\<close> appends the remittance it was made for and the
  figures of the melt.
\<close>

section \<open>Types\<close>

definition REMIT_LEASE :: int where "REMIT_LEASE = 300"

definition SPEND_MARGIN :: int where "SPEND_MARGIN = 60"

definition RECENT_ATTEMPTS_SHOWN :: nat where "RECENT_ATTEMPTS_SHOWN = 5"

definition PLATFORM_FEE_ADDRESS :: string where "PLATFORM_FEE_ADDRESS = ''maxplayer@strike.me''"

definition MSAT_PER_SAT :: u64 where "MSAT_PER_SAT = 1000"

record PayRequest =
  callback :: string
  min_sendable_msat :: u64
  max_sendable_msat :: u64

definition msat_to_sats_ceil :: "u64 \<Rightarrow> u64" where
  "msat_to_sats_ceil msat = div_ceil msat MSAT_PER_SAT"

definition msat_to_sats_floor :: "u64 \<Rightarrow> u64" where
  "msat_to_sats_floor msat = msat div MSAT_PER_SAT"

definition min_sendable_sats :: "PayRequest \<Rightarrow> u64" where
  "min_sendable_sats pay = msat_to_sats_ceil (min_sendable_msat pay)"

definition max_sendable_sats :: "PayRequest \<Rightarrow> u64" where
  "max_sendable_sats pay = msat_to_sats_floor (max_sendable_msat pay)"

record ResolvedInvoice =
  ri_bolt11 :: string
  ri_payment_hash :: string
  ri_amount_sats :: u64
  ri_amount_msat :: u64

record MeltEstimate =
  me_mint_url :: string
  me_quote_id :: string
  me_amount_sats :: u64
  me_fee_reserve_sats :: u64
  me_expiry_unix :: u64
  expected_fees_sats :: u64
  expected_swap_fee_sats :: u64
  me_input_fee_ppk :: u64
  expected_fees_note :: "string option"

datatype MeltQuoteState = QUnpaid | QPaid | QPending | QUnknown | QFailed

record MeltQuoteStatus =
  qs_mint_url :: string
  qs_quote_id :: string
  qs_state :: MeltQuoteState
  qs_amount_sats :: u64
  qs_fee_reserve_sats :: u64
  qs_expiry_unix :: u64

definition expired_at :: "MeltQuoteStatus \<Rightarrow> int \<Rightarrow> bool" where
  "expired_at status now \<longleftrightarrow> 0 \<le> now \<and> now > uint (qs_expiry_unix status)"

record MeltOutcome =
  mo_mint_url :: string
  paid_sats :: u64
  mo_fee_sats :: u64
  balance_sats :: u64
  balance_after_sats :: "u64 option"
  mo_quote_id :: string
  mo_fee_reserve_sats :: u64
  mo_input_fee_sats :: u64
  mo_swap_fee_sats :: u64

datatype MeltFailure = RefusedBeforeSpending string | FailedMelt string

record PreparedMelt =
  preparation :: MeltPreparation
  prepared_token :: nat

record 'w RemitEffects =
  eff_owner :: string
  pay_request :: "'w \<Rightarrow> (string + PayRequest) \<times> 'w"
  invoice :: "PayRequest \<Rightarrow> u64 \<Rightarrow> 'w \<Rightarrow> (string + ResolvedInvoice) \<times> 'w"
  melt_estimate :: "string \<Rightarrow> 'w \<Rightarrow> (string + MeltEstimate) \<times> 'w"
  melt_quote :: "string \<Rightarrow> 'w \<Rightarrow> (string + MeltEstimate) \<times> 'w"
  prepare_melt :: "string \<Rightarrow> MeltCeiling \<Rightarrow> 'w \<Rightarrow> (MeltFailure + PreparedMelt) \<times> 'w"
  confirm_melt :: "PreparedMelt \<Rightarrow> 'w \<Rightarrow> (MeltFailure + MeltOutcome) \<times> 'w"
  cancel_melt :: "PreparedMelt \<Rightarrow> 'w \<Rightarrow> (MeltFailure + unit) \<times> 'w"
  melt_status :: "string \<Rightarrow> 'w \<Rightarrow> (string + MeltQuoteStatus option) \<times> 'w"
  melt_status_for_quote :: "string \<Rightarrow> 'w \<Rightarrow> (string + MeltQuoteStatus option) \<times> 'w"
  now_unix :: "'w \<Rightarrow> int"

datatype RemitTrigger = DryRun | Command | Collect | Retry

definition pays :: "RemitTrigger \<Rightarrow> bool" where
  "pays trigger \<longleftrightarrow> trigger \<noteq> DryRun"

fun journal_as :: "RemitTrigger \<Rightarrow> RemitAttemptTrigger option" where
  "journal_as DryRun = None"
| "journal_as Command = Some ByCommand"
| "journal_as Collect = Some ByCollect"
| "journal_as Retry = Some ByRetry"

datatype Refusal =
    NothingUnremitted
  | BelowMinimum u64 u64
  | AboveMaximum u64 u64
  | ReserveDoesNotFit u64 u64
  | FeesDoNotFit u64 u64 u64
  | Settling string
  | HeldByOwner string string int
  | SpendingHeld string string int "string option" "MeltQuoteStatus option" u64
  | OwnershipLostRefusal string OwnershipLost
  | RowChangedUnderMe string
  | PlanRefusedRefusal PlanRefused

fun is_threshold :: "Refusal \<Rightarrow> bool" where
  "is_threshold NothingUnremitted = True"
| "is_threshold (BelowMinimum _ _) = True"
| "is_threshold _ = False"

datatype RemitOutcome =
    DryRunDone
  | Paid string u64 u64
  | Refused Refusal
  | MeltFailed string string
  | MeltRefused string string
  | QuoteFailed string string

datatype Reconcile = Settle | Release ReleaseOn | Hold Refusal

section \<open>The decision about the remittance in flight\<close>

definition hold_spending :: "FeeRemittance \<Rightarrow> MeltQuoteStatus option \<Rightarrow> string option \<Rightarrow> Reconcile" where
  "hold_spending row status quote =
     Hold (SpendingHeld (remittance_id row) (case owner row of None \<Rightarrow> [] | Some who \<Rightarrow> who)
       (case spending_since_unix row of None \<Rightarrow> created_at_unix row | Some t \<Rightarrow> t) quote status (gross_sats row))"

definition terminal_release :: "FeeRemittance \<Rightarrow> Reconcile" where
  "terminal_release row = Release (if state row = Spending then TerminalUnboundSpending else TerminalQuotePlanned)"

definition unpaid_decision :: "FeeRemittance \<Rightarrow> MeltQuoteStatus option \<Rightarrow> string \<Rightarrow> int \<Rightarrow> Reconcile" where
  "unpaid_decision row status my_owner now =
     (if state row = Spending then hold_spending row status None
      else if owner row = Some my_owner then Release (OwnPlanned my_owner)
      else if lease_expired row now then Release (LeaseExpired now)
      else Hold (HeldByOwner (remittance_id row) (case owner row of None \<Rightarrow> [] | Some who \<Rightarrow> who)
             (case lease_until_unix row of None \<Rightarrow> created_at_unix row | Some t \<Rightarrow> t)))"

definition reconcile_decision :: "FeeRemittance \<Rightarrow> MeltQuoteStatus option \<Rightarrow> string \<Rightarrow> int \<Rightarrow> Reconcile" where
  "reconcile_decision row status my_owner now =
     (let bound = (if state row = Spending then spending_quote_id row else None) in
      if map_option qs_state status = Some QPaid then Settle
      else case bound of
        Some quote \<Rightarrow> hold_spending row status (Some quote)
      | None \<Rightarrow>
          (case status of
             None \<Rightarrow> unpaid_decision row status my_owner now
           | Some s \<Rightarrow>
               (case qs_state s of
                  QPaid \<Rightarrow> Settle
                | QPending \<Rightarrow> Hold (Settling (remittance_id row))
                | QUnknown \<Rightarrow> Hold (Settling (remittance_id row))
                | QFailed \<Rightarrow> terminal_release row
                | QUnpaid \<Rightarrow>
                    if expired_at s now then terminal_release row
                    else unpaid_decision row status my_owner now)))"

section \<open>The attempt as a program\<close>

type_synonym 'w remit_state = "seller_db \<times> 'w \<times> (string \<times> MeltPreparation) list"

record AttemptTrace =
  tr_unremitted :: "u64 option"
  tr_remittance_id :: "string option"

type_synonym 'w attempt = "('w remit_state, AttemptTrace \<times> (string + RemitOutcome)) proc"

definition store :: "(seller_db \<Rightarrow> 'a \<times> seller_db) \<Rightarrow> ('w remit_state, 'a) proc" where
  "store m = atomic (\<lambda>(db, w, l). case m db of (r, db') \<Rightarrow> (r, db', w, l))"

definition world :: "('w \<Rightarrow> 'a \<times> 'w) \<Rightarrow> ('w remit_state, 'a) proc" where
  "world m = atomic (\<lambda>(db, w, l). case m w of (r, w') \<Rightarrow> (r, db, w', l))"

definition fence ::
  "'w RemitEffects \<Rightarrow> string \<Rightarrow> string \<Rightarrow> ('w remit_state, string + (OwnershipLost + FeeRemittance)) proc"
where
  "fence E i quote = atomic (\<lambda>(db, w, l).
     case admit_remittance_spend i (eff_owner E) quote SPEND_MARGIN (now_unix E w) db of (r, db') \<Rightarrow> (r, db', w, l))"

definition confirm :: "'w RemitEffects \<Rightarrow> string \<Rightarrow> PreparedMelt \<Rightarrow> ('w remit_state, MeltFailure + MeltOutcome) proc" where
  "confirm E i p = atomic (\<lambda>(db, w, l). case confirm_melt E p w of (r, w') \<Rightarrow> (r, db, w', l @ [(i, preparation p)]))"

definition finish :: "AttemptTrace \<Rightarrow> RemitOutcome \<Rightarrow> 'w attempt" where
  "finish tr outcome = Done (tr, Inr outcome)"

definition or_fail ::
  "AttemptTrace \<Rightarrow> ('w remit_state, string + 'a) proc \<Rightarrow> ('a \<Rightarrow> 'w attempt) \<Rightarrow> 'w attempt"
where
  "or_fail tr p k = pbind p (\<lambda>r. case r of Inl e \<Rightarrow> Done (tr, Inl e) | Inr x \<Rightarrow> k x)"

subsection \<open>Reconciling an earlier attempt\<close>

definition reconciliation_settlement :: "MeltQuoteStatus \<Rightarrow> RemitSettlement" where
  "reconciliation_settlement s =
     \<lparr>st_net_paid_sats = Some (qs_amount_sats s), st_melt_fee_sats = None,
      st_melt_fee_reserve_sats = Some (qs_fee_reserve_sats s), st_melt_quote_id = Some (qs_quote_id s),
      st_settled_by = ByReconciliation\<rparr>"

definition resolve_active ::
  "'w RemitEffects \<Rightarrow> int \<Rightarrow> FeeRemittance \<Rightarrow> MeltQuoteStatus option \<Rightarrow> AttemptTrace \<Rightarrow>
   (AttemptTrace \<Rightarrow> 'w attempt) \<Rightarrow> 'w attempt"
where
  "resolve_active E now active status tr k =
     (let i = remittance_id active; cleared = tr\<lparr>tr_remittance_id := None\<rparr> in
      case reconcile_decision active status (eff_owner E) now of
        Settle \<Rightarrow>
          or_fail tr (store (settle_remittance i (reconciliation_settlement (the status)) now)) (\<lambda>_. k cleared)
      | Release on \<Rightarrow>
          or_fail tr (store (release_remittance i on now)) (\<lambda>released.
            case released of
              Some _ \<Rightarrow> k cleared
            | None \<Rightarrow> finish tr (Refused (RowChangedUnderMe i)))
      | Hold refusal \<Rightarrow> finish tr (Refused refusal))"

definition reconcile_leg ::
  "'w RemitEffects \<Rightarrow> int \<Rightarrow> AttemptTrace \<Rightarrow> (AttemptTrace \<Rightarrow> 'w attempt) \<Rightarrow> 'w attempt"
where
  "reconcile_leg E now tr k =
     or_fail tr (store in_flight_remittance) (\<lambda>active.
       case active of
         None \<Rightarrow> k tr
       | Some row \<Rightarrow>
           (let tr' = tr\<lparr>tr_remittance_id := Some (remittance_id row)\<rparr> in
            or_fail tr' (world (if state row = Spending \<and> spending_quote_id row \<noteq> None
                                then melt_status_for_quote E (the (spending_quote_id row))
                                else melt_status E (bolt11 row)))
              (\<lambda>status. resolve_active E now row status tr' k)))"

subsection \<open>Sizing the invoice\<close>

definition sized_invoice ::
  "'w RemitEffects \<Rightarrow> AttemptTrace \<Rightarrow> PayRequest \<Rightarrow> ResolvedInvoice \<Rightarrow> MeltEstimate \<Rightarrow> u64 \<Rightarrow>
   (ResolvedInvoice \<Rightarrow> MeltEstimate \<Rightarrow> 'w attempt) \<Rightarrow> 'w attempt"
where
  "sized_invoice E tr pay probe probe_estimate net k =
     (if me_fee_reserve_sats probe_estimate = 0 \<and> expected_fees_sats probe_estimate = 0
      then k probe probe_estimate
      else
        or_fail tr (world (invoice E pay net)) (\<lambda>iv.
        or_fail tr (world (melt_estimate E (ri_bolt11 iv))) (\<lambda>estimate.
          if me_amount_sats estimate \<noteq> net
          then Done (tr, Inl ''mint quoted another amount for the invoice; refusing'')
          else k iv estimate)))"

text \<open>The re-check on the quote that was raised. The variants of the shortfall differ in the line printed only.\<close>

definition within_gross ::
  "AttemptTrace \<Rightarrow> u64 \<Rightarrow> u64 \<Rightarrow> (ResolvedInvoice \<Rightarrow> MeltEstimate \<Rightarrow> u64 \<Rightarrow> 'w attempt) \<Rightarrow>
   ResolvedInvoice \<Rightarrow> MeltEstimate \<Rightarrow> 'w attempt"
where
  "within_gross tr gross net k iv estimate =
     (if saturating_add net (me_fee_reserve_sats estimate) > gross
      then finish tr (Refused (ReserveDoesNotFit gross (me_fee_reserve_sats estimate)))
      else if \<not> is_ok (confirm_bound net (me_fee_reserve_sats estimate)
             (Some (saturating_sub (expected_fees_sats estimate) (expected_swap_fee_sats estimate)))
             (expected_swap_fee_sats estimate) (me_input_fee_ppk estimate) (me_input_fee_ppk estimate > 0) gross)
      then finish tr (Refused (FeesDoNotFit gross (me_fee_reserve_sats estimate) (expected_fees_sats estimate)))
      else k iv estimate net)"

definition sizing_leg ::
  "'w RemitEffects \<Rightarrow> u64 \<Rightarrow> AttemptTrace \<Rightarrow>
   (PayRequest \<Rightarrow> ResolvedInvoice \<Rightarrow> MeltEstimate \<Rightarrow> u64 \<Rightarrow> 'w attempt) \<Rightarrow> 'w attempt"
where
  "sizing_leg E gross tr k =
     or_fail tr (world (pay_request E)) (\<lambda>pay.
       if gross < min_sendable_sats pay then finish tr (Refused (BelowMinimum gross (min_sendable_sats pay)))
       else if gross > max_sendable_sats pay then finish tr (Refused (AboveMaximum gross (max_sendable_sats pay)))
       else
     or_fail tr (world (invoice E pay gross)) (\<lambda>probe.
     or_fail tr (world (melt_estimate E (ri_bolt11 probe))) (\<lambda>probe_estimate.
       let reserve = me_fee_reserve_sats probe_estimate; expected = expected_fees_sats probe_estimate in
       if me_amount_sats probe_estimate \<noteq> gross
       then Done (tr, Inl ''mint quoted another amount for the invoice; refusing'')
       else if reserve \<ge> gross then finish tr (Refused (ReserveDoesNotFit gross reserve))
       else case plan_confirmable_invoice gross reserve (expected_swap_fee_sats probe_estimate)
                   (me_input_fee_ppk probe_estimate) of
              None \<Rightarrow> finish tr (Refused (FeesDoNotFit gross reserve expected))
            | Some net \<Rightarrow>
                if net < min_sendable_sats pay
                then finish tr (Refused (if expected > 0 then FeesDoNotFit gross reserve expected
                       else ReserveDoesNotFit gross reserve))
                else sized_invoice E tr pay probe probe_estimate net (within_gross tr gross net (k pay)))))"

subsection \<open>Quote, re-plan, prepare, fence and pay\<close>

definition quote_inside_margin :: "MeltEstimate \<Rightarrow> int \<Rightarrow> bool" where
  "quote_inside_margin quote now \<longleftrightarrow>
     0 \<le> i64_saturating_add now SPEND_MARGIN \<and> uint (me_expiry_unix quote) \<le> i64_saturating_add now SPEND_MARGIN"

definition melt_settlement :: "MeltOutcome \<Rightarrow> RemitSettlement" where
  "melt_settlement out =
     \<lparr>st_net_paid_sats = Some (paid_sats out), st_melt_fee_sats = Some (mo_fee_sats out),
      st_melt_fee_reserve_sats = Some (mo_fee_reserve_sats out), st_melt_quote_id = Some (mo_quote_id out),
      st_settled_by = ByMelt\<rparr>"

definition clock :: "'w RemitEffects \<Rightarrow> ('w remit_state, int) proc" where
  "clock E = world (\<lambda>w. (now_unix E w, w))"

definition pay_leg ::
  "'w RemitEffects \<Rightarrow> int \<Rightarrow> AttemptTrace \<Rightarrow> string \<Rightarrow> MeltEstimate \<Rightarrow> PreparedMelt \<Rightarrow> 'w attempt"
where
  "pay_leg E now tr i quote prepared =
     pbind (clock E) (\<lambda>pay_now.
       if quote_inside_margin quote pay_now
       then pbind (world (cancel_melt E prepared)) (\<lambda>_. finish tr (MeltFailed i ''bound melt quote expires too soon; not paid''))
       else pbind (confirm E i prepared) (\<lambda>res.
         case res of
           Inr out \<Rightarrow>
             or_fail tr (store (settle_remittance i (melt_settlement out) now)) (\<lambda>settled.
               finish tr (Paid (remittance_id settled) (paid_sats out) (mo_fee_sats out)))
         | Inl (RefusedBeforeSpending reason) \<Rightarrow> finish tr (MeltFailed i (''refused before spending: '' @ reason))
         | Inl (FailedMelt error) \<Rightarrow> finish tr (MeltFailed i error)))"

definition release_own_planned :: "'w RemitEffects \<Rightarrow> int \<Rightarrow> string \<Rightarrow> ('w remit_state, string + bool) proc" where
  "release_own_planned E now i =
     pbind (store (release_remittance i (OwnPlanned (eff_owner E)) now)) (\<lambda>r.
       Done (case r of Inl e \<Rightarrow> Inl e | Inr released \<Rightarrow> Inr (released \<noteq> None)))"

definition fence_leg ::
  "'w RemitEffects \<Rightarrow> int \<Rightarrow> AttemptTrace \<Rightarrow> string \<Rightarrow> MeltEstimate \<Rightarrow> PreparedMelt \<Rightarrow> 'w attempt"
where
  "fence_leg E now tr i quote prepared =
     or_fail tr (fence E i (me_quote_id quote)) (\<lambda>admitted.
       case admitted of
         Inr _ \<Rightarrow> pay_leg E now tr i quote prepared
       | Inl lost \<Rightarrow>
           pbind (world (cancel_melt E prepared)) (\<lambda>_.
           or_fail tr (case lost of LeaseTooShort _ _ _ \<Rightarrow> release_own_planned E now i | _ \<Rightarrow> Done (Inr False)) (\<lambda>_.
             finish tr (Refused (OwnershipLostRefusal i lost)))))"

definition prepare_leg ::
  "'w RemitEffects \<Rightarrow> int \<Rightarrow> AttemptTrace \<Rightarrow> string \<Rightarrow> u64 \<Rightarrow> MeltEstimate \<Rightarrow> MeltCeiling \<Rightarrow> 'w attempt"
where
  "prepare_leg E now tr i gross quote ceiling =
     pbind (clock E) (\<lambda>quote_now.
       if quote_inside_margin quote quote_now then finish tr (MeltRefused i ''a quote this close to expiry is not paid'')
       else pbind (world (prepare_melt E (me_quote_id quote) ceiling)) (\<lambda>res.
         case res of
           Inl (RefusedBeforeSpending reason) \<Rightarrow> finish tr (MeltRefused i reason)
         | Inl (FailedMelt reason) \<Rightarrow> finish tr (MeltRefused i (''wallet could not prepare the melt of quote: '' @ reason))
         | Inr prepared \<Rightarrow>
             (case confirm_would_succeed (preparation prepared) gross of
                Inl _ \<Rightarrow>
                  pbind (world (cancel_melt E prepared)) (\<lambda>_.
                    finish tr (MeltRefused i ''the prepared melt was cancelled before any fee-bearing request''))
              | Inr _ \<Rightarrow> fence_leg E now tr i quote prepared)))"

definition replan_leg ::
  "'w RemitEffects \<Rightarrow> AttemptTrace \<Rightarrow> string \<Rightarrow> u64 \<Rightarrow> PayRequest \<Rightarrow> MeltEstimate \<Rightarrow> u64 \<Rightarrow>
   (MeltEstimate \<Rightarrow> MeltCeiling \<Rightarrow> 'w attempt) \<Rightarrow> 'w attempt"
where
  "replan_leg E tr i gross pay estimate live_reserve k =
     (let requires_swap = me_input_fee_ppk estimate > 0 in
      case plan_confirmable_invoice gross live_reserve (expected_swap_fee_sats estimate) (me_input_fee_ppk estimate) of
        None \<Rightarrow> finish tr (MeltRefused i ''no invoice fits at the live fee reserve'')
      | Some net2 \<Rightarrow>
          if net2 < min_sendable_sats pay then finish tr (MeltRefused i ''no invoice fits at the live fee reserve'')
          else
          pbind (world (invoice E pay net2)) (\<lambda>r1.
            case r1 of
              Inl _ \<Rightarrow> finish tr (MeltRefused i ''the re-planned invoice could not be raised'')
            | Inr invoice2 \<Rightarrow>
          pbind (world (melt_quote E (ri_bolt11 invoice2))) (\<lambda>r2.
            case r2 of
              Inl _ \<Rightarrow> finish tr (MeltRefused i ''the payment quote for the re-planned invoice failed'')
            | Inr quote2 \<Rightarrow>
                if me_amount_sats quote2 \<noteq> net2
                then finish tr (MeltRefused i ''mint quoted another amount for the re-planned invoice'')
                else if \<not> is_ok (confirm_bound net2 (me_fee_reserve_sats quote2) None (expected_swap_fee_sats estimate)
                       (me_input_fee_ppk estimate) requires_swap gross)
                then finish tr (MeltRefused i ''the re-planned payment would not confirm; not re-planned a second time'')
                else
          or_fail tr (store (replan_remittance i (eff_owner E)
              \<lparr>rp_net_sats = net2, rp_payment_hash = ri_payment_hash invoice2, rp_bolt11 = ri_bolt11 invoice2,
               rp_melt_fee_reserve_sats = me_fee_reserve_sats quote2, rp_melt_quote_id = Some (me_quote_id quote2)\<rparr>))
            (\<lambda>replanned.
              case replanned of
                None \<Rightarrow> finish tr (MeltRefused i ''the planned row changed under me while re-planning'')
              | Some _ \<Rightarrow> k quote2 \<lparr>max_debit_sats = gross, mc_invoice_sats = net2,
                             planned_quote_id = Some (me_quote_id quote2)\<rparr>))))"

definition quote_leg ::
  "'w RemitEffects \<Rightarrow> int \<Rightarrow> AttemptTrace \<Rightarrow> string \<Rightarrow> u64 \<Rightarrow> PayRequest \<Rightarrow> ResolvedInvoice \<Rightarrow>
   MeltEstimate \<Rightarrow> u64 \<Rightarrow> 'w attempt"
where
  "quote_leg E now tr i gross pay iv estimate net =
     (let ceiling = \<lparr>max_debit_sats = gross, mc_invoice_sats = net, planned_quote_id = Some (me_quote_id estimate)\<rparr> in
      pbind (world (melt_quote E (ri_bolt11 iv))) (\<lambda>res.
        case res of
          Inl error \<Rightarrow> or_fail tr (release_own_planned E now i) (\<lambda>_. finish tr (QuoteFailed i error))
        | Inr quote \<Rightarrow>
            if me_amount_sats quote \<noteq> net then finish tr (MeltRefused i ''melt refused before spending: mint quoted another amount'')
            else if \<not> admits ceiling (me_amount_sats quote) (me_fee_reserve_sats quote)
            then finish tr (MeltRefused i ''melt refused before spending: quote exceeds the ceiling'')
            else if me_fee_reserve_sats quote \<ge> me_fee_reserve_sats estimate \<or>
                    is_ok (confirm_bound net (me_fee_reserve_sats quote) None (expected_swap_fee_sats estimate)
                      (me_input_fee_ppk estimate) (me_input_fee_ppk estimate > 0) gross)
            then prepare_leg E now tr i gross quote ceiling
            else replan_leg E tr i gross pay estimate (me_fee_reserve_sats quote) (prepare_leg E now tr i gross)))"

subsection \<open>One attempt\<close>

definition journal_leg ::
  "'w RemitEffects \<Rightarrow> int \<Rightarrow> AttemptTrace \<Rightarrow> u64 \<Rightarrow> PayRequest \<Rightarrow> ResolvedInvoice \<Rightarrow> MeltEstimate \<Rightarrow> u64 \<Rightarrow> 'w attempt"
where
  "journal_leg E now tr gross pay iv estimate net =
     (let plan = \<lparr>pl_payment_hash = ri_payment_hash iv, pl_gross_sats = gross, pl_net_sats = net,
            pl_melt_fee_reserve_sats = me_fee_reserve_sats estimate, pl_destination = PLATFORM_FEE_ADDRESS,
            pl_bolt11 = ri_bolt11 iv, pl_melt_quote_id = Some (me_quote_id estimate)\<rparr>
      in pbind (store (plan_remittance plan (eff_owner E) (i64_saturating_add now REMIT_LEASE) now)) (\<lambda>res.
           case res of
             Inl (PlanStore e) \<Rightarrow> Done (tr, Inl e)
           | Inl (InFlight active) \<Rightarrow>
               finish (tr\<lparr>tr_remittance_id := Some (remittance_id active)\<rparr>) (Refused (PlanRefusedRefusal (InFlight active)))
           | Inl refused \<Rightarrow> finish tr (Refused (PlanRefusedRefusal refused))
           | Inr planned \<Rightarrow>
               quote_leg E now (tr\<lparr>tr_remittance_id := Some (remittance_id planned)\<rparr>) (remittance_id planned) gross
                 pay iv estimate net))"

definition remit_inner :: "'w RemitEffects \<Rightarrow> RemitTrigger \<Rightarrow> int \<Rightarrow> 'w attempt" where
  "remit_inner E trigger now =
     (let tr = \<lparr>tr_unremitted = None, tr_remittance_id = None\<rparr> in
      or_fail tr (if trigger \<noteq> Collect then store (recent_remit_attempts RECENT_ATTEMPTS_SHOWN) else Done (Inr [])) (\<lambda>_.
      reconcile_leg E now tr (\<lambda>tr.
      or_fail tr (store accrued_fees) (\<lambda>accrued.
        let gross = unremitted_fee_sats accrued; tr = tr\<lparr>tr_unremitted := Some gross\<rparr> in
        if gross = 0 then finish tr (Refused NothingUnremitted)
        else sizing_leg E gross tr (\<lambda>pay iv estimate net.
          if \<not> pays trigger then finish tr DryRunDone
          else journal_leg E now tr gross pay iv estimate net)))))"

definition attempt_entry ::
  "AttemptTrace \<Rightarrow> string + RemitOutcome \<Rightarrow> (RemitAttemptOutcome \<times> string \<times> string option) option"
where
  "attempt_entry tr result =
     (case result of
        Inl error \<Rightarrow> Some (AttemptFailed, error, tr_remittance_id tr)
      | Inr DryRunDone \<Rightarrow> None
      | Inr (Paid i net fee) \<Rightarrow> Some (AttemptPaid, ''paid '', Some i)
      | Inr (Refused refusal) \<Rightarrow>
          if is_threshold refusal then None else Some (AttemptRefused, ''refused'', tr_remittance_id tr)
      | Inr (MeltFailed i error) \<Rightarrow> Some (AttemptFailed, ''melt failed: '' @ error, Some i)
      | Inr (MeltRefused i reason) \<Rightarrow> Some (AttemptFailed, ''refused before spending: '' @ reason, Some i)
      | Inr (QuoteFailed i error) \<Rightarrow> Some (AttemptFailed, ''payment quote failed: '' @ error, Some i))"

definition remit :: "'w RemitEffects \<Rightarrow> RemitTrigger \<Rightarrow> int \<Rightarrow> ('w remit_state, string + RemitOutcome) proc" where
  "remit E trigger now =
     pbind (remit_inner E trigger now) (\<lambda>(tr, result).
       case (journal_as trigger, attempt_entry tr result) of
         (Some by, Some (outcome, detail, i)) \<Rightarrow>
           pbind (case tr_unremitted tr of
                    Some n \<Rightarrow> Done (Some n)
                  | None \<Rightarrow> pbind (store accrued_fees) (\<lambda>r. Done (case r of Inl _ \<Rightarrow> None | Inr a \<Rightarrow> Some (unremitted_fee_sats a))))
             (\<lambda>unremitted.
           pbind (store (record_remit_attempt \<lparr>started_at_unix = now, ra_trigger = by,
                    ra_unremitted_sats = (case unremitted of None \<Rightarrow> 0 | Some n \<Rightarrow> n), ra_outcome = outcome,
                    ra_detail = detail, ra_remittance_id = i\<rparr>)) (\<lambda>_. Done result))
       | _ \<Rightarrow> Done result)"

end
