(* ===== verification/Remit_Books.thy ===== *)
theory Remit_Books
  imports Remit_Store
begin

text \<open>
  The books of the platform fee: the invariant of the receipts and the remittances, the abstract
  ledger they implement, and the proof that every transaction of the store keeps the invariant and
  is a step of the ledger.
\<close>

section \<open>The books\<close>

definition spending :: "remittance_row \<Rightarrow> bool" where
  "spending r \<longleftrightarrow> fr_spending_since_unix r \<noteq> None"

definition pinned_fees :: "string option \<Rightarrow> seller_db \<Rightarrow> int" where
  "pinned_fees i db = sum_list (map rc_fee_sats (pinned i db))"

definition row_ok :: "seller_db \<Rightarrow> string \<Rightarrow> remittance_row \<Rightarrow> bool" where
  "row_ok db i r \<longleftrightarrow>
     (spending r \<longleftrightarrow> fr_spending_quote_id r \<noteq> None) \<and> (spending r \<longrightarrow> fr_state r \<noteq> ''failed'') \<and>
     fr_state r \<in> {''planned'', ''settled'', ''failed''} \<and> 0 \<le> fr_gross_sats r \<and> fr_gross_sats r < 2 ^ 63 \<and>
     (fr_state r \<noteq> ''failed'' \<longrightarrow> fr_gross_sats r = pinned_fees (Some i) db)"

definition receipt_ok :: "seller_db \<Rightarrow> receipt_row \<Rightarrow> bool" where
  "receipt_ok db rc \<longleftrightarrow> 0 \<le> rc_fee_sats rc \<and>
     (\<forall>i. rc_remittance_id rc = Some i \<longrightarrow> (\<exists>r. map_of (fee_remittances db) i = Some r \<and> fr_state r \<noteq> ''failed''))"

definition books :: "seller_db \<Rightarrow> bool" where
  "books db \<longleftrightarrow>
     (\<forall>i r. map_of (fee_remittances db) i = Some r \<longrightarrow> row_ok db i r) \<and>
     (\<forall>i j r q. map_of (fee_remittances db) i = Some r \<longrightarrow> map_of (fee_remittances db) j = Some q \<longrightarrow>
        fr_state r = ''planned'' \<longrightarrow> fr_state q = ''planned'' \<longrightarrow> i = j) \<and>
     (\<forall>rc \<in> set (map snd (receipts db)). receipt_ok db rc)"

section \<open>The abstract ledger\<close>

text \<open>
  What the store promises about the fee, without rows and receipts: of the fee accrued so far a part
  is owed, a part is discharged, and at most one remittance is moving, with its amount and whether
  its payment was admitted. Only a remittance that was not admitted can be taken back.
\<close>

record fee_ledger =
  accrued :: int
  owed :: int
  moving :: "(string \<times> int \<times> bool) set"
  discharged :: int

inductive ledger_step :: "fee_ledger \<Rightarrow> fee_ledger \<Rightarrow> bool" where
  accrues: "0 \<le> n \<Longrightarrow> ledger_step L (L\<lparr>accrued := accrued L + n, owed := owed L + n\<rparr>)"
| plans: "moving L = {} \<Longrightarrow> 0 < owed L \<Longrightarrow> ledger_step L (L\<lparr>owed := 0, moving := {(i, owed L, False)}\<rparr>)"
| admits: "moving L = {(i, g, False)} \<Longrightarrow> ledger_step L (L\<lparr>moving := {(i, g, True)}\<rparr>)"
| settles: "moving L = {(i, g, c)} \<Longrightarrow> ledger_step L (L\<lparr>moving := {}, discharged := discharged L + g\<rparr>)"
| releases: "moving L = {(i, g, False)} \<Longrightarrow> ledger_step L (L\<lparr>owed := owed L + g, moving := {}\<rparr>)"

definition balanced :: "fee_ledger \<Rightarrow> bool" where
  "balanced L \<longleftrightarrow> accrued L = owed L + (\<Sum>(i, g, c)\<in>moving L. g) + discharged L \<and> card (moving L) \<le> 1 \<and> finite (moving L)"

lemma ledger_step_balanced: "ledger_step L L' \<Longrightarrow> balanced L \<Longrightarrow> balanced L'"
  by (induction rule: ledger_step.induct) (auto simp: balanced_def)

lemma ledger_steps_balanced: "ledger_step\<^sup>*\<^sup>* L L' \<Longrightarrow> balanced L \<Longrightarrow> balanced L'"
  by (induction rule: rtranclp_induct) (auto intro: ledger_step_balanced)

definition settled_receipt :: "seller_db \<Rightarrow> receipt_row \<Rightarrow> bool" where
  "settled_receipt db rc =
     (case rc_remittance_id rc of
        None \<Rightarrow> False
      | Some i \<Rightarrow> (case map_of (fee_remittances db) i of None \<Rightarrow> False | Some r \<Rightarrow> fr_state r = ''settled''))"

definition total_fees :: "seller_db \<Rightarrow> int" where
  "total_fees db = (\<Sum>rc\<leftarrow>map snd (receipts db). rc_fee_sats rc)"

definition moving_rows :: "seller_db \<Rightarrow> (string \<times> int \<times> bool) set" where
  "moving_rows db =
     {(i, g, c). \<exists>r. map_of (fee_remittances db) i = Some r \<and> fr_state r = ''planned'' \<and> g = fr_gross_sats r \<and> c = spending r}"

definition ledger_of :: "seller_db \<Rightarrow> fee_ledger" where
  "ledger_of db =
     \<lparr>accrued = total_fees db, owed = pinned_fees None db, moving = moving_rows db,
      discharged = (\<Sum>rc\<leftarrow>filter (settled_receipt db) (map snd (receipts db)). rc_fee_sats rc)\<rparr>"

definition evolves :: "seller_db \<Rightarrow> seller_db \<Rightarrow> bool" where
  "evolves db db' \<longleftrightarrow>
     (\<forall>i r. map_of (fee_remittances db) i = Some r \<longrightarrow>
        (\<exists>r'. map_of (fee_remittances db') i = Some r' \<and> fr_gross_sats r' = fr_gross_sats r \<and>
           (spending r \<longrightarrow> spending r'))) \<and>
     ledger_step\<^sup>*\<^sup>* (ledger_of db) (ledger_of db')"

lemma booksD:
  "books db \<Longrightarrow> map_of (fee_remittances db) i = Some r \<Longrightarrow> row_ok db i r"
  "books db \<Longrightarrow> (k, rc) \<in> set (receipts db) \<Longrightarrow> receipt_ok db rc"
  by (force simp: books_def)+

lemma evolves_refl [simp]: "evolves db db"
  by (simp add: evolves_def)

lemma evolves_trans: "evolves a b \<Longrightarrow> evolves b c \<Longrightarrow> evolves a c"
  unfolding evolves_def by (metis rtranclp_trans)

definition keeps_books :: "(seller_db \<Rightarrow> 'a \<times> seller_db) \<Rightarrow> bool" where
  "keeps_books m \<longleftrightarrow> (\<forall>db. books db \<longrightarrow> books (snd (m db)) \<and> evolves db (snd (m db)))"

text \<open>The books speak of two tables only.\<close>

lemma same_tables:
  assumes "receipts db' = receipts db" and "fee_remittances db' = fee_remittances db"
  shows "books db' = books db" and "evolves db db'"
proof -
  have "settled_receipt db' = settled_receipt db" by (auto simp: settled_receipt_def assms fun_eq_iff split: option.splits)
  then have "ledger_of db' = ledger_of db"
    by (simp add: ledger_of_def total_fees_def pinned_fees_def pinned_def moving_rows_def assms)
  then show "books db' = books db" "evolves db db'"
    using assms by (simp_all add: books_def row_ok_def receipt_ok_def pinned_fees_def pinned_def evolves_def)
qed

lemma sdb_call_tables: "sdb_call db = (r, db') \<Longrightarrow> receipts db' = receipts db \<and> fee_remittances db' = fee_remittances db"
  by (auto simp: sdb_call_def split: list.splits option.splits)

lemma sdb_try_cases:
  assumes "sdb_try f db = (x, db')" and "books db"
  obtains (fault) e where "x = Inl e" "books db'" "evolves db db'" "fee_remittances db' = fee_remittances db"
  | (ran) db1 r where "books db1" "evolves db db1" "fee_remittances db1 = fee_remittances db" "f db1 = Inr (r, db')" "x = Inr r"
proof -
  obtain y db1 where call: "sdb_call db = (y, db1)" by (cases "sdb_call db")
  note tab = sdb_call_tables [OF this]
  have db1: "books db1" "evolves db db1" using assms(2) same_tables [of db1 db] tab by auto
  show thesis
  proof (cases "\<exists>u r db2. y = Inr u \<and> f db1 = Inr (r, db2)")
    case True
    then obtain u r db2 where "y = Inr u" "f db1 = Inr (r, db2)" by blast
    moreover from this have "x = Inr r" "db2 = db'" using assms(1) by (simp_all add: sdb_try_def st_bind_def call)
    ultimately show thesis using ran db1 tab by blast
  next
    case False
    then have "\<exists>e. x = Inl e \<and> db' = db1"
      using assms(1) by (cases y; cases "f db1") (auto simp: sdb_try_def st_bind_def call)
    then show thesis using fault db1 tab by blast
  qed
qed

lemma keeps_try:
  assumes "\<And>db r db'. books db \<Longrightarrow> f db = Inr (r, db') \<Longrightarrow> books db' \<and> evolves db db'"
  shows "keeps_books (sdb_try f)"
  unfolding keeps_books_def
proof (intro allI impI)
  fix db assume b: "books db"
  obtain x db' where run: "sdb_try f db = (x, db')" by (cases "sdb_try f db")
  from run b show "books (snd (sdb_try f db)) \<and> evolves db (snd (sdb_try f db))"
    by (cases rule: sdb_try_cases) (use run assms evolves_trans in auto)
qed

lemma keeps_read:
  assumes "\<And>db r db'. f db = Inr (r, db') \<Longrightarrow> receipts db' = receipts db \<and> fee_remittances db' = fee_remittances db"
  shows "keeps_books (sdb_try f)"
proof (rule keeps_try)
  fix db r db' assume "books db" "f db = Inr (r, db')"
  with assms have "receipts db' = receipts db" "fee_remittances db' = fee_remittances db" by auto
  with same_tables [OF this] \<open>books db\<close> show "books db' \<and> evolves db db'" by simp
qed

lemma keeps_reads:
  "keeps_books in_flight_remittance" "keeps_books accrued_fees" "keeps_books (recent_remit_attempts n)"
  "keeps_books (record_remit_attempt a)" "keeps_books (fail_job job now)"
  unfolding in_flight_remittance_def accrued_fees_def recent_remit_attempts_def record_remit_attempt_def fail_job_def
  by (rule keeps_read; auto simp: try_bind_def split: sum.splits if_splits option.splits)+

section \<open>Each transaction keeps the books\<close>

lemma pinned_cong: "receipts db' = receipts db \<Longrightarrow> pinned_fees i db' = pinned_fees i db"
  by (simp add: pinned_fees_def pinned_def)

text \<open>A transaction that rewrites one row, in a way the books allow.\<close>

definition row_step :: "remittance_row \<Rightarrow> remittance_row \<Rightarrow> bool" where
  "row_step r r' \<longleftrightarrow> fr_gross_sats r' = fr_gross_sats r \<and> (fr_state r = ''planned'') \<and> fr_state r' \<in> {''planned'', ''settled''} \<and>
     (spending r \<longrightarrow> spending r') \<and> (spending r' \<longleftrightarrow> fr_spending_quote_id r' \<noteq> None)"

lemma moving_one:
  assumes "books db" and "map_of (fee_remittances db) i = Some r" and "fr_state r = ''planned''"
  shows "moving_rows db = {(i, fr_gross_sats r, spending r)}"
proof -
  have uniq: "j = i" if "map_of (fee_remittances db) j = Some q" "fr_state q = ''planned''" for j q
    using assms that unfolding books_def by blast
  show ?thesis
  proof (intro equalityI subsetI)
    fix x assume "x \<in> moving_rows db"
    then obtain j q where q: "map_of (fee_remittances db) j = Some q" "fr_state q = ''planned''" "x = (j, fr_gross_sats q, spending q)"
      by (auto simp: moving_rows_def)
    with uniq [OF q(1,2)] assms(2) show "x \<in> {(i, fr_gross_sats r, spending r)}" by simp
  next
    fix x assume "x \<in> {(i, fr_gross_sats r, spending r)}"
    then show "x \<in> moving_rows db" using assms(2,3) by (simp add: moving_rows_def)
  qed
qed

lemma sum_list_filter_disj:
  fixes f :: "'a \<Rightarrow> int"
  assumes "\<And>x. x \<in> set xs \<Longrightarrow> R x \<longleftrightarrow> P x \<or> Q x" and "\<And>x. x \<in> set xs \<Longrightarrow> \<not> (P x \<and> Q x)"
  shows "(\<Sum>x\<leftarrow>filter R xs. f x) = (\<Sum>x\<leftarrow>filter P xs. f x) + (\<Sum>x\<leftarrow>filter Q xs. f x)"
  using assms
proof (induction xs)
  case (Cons x xs)
  have "(\<Sum>x\<leftarrow>filter R xs. f x) = (\<Sum>x\<leftarrow>filter P xs. f x) + (\<Sum>x\<leftarrow>filter Q xs. f x)"
    by (rule Cons.IH) (use Cons.prems in auto)
  then show ?case using Cons.prems(1) [of x] Cons.prems(2) [of x] by auto
qed simp

lemma update_row_ledger:
  assumes b: "books db" and r: "map_of (fee_remittances db) i = Some r" and step: "row_step r r'"
    and db': "db' = db\<lparr>fee_remittances := AList.update i r' (fee_remittances db)\<rparr>"
  shows "ledger_step\<^sup>*\<^sup>* (ledger_of db) (ledger_of db')"
proof -
  have rows: "map_of (fee_remittances db') j = (if j = i then Some r' else map_of (fee_remittances db) j)" for j
    using db' by simp
  have rcs: "receipts db' = receipts db" using db' by simp
  have pl: "fr_state r = ''planned''" and g: "fr_gross_sats r' = fr_gross_sats r" using step by (simp_all add: row_step_def)
  note one = moving_one [OF b r pl]
  have other: "fr_state q \<noteq> ''planned''" if "map_of (fee_remittances db) j = Some q" "j \<noteq> i" for j q
    using b r pl that unfolding books_def by blast
  have gross: "pinned_fees (Some i) db = fr_gross_sats r" using booksD(1) [OF b r] pl by (simp add: row_ok_def)
  have same: "total_fees db' = total_fees db" "pinned_fees None db' = pinned_fees None db"
    by (simp_all add: total_fees_def pinned_fees_def pinned_def rcs)
  consider "fr_state r' = ''planned''" | "fr_state r' = ''settled''" using step by (auto simp: row_step_def)
  then show ?thesis
  proof cases
    case 1
    have "settled_receipt db' = settled_receipt db"
      by (rule ext) (use 1 pl r in \<open>auto simp: settled_receipt_def rows split: option.splits\<close>)
    moreover have "moving_rows db' = {(i, fr_gross_sats r, spending r')}"
      using 1 other g by (auto simp: moving_rows_def rows split: if_splits)
    ultimately have L: "ledger_of db' = (ledger_of db)\<lparr>moving := {(i, fr_gross_sats r, spending r')}\<rparr>"
      using same by (simp add: ledger_of_def rcs)
    show ?thesis
    proof (cases "spending r' = spending r")
      case True
      then have "ledger_of db' = ledger_of db" using L one by (simp add: ledger_of_def)
      then show ?thesis by simp
    next
      case False
      then have "\<not> spending r" "spending r'" using step by (auto simp: row_step_def)
      with L one ledger_step.admits [of "ledger_of db" i "fr_gross_sats r"] show ?thesis
        by (simp add: ledger_of_def r_into_rtranclp)
    qed
  next
    case 2
    have "moving_rows db' = {}" using 2 other by (auto simp: moving_rows_def rows split: if_splits)
    moreover have "(\<Sum>rc\<leftarrow>filter (settled_receipt db') (map snd (receipts db)). rc_fee_sats rc) =
        (\<Sum>rc\<leftarrow>filter (settled_receipt db) (map snd (receipts db)). rc_fee_sats rc) + pinned_fees (Some i) db"
      unfolding pinned_fees_def pinned_def
      by (rule sum_list_filter_disj) (use 2 pl r in \<open>auto simp: settled_receipt_def rows split: option.splits if_splits\<close>)
    ultimately have "ledger_of db' = (ledger_of db)\<lparr>moving := {}, discharged := discharged (ledger_of db) + fr_gross_sats r\<rparr>"
      using same gross by (simp add: ledger_of_def rcs)
    with one ledger_step.settles [of "ledger_of db" i "fr_gross_sats r" "spending r"] show ?thesis
      by (simp add: ledger_of_def r_into_rtranclp)
  qed
qed

lemma update_row_books:
  assumes "books db" and "map_of (fee_remittances db) i = Some r" and "row_step r r'"
    and "db' = db\<lparr>fee_remittances := AList.update i r' (fee_remittances db)\<rparr>"
  shows "books db' \<and> evolves db db'"
proof -
  have rows: "map_of (fee_remittances db') j = (if j = i then Some r' else map_of (fee_remittances db) j)" for j
    using assms(4) by simp
  have rcs: "receipts db' = receipts db" using assms(4) by simp
  note fees = pinned_cong [OF rcs]
  have ok: "row_ok db i r" using booksD(1) assms(1,2) by blast
  have "row_ok db' i r'" using ok assms(3) fees by (auto simp: row_ok_def row_step_def)
  moreover have "row_ok db' j q" if "map_of (fee_remittances db) j = Some q" for j q
    using booksD(1) [OF assms(1) that] fees by (simp add: row_ok_def)
  moreover have "i = j" if "map_of (fee_remittances db) j = Some q" "fr_state q = ''planned''" for j q
    using assms(1,2,3) that by (simp add: books_def row_step_def)
  moreover have "receipt_ok db' rc" if "receipt_ok db rc" for rc
    using that assms(3) rows by (auto simp: receipt_ok_def row_step_def)
  moreover have "evolves db db'" using assms(2,3) rows update_row_ledger [OF assms] by (auto simp: evolves_def row_step_def)
  ultimately show ?thesis
    using assms(1) unfolding books_def rcs rows by (auto split: if_splits)
qed

lemma settle_tx_cases:
  assumes "settle_tx i st now db = Inr (x, db')"
  obtains r where "map_of (fee_remittances db) i = Some r" "fr_state r = ''planned''"
    "db' = db\<lparr>fee_remittances := AList.update i (settled_row r st now) (fee_remittances db)\<rparr>"
  using assms by (auto simp: settle_tx_def Let_def elim!: try_bind_InrE split: option.splits if_splits)

lemma replan_tx_cases:
  assumes "replan_tx i who rp db = Inr (x, db')"
  obtains (refused) "db' = db"
  | (replanned) r where "map_of (fee_remittances db) i = Some r" "fr_state r = ''planned''"
      "db' = db\<lparr>fee_remittances := AList.update i (replanned_row r rp) (fee_remittances db)\<rparr>"
  using assms by (auto simp: replan_tx_def Let_def elim!: try_bind_InrE split: option.splits if_splits)

lemma release_tx_cases:
  assumes "release_tx i on now db = Inr (x, db')"
  obtains (refused) "db' = db"
  | (released) r r' where "map_of (fee_remittances db) i = Some r" "fr_state r = ''planned''" "release_predicate on r"
      "r' = r\<lparr>fr_state := ''failed'', fr_settled_at_unix := Some now\<rparr>"
      "fee_remittances db' = AList.update i r' (fee_remittances db)" "receipts db' = unpin i (receipts db)"
  using assms by (auto simp: release_tx_def Let_def elim!: try_bind_InrE split: option.splits if_splits)

lemma plan_tx_cases:
  assumes "plan_tx plan who lease now db = Inr (row, db')"
  obtains "unremitted_fee_sats_in db = Inr (pl_gross_sats plan)" "pl_gross_sats plan \<noteq> 0"
    "map_of (fee_remittances db) (pl_payment_hash plan) = None"
    "\<not> list_ex (\<lambda>(_, q). fr_payment_hash q = pl_payment_hash plan \<or> fr_state q = ''planned'') (fee_remittances db)"
    "read_back (pl_payment_hash plan) db' = Inr row"
    "fee_remittances db' = fee_remittances db @ [(pl_payment_hash plan, planned_row plan who lease now)]"
    "receipts db' = pin (pl_payment_hash plan) (receipts db)"
  using assms by (auto simp: plan_tx_def Let_def elim!: try_bind_InrE split: option.splits if_splits)

lemma keeps_settle: "keeps_books (settle_remittance i st now)"
  unfolding settle_remittance_def
proof (rule keeps_try)
  fix db x db' assume b: "books db" and run: "settle_tx i st now db = Inr (x, db')"
  from run obtain r where r: "map_of (fee_remittances db) i = Some r" "fr_state r = ''planned''"
    and db': "db' = db\<lparr>fee_remittances := AList.update i (settled_row r st now) (fee_remittances db)\<rparr>"
    by (rule settle_tx_cases)
  have "row_step r (settled_row r st now)"
    using r booksD(1) [OF b r(1)] by (simp add: row_step_def settled_row_def row_ok_def spending_def)
  from update_row_books [OF b r(1) this db'] show "books db' \<and> evolves db db'" .
qed

lemma keeps_replan: "keeps_books (replan_remittance i who rp)"
proof -
  have "keeps_books (sdb_try (replan_tx i who rp))"
  proof (rule keeps_try)
    fix db x db' assume b: "books db" and run: "replan_tx i who rp db = Inr (x, db')"
    from run show "books db' \<and> evolves db db'"
    proof (cases rule: replan_tx_cases)
      case (replanned r)
      have "row_step r (replanned_row r rp)"
        using replanned(2) booksD(1) [OF b replanned(1)] by (simp add: row_step_def replanned_row_def row_ok_def spending_def)
      from update_row_books [OF b replanned(1) this replanned(3)] show ?thesis .
    qed (use b in simp)
  qed
  then show ?thesis by (simp add: replan_remittance_def keeps_books_def)
qed

subsection \<open>Pinning and unpinning receipts\<close>

lemma unpin_other: "j \<noteq> i \<Longrightarrow> filter (\<lambda>r. rc_remittance_id r = Some j) (map snd (unpin i rs)) =
    filter (\<lambda>r. rc_remittance_id r = Some j) (map snd rs)"
  by (induction rs) (auto simp: unpin_def split: if_splits)

lemma set_unpin: "rc \<in> set (map snd (unpin i rs)) \<Longrightarrow>
    \<exists>rc0 \<in> set (map snd rs). rc_fee_sats rc = rc_fee_sats rc0 \<and> rc_remittance_id rc \<noteq> Some i \<and>
      (\<forall>j. rc_remittance_id rc = Some j \<longrightarrow> rc_remittance_id rc0 = Some j)"
  by (force simp: unpin_def split: if_splits)

lemma pin_other: "j \<noteq> i \<Longrightarrow> filter (\<lambda>r. rc_remittance_id r = Some j) (map snd (pin i rs)) =
    filter (\<lambda>r. rc_remittance_id r = Some j) (map snd rs)"
  by (induction rs) (auto simp: pin_def split: if_splits)

lemma pin_same: "(\<And>rc. rc \<in> set (map snd rs) \<Longrightarrow> rc_remittance_id rc \<noteq> Some i) \<Longrightarrow>
    map rc_fee_sats (filter (\<lambda>r. rc_remittance_id r = Some i) (map snd (pin i rs))) =
    map rc_fee_sats (filter (\<lambda>r. rc_remittance_id r = None) (map snd rs))"
proof (induction rs)
  case (Cons x rs)
  then have "rc_remittance_id (snd x) \<noteq> Some i" by simp
  moreover have "map rc_fee_sats (filter (\<lambda>r. rc_remittance_id r = Some i) (map snd (pin i rs))) =
    map rc_fee_sats (filter (\<lambda>r. rc_remittance_id r = None) (map snd rs))"
    by (rule Cons.IH) (use Cons.prems in auto)
  ultimately show ?case by (cases x) (auto simp: pin_def)
qed (simp add: pin_def)

lemma set_pin: "rc \<in> set (map snd (pin i rs)) \<Longrightarrow>
    \<exists>rc0 \<in> set (map snd rs). rc_fee_sats rc = rc_fee_sats rc0 \<and>
      (rc_remittance_id rc = rc_remittance_id rc0 \<or> rc_remittance_id rc = Some i)"
  by (force simp: pin_def split: if_splits)

lemma pinned_fees_receipts: "receipts db' = f (receipts db) \<Longrightarrow>
    filter (\<lambda>r. rc_remittance_id r = k) (map snd (f (receipts db))) = filter (\<lambda>r. rc_remittance_id r = k) (map snd (receipts db)) \<Longrightarrow>
    pinned_fees k db' = pinned_fees k db"
  by (simp add: pinned_fees_def pinned_def)

text \<open>What the two updates of the receipts mean for the ledger.\<close>

lemma mapped_receipts:
  assumes "\<And>rc. rc_fee_sats (f rc) = rc_fee_sats rc" and "\<And>rc. P (f rc) = Q rc"
  shows "(\<Sum>rc\<leftarrow>filter P (map f rs). rc_fee_sats rc) = (\<Sum>rc\<leftarrow>filter Q rs. rc_fee_sats rc)"
  using assms by (simp add: filter_map o_def)

lemma map_snd_unpin: "map snd (unpin i rs) =
    map (\<lambda>rc. if rc_remittance_id rc = Some i then rc\<lparr>rc_remittance_id := None\<rparr> else rc) (map snd rs)"
  by (auto simp: unpin_def)

lemma map_snd_pin: "map snd (pin i rs) =
    map (\<lambda>rc. if rc_remittance_id rc = None then rc\<lparr>rc_remittance_id := Some i\<rparr> else rc) (map snd rs)"
  by (auto simp: pin_def)

lemma release_ledger:
  assumes b: "books db" and r: "map_of (fee_remittances db) i = Some r" "fr_state r = ''planned''" "\<not> spending r"
    and r': "fr_state r' = ''failed''"
    and db': "fee_remittances db' = AList.update i r' (fee_remittances db)" "receipts db' = unpin i (receipts db)"
  shows "ledger_step\<^sup>*\<^sup>* (ledger_of db) (ledger_of db')"
proof -
  let ?f = "\<lambda>rc. if rc_remittance_id rc = Some i then rc\<lparr>rc_remittance_id := None\<rparr> else rc"
  note one = moving_one [OF b r(1,2)]
  have rows: "map_of (fee_remittances db') j = (if j = i then Some r' else map_of (fee_remittances db) j)" for j
    using db' by simp
  have fee: "rc_fee_sats (?f rc) = rc_fee_sats rc" for rc by simp
  have "total_fees db' = total_fees db"
    using mapped_receipts [of ?f "\<lambda>_. True" "\<lambda>_. True", OF fee] by (simp add: total_fees_def db' map_snd_unpin del: map_map)
  moreover have "pinned_fees None db' = pinned_fees None db + pinned_fees (Some i) db"
  proof -
    have "pinned_fees None db' = (\<Sum>rc\<leftarrow>filter (\<lambda>rc. rc_remittance_id rc = None \<or> rc_remittance_id rc = Some i) (map snd (receipts db)). rc_fee_sats rc)"
      unfolding pinned_fees_def pinned_def db' map_snd_unpin by (rule mapped_receipts [OF fee]) auto
    also have "\<dots> = pinned_fees None db + pinned_fees (Some i) db"
      unfolding pinned_fees_def pinned_def by (rule sum_list_filter_disj) auto
    finally show ?thesis .
  qed
  moreover have "pinned_fees (Some i) db = fr_gross_sats r" using booksD(1) [OF b r(1)] r(2) by (simp add: row_ok_def)
  moreover have "moving_rows db' = {}"
  proof -
    have "fr_state q \<noteq> ''planned''" if "map_of (fee_remittances db) j = Some q" "j \<noteq> i" for j q
      using b r that unfolding books_def by blast
    then show ?thesis using r' by (auto simp: moving_rows_def rows split: if_splits)
  qed
  moreover have "(\<Sum>rc\<leftarrow>filter (settled_receipt db') (map snd (receipts db')). rc_fee_sats rc) =
      (\<Sum>rc\<leftarrow>filter (settled_receipt db) (map snd (receipts db)). rc_fee_sats rc)"
    unfolding db' map_snd_unpin
    by (rule mapped_receipts [OF fee]) (use r r' in \<open>auto simp: settled_receipt_def rows split: option.splits\<close>)
  ultimately have "ledger_of db' = (ledger_of db)\<lparr>owed := owed (ledger_of db) + fr_gross_sats r, moving := {}\<rparr>"
    by (simp add: ledger_of_def)
  with ledger_step.releases [of "ledger_of db" i "fr_gross_sats r"] one r(3) show ?thesis
    by (simp add: ledger_of_def r_into_rtranclp)
qed

lemma plan_ledger:
  assumes new: "map_of (fee_remittances db) i = None"
    and none: "\<And>j q. map_of (fee_remittances db) j = Some q \<Longrightarrow> fr_state q \<noteq> ''planned''"
    and r: "fr_state r = ''planned''" "\<not> spending r" "fr_gross_sats r = pinned_fees None db" "0 < pinned_fees None db"
    and db': "fee_remittances db' = fee_remittances db @ [(i, r)]" "receipts db' = pin i (receipts db)"
  shows "ledger_step\<^sup>*\<^sup>* (ledger_of db) (ledger_of db')"
proof -
  let ?f = "\<lambda>rc. if rc_remittance_id rc = None then rc\<lparr>rc_remittance_id := Some i\<rparr> else rc"
  have rows: "map_of (fee_remittances db') j = (if j = i then Some r else map_of (fee_remittances db) j)" for j
    using new by (auto simp: db' map_add_def split: option.splits)
  have fee: "rc_fee_sats (?f rc) = rc_fee_sats rc" for rc by simp
  have "total_fees db' = total_fees db"
    using mapped_receipts [of ?f "\<lambda>_. True" "\<lambda>_. True", OF fee] by (simp add: total_fees_def db' map_snd_pin del: map_map)
  moreover have "pinned_fees None db' = 0"
  proof -
    have "pinned_fees None db' = (\<Sum>rc\<leftarrow>filter (\<lambda>_. False) (map snd (receipts db)). rc_fee_sats rc)"
      unfolding pinned_fees_def pinned_def db' map_snd_pin by (rule mapped_receipts [OF fee]) auto
    then show ?thesis by simp
  qed
  moreover have "moving_rows db' = {(i, pinned_fees None db, False)}"
    using none r by (auto simp: moving_rows_def rows split: if_splits)
  moreover have "(\<Sum>rc\<leftarrow>filter (settled_receipt db') (map snd (receipts db')). rc_fee_sats rc) =
      (\<Sum>rc\<leftarrow>filter (settled_receipt db) (map snd (receipts db)). rc_fee_sats rc)"
    unfolding db' map_snd_pin
    by (rule mapped_receipts [OF fee]) (use r new in \<open>auto simp: settled_receipt_def rows split: option.splits\<close>)
  moreover have "moving_rows db = {}" using none by (auto simp: moving_rows_def)
  ultimately show ?thesis
    using ledger_step.plans [of "ledger_of db" i] r(4) by (simp add: ledger_of_def r_into_rtranclp)
qed

lemma collect_ledger:
  assumes "receipts db' = receipts db @ [(k, rc)]" and "fee_remittances db' = fee_remittances db"
    and "0 \<le> rc_fee_sats rc" and "rc_remittance_id rc = None"
  shows "ledger_step\<^sup>*\<^sup>* (ledger_of db) (ledger_of db')"
proof -
  have "settled_receipt db' = settled_receipt db" by (auto simp: settled_receipt_def assms fun_eq_iff split: option.splits)
  moreover have "\<not> settled_receipt db rc" by (simp add: settled_receipt_def assms)
  ultimately have "ledger_of db' = (ledger_of db)\<lparr>accrued := accrued (ledger_of db) + rc_fee_sats rc,
      owed := owed (ledger_of db) + rc_fee_sats rc\<rparr>"
    using assms by (simp add: ledger_of_def total_fees_def pinned_fees_def pinned_def moving_rows_def)
  with ledger_step.accrues [OF assms(3), of "ledger_of db"] show ?thesis by (simp add: r_into_rtranclp)
qed

fun bound_release :: "ReleaseOn \<Rightarrow> bool" where
  "bound_release (TerminalBoundQuote _) = True"
| "bound_release _ = False"

lemma release_not_spending:
  "row_ok db i r \<Longrightarrow> release_predicate on r \<Longrightarrow> \<not> bound_release on \<Longrightarrow> \<not> spending r"
  by (cases on) (auto simp: row_ok_def spending_def)

lemma keeps_release:
  assumes "\<not> bound_release on"
  shows "keeps_books (release_remittance i on now)"
  unfolding release_remittance_def
proof (rule keeps_try)
  fix db x db' assume b: "books db" and run: "release_tx i on now db = Inr (x, db')"
  from run show "books db' \<and> evolves db db'"
  proof (cases rule: release_tx_cases)
    case (released r r')
    note 2 = released(1,3-6)
    have rows: "map_of (fee_remittances db') j = (if j = i then Some r' else map_of (fee_remittances db) j)" for j
      using 2(4) by simp
    have "row_ok db i r" using booksD(1) [OF b 2(1)] .
    then have free: "\<not> spending r" using release_not_spending [OF _ 2(2) assms] by blast
    have "row_ok db' i r'"
      using \<open>row_ok db i r\<close> free 2(3) by (simp add: row_ok_def spending_def)
    moreover have "row_ok db' j q" if "map_of (fee_remittances db) j = Some q" "j \<noteq> i" for j q
      using booksD(1) [OF b that(1)] pinned_fees_receipts [where f = "unpin i", OF 2(5) unpin_other [OF that(2)]] by (simp add: row_ok_def)
    moreover have "receipt_ok db' rc" if rc: "rc \<in> set (map snd (receipts db'))" for rc
    proof -
      obtain rc0 where rc0: "rc0 \<in> set (map snd (receipts db))" "rc_fee_sats rc = rc_fee_sats rc0"
          "rc_remittance_id rc \<noteq> Some i" "\<And>j. rc_remittance_id rc = Some j \<Longrightarrow> rc_remittance_id rc0 = Some j"
        using set_unpin [OF rc [unfolded 2(5)]] by blast
      then have "receipt_ok db rc0" using b by (auto simp: books_def)
      with rc0 show ?thesis by (auto simp: receipt_ok_def rows)
    qed
    moreover have "fr_state r' \<noteq> ''planned''" using 2(3) by simp
    moreover have "evolves db db'"
      using 2(1,3) rows free release_ledger [OF b 2(1) released(2) free _ 2(4,5)] by (auto simp: evolves_def)
    ultimately show ?thesis
      using b unfolding books_def rows by (simp split: if_splits)
  qed (use b in simp)
qed

lemma read_back_fields:
  "read_back i db = Inr row \<Longrightarrow> remittance_id row = i"
  by (auto simp: read_back_def read_remittance_def elim!: try_bind_InrE split: option.splits)

lemma plan_tx_ok:
  assumes b: "books db" and run: "plan_tx plan who lease now db = Inr (row, db')"
  shows "books db' \<and> evolves db db'"
    and "\<exists>r. map_of (fee_remittances db') (remittance_id row) = Some r \<and>
      fr_gross_sats r = uint (pl_gross_sats plan) \<and> uint (pl_gross_sats plan) < 2 ^ 63"
proof -
  let ?i = "pl_payment_hash plan" and ?r = "planned_row plan who lease now"
  from run obtain sum: "unremitted_fee_sats_in db = Inr (pl_gross_sats plan)" and some: "pl_gross_sats plan \<noteq> 0"
    and new: "map_of (fee_remittances db) ?i = None"
    and none: "\<not> list_ex (\<lambda>(_, q). fr_payment_hash q = ?i \<or> fr_state q = ''planned'') (fee_remittances db)"
    and row: "read_back ?i db' = Inr row"
    and db': "fee_remittances db' = fee_remittances db @ [(?i, ?r)]" "receipts db' = pin ?i (receipts db)"
    by (rule plan_tx_cases)
  have rows: "map_of (fee_remittances db') j = (if j = ?i then Some ?r else map_of (fee_remittances db) j)" for j
    using new by (auto simp: db' map_add_def split: option.splits)
  have fee: "receipt_ok db rc" if "rc \<in> set (map snd (receipts db))" for rc using b that by (auto simp: books_def)
  have nonneg: "0 \<le> pinned_fees None db"
    unfolding pinned_fees_def pinned_def by (rule sum_list_nonneg) (use fee in \<open>auto simp: receipt_ok_def\<close>)
  from sum have small: "pinned_fees None db < 2 ^ 63" and g: "pl_gross_sats plan = clamp_u64 (pinned_fees None db)"
    by (auto simp: unremitted_fee_sats_in_def sql_sum_def pinned_fees_def elim!: try_bind_InrE split: if_splits)
  then have gross: "uint (pl_gross_sats plan) = pinned_fees None db" using nonneg by (simp add: clamp_exact)
  then have i64: "fr_gross_sats ?r = pinned_fees None db" using small by (simp add: planned_row_def as_i64_def)
  have "rc_remittance_id rc \<noteq> Some ?i" if "rc \<in> set (map snd (receipts db))" for rc
    using fee [OF that] new by (auto simp: receipt_ok_def)
  from pin_same [OF this] have "pinned_fees (Some ?i) db' = pinned_fees None db"
    by (simp add: pinned_fees_def pinned_def db')
  then have "row_ok db' ?i ?r" using i64 nonneg small by (simp add: row_ok_def planned_row_def spending_def)
  moreover have "row_ok db' j q" if "map_of (fee_remittances db) j = Some q" "j \<noteq> ?i" for j q
    using booksD(1) [OF b that(1)] pinned_fees_receipts [where f = "pin ?i", OF db'(2) pin_other [OF that(2)]]
    by (simp add: row_ok_def)
  moreover have "receipt_ok db' rc" if rc: "rc \<in> set (map snd (receipts db'))" for rc
  proof -
    from set_pin [OF rc [unfolded db'(2)]] obtain rc0 where "rc0 \<in> set (map snd (receipts db))"
      "rc_fee_sats rc = rc_fee_sats rc0" "rc_remittance_id rc = rc_remittance_id rc0 \<or> rc_remittance_id rc = Some ?i" by blast
    with fee [of rc0] show ?thesis by (auto simp: receipt_ok_def rows planned_row_def)
  qed
  moreover have idle: "fr_state q \<noteq> ''planned''" if "map_of (fee_remittances db) j = Some q" for j q
    using none map_of_SomeD [OF that] by (auto simp: list_ex_iff)
  moreover have "evolves db db'"
  proof -
    have "0 < pinned_fees None db" using gross nonneg some by (metis less_le uint_0_iff)
    with plan_ledger [OF new idle _ _ i64 _ db'] have "ledger_step\<^sup>*\<^sup>* (ledger_of db) (ledger_of db')"
      by (simp add: planned_row_def spending_def)
    then show ?thesis using new by (auto simp: evolves_def rows)
  qed
  ultimately show "books db' \<and> evolves db db'"
    unfolding books_def rows by (simp split: if_splits)
  show "\<exists>r. map_of (fee_remittances db') (remittance_id row) = Some r \<and>
      fr_gross_sats r = uint (pl_gross_sats plan) \<and> uint (pl_gross_sats plan) < 2 ^ 63"
    using read_back_fields [OF row] rows i64 gross small by simp
qed

lemma plan_remittance_cases:
  assumes "books db" and "plan_remittance plan who lease now db = (x, db')"
  shows "books db' \<and> evolves db db'"
    and "x = Inr row \<Longrightarrow> \<exists>r. map_of (fee_remittances db') (remittance_id row) = Some r \<and>
      fr_gross_sats r = uint (pl_gross_sats plan) \<and> uint (pl_gross_sats plan) < 2 ^ 63"
proof -
  obtain y db1 where call: "sdb_call db = (y, db1)" by (cases "sdb_call db")
  from sdb_call_tables [OF this] have db1: "books db1" "evolves db db1" using assms(1) same_tables [of db1 db] by auto
  consider "db' = db" "\<exists>e. x = Inl e" | "db' = db1" "\<exists>e. x = Inl e"
    | r where "plan_tx plan who lease now db1 = Inr (r, db')" "x = Inr r"
    using assms(2) by (auto simp: plan_remittance_def st_bind_def st_map_err_def call split: if_splits sum.splits prod.splits)
  then have "(books db' \<and> evolves db db') \<and> (x = Inr row \<longrightarrow>
     (\<exists>r. map_of (fee_remittances db') (remittance_id row) = Some r \<and>
      fr_gross_sats r = uint (pl_gross_sats plan) \<and> uint (pl_gross_sats plan) < 2 ^ 63))"
  proof cases
    case (3 r)
    then show ?thesis using plan_tx_ok [OF db1(1) 3(1)] evolves_trans [OF db1(2)] by auto
  qed (use assms(1) db1 in auto)
  then show "books db' \<and> evolves db db'"
    "x = Inr row \<Longrightarrow> \<exists>r. map_of (fee_remittances db') (remittance_id row) = Some r \<and>
      fr_gross_sats r = uint (pl_gross_sats plan) \<and> uint (pl_gross_sats plan) < 2 ^ 63" by auto
qed

lemma admit_tx_cases:
  assumes "admit_tx i who quote margin now db = Inr (y, db')"
  obtains (lost) l where "y = Inl l" "db' = db"
  | (admitted) r row where "y = Inr row" "map_of (fee_remittances db) i = Some r" "admissible r who now margin"
      "db' = db\<lparr>fee_remittances := AList.update i
        (r\<lparr>fr_spending_since_unix := Some now, fr_spending_quote_id := Some quote\<rparr>) (fee_remittances db)\<rparr>"
  using assms by (auto simp: admit_tx_def Let_def elim!: try_bind_InrE split: option.splits if_splits)

lemma admit_cases:
  assumes b: "books db" and run: "admit_remittance_spend i who quote margin now db = (x, db')"
  shows "books db' \<and> evolves db db' \<and>
    (case x of
       Inr (Inr _) \<Rightarrow> \<exists>r r'. map_of (fee_remittances db) i = Some r \<and> \<not> spending r \<and>
         map_of (fee_remittances db') i = Some r' \<and> spending r'
     | _ \<Rightarrow> True)"
proof (cases "is_blank quote")
  case False
  then have "sdb_try (admit_tx i who quote margin now) db = (x, db')" using run by (simp add: admit_remittance_spend_def)
  then show ?thesis
    using b
  proof (cases rule: sdb_try_cases)
    case (ran db1 y)
    from ran(4) show ?thesis
    proof (cases rule: admit_tx_cases)
      case (admitted r row)
      let ?r' = "r\<lparr>fr_spending_since_unix := Some now, fr_spending_quote_id := Some quote\<rparr>"
      have "row_step r ?r'" using admitted(3) by (simp add: row_step_def admissible_def spending_def)
      from update_row_books [OF ran(1) admitted(2) this admitted(4)] evolves_trans [OF ran(2)] admitted ran(3,5)
      show ?thesis by (auto simp: admissible_def spending_def)
    qed (use ran in auto)
  qed auto
qed (use b run in \<open>auto simp: admit_remittance_spend_def\<close>)

lemma keeps_collect: "keeps_books (collect_receipt receipt job amount fees now)"
  unfolding collect_receipt_def
proof (rule keeps_try)
  fix db x db'
  assume b: "books db" and "Inr (if map_of (receipts db) receipt \<noteq> None \<or> as_i64 amount < 0 \<or> as_i64 (fee_sats fees) < 0 \<or>
           as_i64 (mint_fee_sats fees) < 0 \<or> uint (fee_bps fees) > 10000
        then (Duplicate, db)
        else (New, db\<lparr>receipts := receipts db @ [(receipt,
               \<lparr>rc_job_id = job, rc_amount_sats = as_i64 amount, rc_received_at_unix = now,
                rc_fee_bps = uint (fee_bps fees), rc_fee_sats = as_i64 (fee_sats fees),
                rc_mint_fee_sats = Some (as_i64 (mint_fee_sats fees)), rc_remittance_id = None\<rparr>)],
             jobs := update_row job (\<lambda>r. r\<lparr>jb_state := ''paid'', jb_updated_at_unix := now\<rparr>) (jobs db)\<rparr>)) = (Inr (x, db') :: string + Collected \<times> seller_db)"
  then consider "db' = db" | rc where "receipts db' = receipts db @ [(receipt, rc)]" "fee_remittances db' = fee_remittances db"
      "0 \<le> rc_fee_sats rc" "rc_remittance_id rc = None"
    by (auto split: if_splits)
  then show "books db' \<and> evolves db db'"
  proof cases
    case (2 rc)
    have "pinned_fees (Some i) db' = pinned_fees (Some i) db" for i
      using 2 by (simp add: pinned_fees_def pinned_def)
    then show ?thesis using b 2 collect_ledger [OF 2] by (auto simp: books_def row_ok_def receipt_ok_def evolves_def)
  qed (use b in simp)
qed

end
