(* ===== verification/Remit_Safety.thy ===== *)
theory Remit_Safety
  imports Fee_Remit Remit_Books
begin

text \<open>
  What the remit path guarantees when any number of attempts, of any number of processes,
  interleave with each other and with the collection of receipts: the proof that the books stay
  right over every action, as an instance of the token rule, and the properties that follow.
\<close>

section \<open>Tokens of an attempt\<close>

text \<open>What the melt may take out of the wallet, as an integer.\<close>

definition melt_cost :: "MeltPreparation \<Rightarrow> int" where
  "melt_cost p = uint (mp_invoice_sats p) + uint (mp_fee_reserve_sats p) +
     uint (snd (layout_figures (saturating_add (mp_invoice_sats p) (mp_fee_reserve_sats p))
       (Some (mp_input_fee_sats p)) (mp_input_fee_ppk p) (mp_requires_swap p))) +
     uint (mp_swap_fee_sats p)"

definition accounted :: "'w remit_state \<Rightarrow> bool" where
  "accounted s = (case s of (db, w, l) \<Rightarrow> books db \<and> distinct (map fst l) \<and>
     (\<forall>(i, p) \<in> set l. \<exists>r. map_of (fee_remittances db) i = Some r \<and> spending r \<and> melt_cost p \<le> fr_gross_sats r))"

datatype token = Idle | Planner string u64 | Payer string u64

fun know :: "token \<Rightarrow> 'w remit_state \<Rightarrow> bool" where
  "know Idle s = True"
| "know (Planner i g) (db, w, l) \<longleftrightarrow>
     (\<exists>r. map_of (fee_remittances db) i = Some r \<and> fr_gross_sats r = uint g \<and> uint g < 2 ^ 63)"
| "know (Payer i g) (db, w, l) \<longleftrightarrow>
     (\<exists>r. map_of (fee_remittances db) i = Some r \<and> fr_gross_sats r = uint g \<and> uint g < 2 ^ 63 \<and> spending r) \<and>
     i \<notin> fst ` set l"

fun apart :: "token \<Rightarrow> token \<Rightarrow> bool" where
  "apart (Payer i _) (Payer j _) \<longleftrightarrow> i \<noteq> j"
| "apart _ _ \<longleftrightarrow> True"

text \<open>What may happen around the attempts: receipts are collected, jobs fail, SQLite starts or
  stops failing, and the world moves on.\<close>

inductive remit_env :: "'w remit_state \<Rightarrow> 'w remit_state \<Rightarrow> bool" where
  collected: "remit_env (db, w, l) (snd (collect_receipt receipt job amount fees now db), w, l)"
| failed: "remit_env (db, w, l) (snd (fail_job job now db), w, l)"
| faults: "remit_env (db, w, l) (db\<lparr>sdb_faults := fs\<rparr>, w, l)"
| world_moves: "remit_env (db, w, l) (db, w', l)"

lemma evolves_accounted:
  fixes w w' :: 'w
  assumes "accounted (db, w, l)" and "books db'" and "evolves db db'"
  shows "accounted (db', w', l)"
  using assms unfolding accounted_def evolves_def by fastforce

lemma evolves_know: "know t (db, w, l) \<Longrightarrow> evolves db db' \<Longrightarrow> know t (db', w', l)" for w w' :: 'w
  by (cases t) (fastforce simp: evolves_def)+

lemma remit_env_steps:
  assumes "remit_env s s'" and "accounted s"
  obtains db db' w w' l where "s = (db, w, l)" "s' = (db', w', l)" "books db'" "evolves db db'"
  using assms
proof cases
  case (collected db w l receipt job amount fees now)
  then show ?thesis using that assms(2) keeps_collect [of receipt job amount fees now]
    by (auto simp: keeps_books_def accounted_def)
next
  case (failed db w l job now)
  then show ?thesis using that assms(2) keeps_reads(5) [of job now] by (auto simp: keeps_books_def accounted_def)
next
  case (faults db w l fs)
  then show ?thesis using that assms(2) same_tables [of "db\<lparr>sdb_faults := fs\<rparr>" db] by (auto simp: accounted_def)
next
  case (world_moves db w l w')
  then show ?thesis using that assms(2) by (auto simp: accounted_def)
qed

definition grows :: "'w remit_state \<Rightarrow> 'w remit_state \<Rightarrow> bool" where
  "grows s s' \<longleftrightarrow> evolves (fst s) (fst s')"

lemma grows_simp [simp]: "grows (db, x) (db', y) \<longleftrightarrow> evolves db db'"
  by (simp add: grows_def)

interpretation tok: token_protocol accounted know apart Idle remit_env grows
proof
  show "apart t u \<Longrightarrow> apart u t" for t u by (cases t; cases u) auto
  show "apart Idle t" for t by (cases t) auto
  show "know Idle s" for s :: "'w remit_state" by simp
  show "accounted s'" if "accounted s" "remit_env s s'" for s s' :: "'w remit_state"
    using that by (rule_tac remit_env_steps [OF that(2,1)]) (auto intro: evolves_accounted)
  show "know t s'" if "accounted s" "remit_env s s'" "know t s" for t and s s' :: "'w remit_state"
    using that by (rule_tac remit_env_steps [OF that(2,1)]) (auto intro: evolves_know)
  show "grows s s'" if "accounted s" "remit_env s s'" for s s' :: "'w remit_state"
    using that by (rule_tac remit_env_steps [OF that(2,1)]) auto
  show "grows s s" for s :: "'w remit_state" by (simp add: grows_def)
qed

lemma follows_store:
  assumes "keeps_books m"
  shows "tok.follows (store m) t (\<lambda>_ u. u = t)"
  unfolding store_def
proof (rule tok.follows_atomic)
  fix s :: "'w remit_state" assume acc: "accounted s" and k: "know t s"
  obtain db w l where s: "s = (db, w, l)" by (cases s)
  obtain r db' where run: "m db = (r, db')" by (cases "m db")
  have "books db'" "evolves db db'" using assms acc run by (auto simp: keeps_books_def accounted_def s)
  then show "\<exists>t'. tok.move t t' s (snd ((\<lambda>(db, w, l). case m db of (r, db') \<Rightarrow> (r, db', w, l)) s)) \<and> t' = t"
    using acc k evolves_accounted evolves_know by (auto simp: tok.move_def s run)
qed

lemma follows_world: "tok.follows (world m) t (\<lambda>_ u. u = t)" for m :: "'w \<Rightarrow> 'a \<times> 'w"
  unfolding world_def
proof (rule tok.follows_atomic)
  fix s :: "'w remit_state" assume acc: "accounted s" and k: "know t s"
  obtain db w l where s: "s = (db, w, l)" by (cases s)
  obtain r w' where run: "m w = (r, w')" by (cases "m w")
  have "accounted (db, w', l)" using acc evolves_accounted [of db w l db w'] by (auto simp: s accounted_def)
  then show "\<exists>t'. tok.move t t' s (snd ((\<lambda>(db, w, l). case m w of (r, w') \<Rightarrow> (r, db, w', l)) s)) \<and> t' = t"
    using k evolves_know [of _ db w l db w'] by (auto simp: tok.move_def s run)
qed

lemma follows_plan:
  "tok.follows (store (plan_remittance plan who lease now)) Idle
     (\<lambda>r u. case r of Inl _ \<Rightarrow> u = Idle | Inr row \<Rightarrow>
       u = Planner (remittance_id row) (pl_gross_sats plan) \<and> uint (pl_gross_sats plan) < 2 ^ 63)"
  unfolding store_def
proof (rule tok.follows_atomic)
  fix s :: "'w remit_state" assume acc: "accounted s"
  obtain db w l where s: "s = (db, w, l)" by (cases s)
  obtain x db' where run: "plan_remittance plan who lease now db = (x, db')"
    by (cases "plan_remittance plan who lease now db")
  have b: "books db" using acc by (simp add: accounted_def s)
  note step = plan_remittance_cases [OF b run]
  define t' where "t' = (case x of Inl _ \<Rightarrow> Idle | Inr row \<Rightarrow> Planner (remittance_id row) (pl_gross_sats plan))"
  have "accounted (db', w, l)"
    using evolves_accounted [OF acc [unfolded s]] step(1) by simp
  moreover have "know t' (db', w, l)"
  proof (cases x)
    case (Inr row)
    then show ?thesis using step(2) [OF Inr] by (simp add: t'_def)
  qed (simp add: t'_def)
  moreover have "apart t' u" for u by (cases x; cases u) (auto simp: t'_def)
  ultimately have "tok.move Idle t' s (db', w, l)"
    using step(1) evolves_know by (auto simp: tok.move_def s)
  then show "\<exists>t'. tok.move Idle t' s (snd ((\<lambda>(db, w, l). case plan_remittance plan who lease now db of
      (r, db') \<Rightarrow> (r, db', w, l)) s)) \<and>
      (case fst ((\<lambda>(db, w, l). case plan_remittance plan who lease now db of (r, db') \<Rightarrow> (r, db', w, l)) s) of
        Inl _ \<Rightarrow> t' = Idle | Inr row \<Rightarrow>
          t' = Planner (remittance_id row) (pl_gross_sats plan) \<and> uint (pl_gross_sats plan) < 2 ^ 63)"
    using step(2) by (intro exI [of _ t']) (auto simp: s run t'_def split: sum.splits)
qed

lemma follows_fence:
  "tok.follows (fence E i quote) (Planner i g)
     (\<lambda>r u. case r of Inr (Inr _) \<Rightarrow> u = Payer i g | _ \<Rightarrow> u = Planner i g)"
  for E :: "'w RemitEffects"
  unfolding fence_def
proof (rule tok.follows_atomic)
  let ?adm = "\<lambda>(db, w, l). case admit_remittance_spend i (eff_owner E) quote SPEND_MARGIN (now_unix E w) db of
    (r, db') \<Rightarrow> (r, db', w, l)"
  fix s :: "'w remit_state" assume acc: "accounted s" and k: "know (Planner i g) s"
  obtain db w l where s: "s = (db, w, l)" by (cases s)
  obtain x db' where run: "admit_remittance_spend i (eff_owner E) quote SPEND_MARGIN (now_unix E w) db = (x, db')"
    by (cases "admit_remittance_spend i (eff_owner E) quote SPEND_MARGIN (now_unix E w) db")
  have b: "books db" using acc by (simp add: accounted_def s)
  note step = admit_cases [OF b run]
  have evo: "accounted (db', w, l)" "\<And>u. know u s \<Longrightarrow> know u (db', w, l)"
    using step evolves_accounted [OF acc [unfolded s]] evolves_know [of _ db w l db' w] by (simp_all add: s)
  have gr: "grows s (db', w, l)" using step by (simp add: s)
  show "\<exists>t'. tok.move (Planner i g) t' s (snd (?adm s)) \<and>
      (case fst (?adm s) of Inr (Inr _) \<Rightarrow> t' = Payer i g | _ \<Rightarrow> t' = Planner i g)"
  proof (cases "\<exists>row. x = Inr (Inr row)")
    case True
    then obtain r r' where before: "map_of (fee_remittances db) i = Some r" "\<not> spending r"
      and after: "map_of (fee_remittances db') i = Some r'" "spending r'" using step by auto
    then have new: "i \<notin> fst ` set l" using acc by (fastforce simp: accounted_def s)
    with after evo(2) [OF k] have "know (Payer i g) (db', w, l)" by simp
    moreover have "apart (Payer i g) u" if "know u s" for u using that before by (cases u) (auto simp: s)
    ultimately have "tok.move (Planner i g) (Payer i g) s (db', w, l)" using evo gr by (auto simp: tok.move_def)
    then show ?thesis using True by (auto simp: s run)
  next
    case False
    have "tok.move (Planner i g) (Planner i g) s (db', w, l)"
      unfolding tok.move_def using evo(1) evo(2) [OF k] evo(2) gr by blast
    then show ?thesis using False by (auto simp: s run split: sum.splits)
  qed
qed

lemma melt_cost_bounded:
  assumes "confirm_would_succeed p g = Inr a" and "uint g < 2 ^ 63"
  shows "melt_cost p \<le> uint g"
proof -
  from assms(1) obtain bound where cb: "confirm_bound (mp_invoice_sats p) (mp_fee_reserve_sats p) (Some (mp_input_fee_sats p))
      (mp_swap_fee_sats p) (mp_input_fee_ppk p) (mp_requires_swap p) g = Inr bound"
    by (auto simp: confirm_would_succeed_def elim!: try_bind_InrE)
  have "unat g < 2 ^ 63" using assms(2) by (metis nat_less_numeral_power_cancel_iff unat_eq_nat_uint)
  then have "g \<noteq> u64_max" using unat_u64_max by auto
  from confirm_bound_ok(1) [OF cb this] have "uint (mp_invoice_sats p) + uint (mp_fee_reserve_sats p) +
      uint (actual_input_fee_sats bound) + uint (mp_swap_fee_sats p) \<le> uint g"
    unfolding uint_nat by linarith
  moreover have "actual_input_fee_sats bound = snd (layout_figures (saturating_add (mp_invoice_sats p) (mp_fee_reserve_sats p))
      (Some (mp_input_fee_sats p)) (mp_input_fee_ppk p) (mp_requires_swap p))"
    using cb by (auto simp: confirm_bound_def layout_figures_def Let_def split: if_splits prod.splits)
  ultimately show ?thesis by (simp add: melt_cost_def)
qed

lemma follows_confirm:
  fixes E :: "'w RemitEffects"
  assumes "melt_cost (preparation p) \<le> uint g"
  shows "tok.follows (confirm E i p) (Payer i g) (\<lambda>_ u. u = Idle)"
  unfolding confirm_def
proof (rule tok.follows_atomic)
  fix s :: "'w remit_state" assume acc: "accounted s" and k: "know (Payer i g) s"
  obtain db w l where s: "s = (db, w, l)" by (cases s)
  obtain r w' where run: "confirm_melt E p w = (r, w')" by (cases "confirm_melt E p w")
  have "accounted (db, w', l @ [(i, preparation p)])" using acc k assms by (auto simp: accounted_def s)
  moreover have "know u (db, w', l @ [(i, preparation p)])" if "apart (Payer i g) u" "know u s" for u
    using that by (cases u) (auto simp: s)
  moreover have "apart Idle u" for u by (rule tok.apart_idle)
  ultimately show "\<exists>t'. tok.move (Payer i g) t' s (snd ((\<lambda>(db, w, l). case confirm_melt E p w of
      (r, w') \<Rightarrow> (r, db, w', l @ [(i, preparation p)])) s)) \<and> t' = Idle"
    by (auto simp: tok.move_def s run)
qed

section \<open>The attempt follows the protocol\<close>

abbreviation any_end :: "'a \<Rightarrow> token \<Rightarrow> bool" where
  "any_end \<equiv> \<lambda>_ _. True"

lemma follows_finish [simp]: "tok.follows (finish tr out) t any_end"
  by (simp add: finish_def)

lemma follows_done [simp]: "tok.follows (Done a) t any_end"
  by simp

lemma follows_or_fail:
  assumes "tok.follows p t Q" and "\<And>x u. Q (Inr x) u \<Longrightarrow> tok.follows (k x) u any_end"
  shows "tok.follows (or_fail tr p k) t any_end"
  unfolding or_fail_def
  by (rule tok.follows_bind [OF assms(1)]) (use assms(2) in \<open>auto split: sum.splits\<close>)

lemmas follows_steps = tok.follows_bind [OF follows_world] follows_or_fail [OF follows_world]
  follows_or_fail [OF follows_store [OF keeps_settle]] follows_or_fail [OF follows_store [OF keeps_replan]]

lemma follows_clock: "tok.follows (clock E) t (\<lambda>_ u. u = t)"
  unfolding clock_def by (rule follows_world)

lemma follows_release_own: "tok.follows (release_own_planned E now i) t (\<lambda>_ u. u = t)"
  unfolding release_own_planned_def
  by (rule tok.follows_bind [OF follows_store [OF keeps_release]]) auto

lemma follows_pay:
  assumes "melt_cost (preparation prepared) \<le> uint g"
  shows "tok.follows (pay_leg E now tr i quote prepared) (Payer i g) any_end"
  unfolding pay_leg_def
  by (rule tok.follows_bind [OF follows_clock])
     (auto intro!: follows_steps tok.follows_bind [OF follows_confirm [OF assms]] split: sum.splits MeltFailure.splits)

lemma follows_lost:
  "tok.follows (case lost of LeaseTooShort _ _ _ \<Rightarrow> release_own_planned E now i | _ \<Rightarrow> Done (Inr False)) t (\<lambda>_ u. u = t)"
  by (cases lost) (simp_all add: follows_release_own)

lemma follows_fence_leg:
  assumes "melt_cost (preparation prepared) \<le> uint g"
  shows "tok.follows (fence_leg E now tr i quote prepared) (Planner i g) any_end"
  unfolding fence_leg_def
  by (rule follows_or_fail [OF follows_fence])
     (auto intro!: follows_steps follows_or_fail [OF follows_lost] simp: follows_pay [OF assms] split: sum.splits)

lemma follows_prepare:
  assumes "uint gross < 2 ^ 63"
  shows "tok.follows (prepare_leg E now tr i gross quote ceiling) (Planner i gross) any_end"
proof -
  have "tok.follows (fence_leg E now tr i quote p) (Planner i gross) any_end"
    if "confirm_would_succeed (preparation p) gross = Inr a" for p a
    by (rule follows_fence_leg [OF melt_cost_bounded [OF that assms]])
  then show ?thesis
    unfolding prepare_leg_def
    by (intro tok.follows_bind [OF follows_clock])
       (auto intro!: follows_steps split: sum.splits MeltFailure.splits)
qed

lemma follows_replan:
  assumes "\<And>q c. tok.follows (k q c) t any_end"
  shows "tok.follows (replan_leg E tr i gross pay estimate live k) t any_end"
  unfolding replan_leg_def Let_def
  by (auto intro!: follows_steps simp: assms split: option.splits sum.splits)

lemma follows_quote:
  assumes "uint gross < 2 ^ 63"
  shows "tok.follows (quote_leg E now tr i gross pay iv estimate net) (Planner i gross) any_end"
  unfolding quote_leg_def Let_def
  by (rule tok.follows_bind [OF follows_world])
     (auto intro!: follows_or_fail [OF follows_release_own] follows_prepare [OF assms] follows_replan split: sum.splits)

lemma follows_journal: "tok.follows (journal_leg E now tr gross pay iv estimate net) Idle any_end"
  unfolding journal_leg_def Let_def
  by (rule tok.follows_bind [OF follows_plan]) (auto intro!: follows_quote split: sum.splits PlanRefused.splits)

lemma release_decision: "reconcile_decision row status who now = Release on \<Longrightarrow> \<not> bound_release on"
  by (auto simp: reconcile_decision_def Let_def hold_spending_def terminal_release_def unpaid_decision_def
      split: if_splits option.splits MeltQuoteState.splits)

lemma follows_resolve:
  assumes "\<And>tr. tok.follows (k tr) t any_end"
  shows "tok.follows (resolve_active E now active status tr k) t any_end"
  unfolding resolve_active_def Let_def
  by (auto intro!: follows_steps follows_or_fail [OF follows_store [OF keeps_release [OF release_decision]]]
      simp: assms split: Reconcile.splits option.splits)

lemma follows_reconcile:
  assumes "\<And>tr. tok.follows (k tr) t any_end"
  shows "tok.follows (reconcile_leg E now tr k) t any_end"
  unfolding reconcile_leg_def Let_def
  by (rule follows_or_fail [OF follows_store [OF keeps_reads(1)]])
     (auto intro!: follows_steps follows_resolve simp: assms split: option.splits)

lemma follows_sizing:
  assumes "\<And>pay iv est net. tok.follows (k pay iv est net) t any_end"
  shows "tok.follows (sizing_leg E gross tr k) t any_end"
  unfolding sizing_leg_def sized_invoice_def within_gross_def Let_def
  by (auto intro!: follows_steps simp: assms split: option.splits)

lemma follows_remit_inner: "tok.follows (remit_inner E trigger now) Idle any_end"
proof -
  have recent: "tok.follows (if trigger \<noteq> Collect then store (recent_remit_attempts RECENT_ATTEMPTS_SHOWN) else Done (Inr []))
      Idle (\<lambda>_ u. u = Idle)"
    by (simp add: follows_store keeps_reads)
  show ?thesis
    unfolding remit_inner_def Let_def
    by (rule follows_or_fail [OF recent])
       (auto intro!: follows_reconcile follows_or_fail [OF follows_store [OF keeps_reads(2)]] follows_sizing follows_journal)
qed

lemma follows_remit: "tok.follows (remit E trigger now) Idle any_end"
proof -
  have entry: "tok.follows (pbind (case tr_unremitted tr of
                    Some n \<Rightarrow> Done (Some n)
                  | None \<Rightarrow> pbind (store accrued_fees) (\<lambda>r. Done (case r of Inl _ \<Rightarrow> None | Inr a \<Rightarrow> Some (unremitted_fee_sats a))))
             (\<lambda>n. pbind (store (record_remit_attempt (a n))) (\<lambda>_. Done result))) t any_end" for tr a result t
  proof (rule tok.follows_bind [where Q = any_end])
    show "tok.follows (case tr_unremitted tr of Some n \<Rightarrow> Done (Some n)
      | None \<Rightarrow> pbind (store accrued_fees) (\<lambda>r. Done (case r of Inl _ \<Rightarrow> None | Inr a \<Rightarrow> Some (unremitted_fee_sats a)))) t any_end"
      by (cases "tr_unremitted tr") (auto intro!: tok.follows_bind [OF follows_store [OF keeps_reads(2)]])
    show "tok.follows (pbind (store (record_remit_attempt (a n))) (\<lambda>_. Done result)) u any_end" for n u
      by (rule tok.follows_bind [OF follows_store [OF keeps_reads(4)]]) simp
  qed
  show ?thesis
    unfolding remit_def
  proof (rule tok.follows_bind [OF follows_remit_inner], goal_cases)
    case (1 x u)
    show ?case
      by (cases x; cases "journal_as trigger"; cases "attempt_entry (fst x) (snd x)") (simp_all add: entry split: prod.split)
  qed
qed

section \<open>Properties\<close>

lemma pinned_share:
  assumes "distinct is" and "\<And>rc. rc \<in> set rs \<Longrightarrow> 0 \<le> rc_fee_sats rc"
  shows "(\<Sum>i\<leftarrow>is. \<Sum>rc\<leftarrow>filter (\<lambda>r. rc_remittance_id r = Some i) rs. rc_fee_sats rc) \<le> (\<Sum>rc\<leftarrow>rs. rc_fee_sats rc)"
  using assms(2)
proof (induction rs)
  case (Cons rc rs)
  have "(\<Sum>i\<leftarrow>is. if rc_remittance_id rc = Some i then rc_fee_sats rc else 0) =
      (if rc_remittance_id rc \<in> Some ` set is then rc_fee_sats rc else 0)"
    using assms(1) by (induction "is") auto
  then have "(\<Sum>i\<leftarrow>is. if rc_remittance_id rc = Some i then rc_fee_sats rc else 0) \<le> rc_fee_sats rc"
    using Cons.prems [of rc] by simp
  moreover have "(\<Sum>i\<leftarrow>is. \<Sum>r\<leftarrow>filter (\<lambda>r. rc_remittance_id r = Some i) (rc # rs). rc_fee_sats r) =
      (\<Sum>i\<leftarrow>is. if rc_remittance_id rc = Some i then rc_fee_sats rc else 0) +
      (\<Sum>i\<leftarrow>is. \<Sum>r\<leftarrow>filter (\<lambda>r. rc_remittance_id r = Some i) rs. rc_fee_sats r)"
    by (subst sum_list_addf [symmetric]) (rule arg_cong [where f = sum_list], simp)
  ultimately show ?case using Cons by simp
qed simp

lemma accounted_total:
  assumes "accounted (db, w, l)"
  shows "(\<Sum>p\<leftarrow>map snd l. melt_cost p) \<le> total_fees db"
proof -
  have row: "melt_cost p \<le> pinned_fees (Some i) db" if "(i, p) \<in> set l" for i p
  proof -
    from assms that obtain r where r: "map_of (fee_remittances db) i = Some r" "spending r" "melt_cost p \<le> fr_gross_sats r"
      and b: "books db" by (fastforce simp: accounted_def)
    with booksD(1) [OF b r(1)] show ?thesis by (simp add: row_ok_def)
  qed
  have "(\<Sum>p\<leftarrow>map snd l. melt_cost p) = (\<Sum>x\<leftarrow>l. melt_cost (snd x))" by (simp add: o_def)
  also have "\<dots> \<le> (\<Sum>x\<leftarrow>l. pinned_fees (Some (fst x)) db)"
    by (rule sum_list_mono) (use row in auto)
  also have "\<dots> = (\<Sum>i\<leftarrow>map fst l. pinned_fees (Some i) db)" by (simp add: o_def)
  also have "\<dots> \<le> total_fees db"
    unfolding total_fees_def pinned_fees_def pinned_def
    by (rule pinned_share) (use assms in \<open>auto simp: accounted_def books_def receipt_ok_def\<close>)
  finally show ?thesis .
qed

text \<open>The attempts any processes may start, and a store in which nothing was remitted yet.\<close>

definition remit_start :: "('w remit_state, string + RemitOutcome) proc \<Rightarrow> bool" where
  "remit_start p \<longleftrightarrow> (\<exists>E trigger now. p = remit E trigger now)"

definition fresh_books :: "seller_db \<Rightarrow> bool" where
  "fresh_books db \<longleftrightarrow> fee_remittances db = [] \<and>
     list_all (\<lambda>(_, rc). 0 \<le> rc_fee_sats rc \<and> rc_remittance_id rc = None) (receipts db)"

lemma fresh_accounted: "fresh_books db \<Longrightarrow> accounted (db, w, [])"
  by (auto simp: fresh_books_def accounted_def books_def receipt_ok_def list_all_iff)

lemma remit_reach_accounted:
  assumes "fresh_books db0" and "reach remit_start remit_env (db0, w0, []) ps s"
  shows "accounted s"
  by (rule tok.reach_inv [OF _ fresh_accounted [OF assms(1)] assms(2)]) (auto simp: remit_start_def follows_remit)

text \<open>C5. The seller never pays more than it accrued, and no remittance is paid twice: however many
  attempts of however many processes interleave with each other and with the collection of
  receipts, wherever a process dies and whatever the mint, the wallet and SQLite answer, the
  payment is confirmed at most once for each remittance, and what all confirmed payments together
  may take out of the wallet, invoice, reserve, recomputed input fee and swap fee included, is at
  most the fee recorded with the receipts.\<close>

theorem remittances_never_exceed_accrued_fees:
  assumes "fresh_books db0" and "reach remit_start remit_env (db0, w0, []) ps (db, w, l)"
  shows "distinct (map fst l) \<and> (\<Sum>p\<leftarrow>map snd l. melt_cost p) \<le> total_fees db"
  using accounted_total remit_reach_accounted [OF assms] by (auto simp: accounted_def)

subsection \<open>A mint that charges nothing\<close>

definition demo_invoice :: "u64 \<Rightarrow> ResolvedInvoice" where
  "demo_invoice n = \<lparr>ri_bolt11 = replicate (unat n) (CHR ''x''), ri_payment_hash = ''h'', ri_amount_sats = n,
     ri_amount_msat = n * 1000\<rparr>"

definition demo_estimate :: "u64 \<Rightarrow> string \<Rightarrow> MeltEstimate" where
  "demo_estimate ppk bolt = \<lparr>me_mint_url = ''mint'', me_quote_id = ''q'', me_amount_sats = of_nat (length bolt),
     me_fee_reserve_sats = 0, me_expiry_unix = 1000, expected_fees_sats = 0, expected_swap_fee_sats = 0,
     me_input_fee_ppk = ppk, expected_fees_note = None\<rparr>"

definition demo_melt :: "string \<Rightarrow> MeltCeiling \<Rightarrow> PreparedMelt" where
  "demo_melt quote c = \<lparr>preparation = \<lparr>mp_mint_url = ''mint'', mp_quote_id = quote, mp_invoice_sats = mc_invoice_sats c,
     mp_fee_reserve_sats = 0, mp_input_fee_sats = 0, mp_swap_fee_sats = 0, mp_requires_swap = False,
     mp_input_fee_ppk = 0, mp_total_debit_sats = mc_invoice_sats c, mp_expiry_unix = 1000\<rparr>, prepared_token = 0\<rparr>"

definition demo_effects :: "u64 \<Rightarrow> nat RemitEffects" where
  "demo_effects ppk = \<lparr>eff_owner = ''me'',
     pay_request = (\<lambda>w. (Inr \<lparr>callback = ''cb'', min_sendable_msat = 1000, max_sendable_msat = 9000000\<rparr>, w)),
     invoice = (\<lambda>_ n w. (Inr (demo_invoice n), w)),
     melt_estimate = (\<lambda>b w. (Inr (demo_estimate ppk b), w)),
     melt_quote = (\<lambda>b w. (Inr (demo_estimate ppk b), w)),
     prepare_melt = (\<lambda>q c w. (Inr (demo_melt q c), w)),
     confirm_melt = (\<lambda>p w. (Inr \<lparr>mo_mint_url = ''mint'', paid_sats = mp_invoice_sats (preparation p), mo_fee_sats = 0,
        balance_sats = 0, balance_after_sats = None, mo_quote_id = mp_quote_id (preparation p), mo_fee_reserve_sats = 0,
        mo_input_fee_sats = 0, mo_swap_fee_sats = 0\<rparr>, w + 1)),
     cancel_melt = (\<lambda>_ w. (Inr (), w)), melt_status = (\<lambda>_ w. (Inr None, w)),
     melt_status_for_quote = (\<lambda>_ w. (Inr None, w)), now_unix = (\<lambda>_. 10)\<rparr>"

definition demo_db :: seller_db where
  "demo_db = \<lparr>receipts = [(''r1'', \<lparr>rc_job_id = ''j'', rc_amount_sats = 30, rc_received_at_unix = 1, rc_fee_bps = 1000,
     rc_fee_sats = 3, rc_mint_fee_sats = None, rc_remittance_id = None\<rparr>)], fee_remittances = [], fee_remit_attempts = [],
     jobs = [], sdb_faults = []\<rparr>"

lemma demo_pays:
  "case exec (remit (demo_effects 0) Command 10) (demo_db, 0, []) of
     (r, db, w, l) \<Rightarrow> r = Inr (Paid ''h'' 3 0) \<and> map fst l = [''h''] \<and> total_fees db = 3 \<and>
       map (\<lambda>(i, r). (i, fr_state r, spending r)) (fee_remittances db) = [(''h'', ''settled'', True)]"
  by code_simp

lemma demo_reach:
  obtains db w l where "reach remit_start remit_env (demo_db, 0 :: nat, []) [Done (Inr (Paid ''h'' 3 0))] (db, w, l)"
    "map fst l = [''h'']" "total_fees db = 3" "map (\<lambda>(i, r). (i, fr_state r, spending r)) (fee_remittances db) = [(''h'', ''settled'', True)]"
proof -
  obtain r db w l where run: "exec (remit (demo_effects 0) Command 10) (demo_db, 0, []) = (r, db, w, l)"
    by (cases "exec (remit (demo_effects 0) Command 10) (demo_db, 0, [])")
  have "remit_start (remit (demo_effects 0) Command 10)" by (auto simp: remit_start_def)
  from reach_exec [where starts = remit_start and env = remit_env and ps = "[]", OF reach.init this run] demo_pays
  have "reach remit_start remit_env (demo_db, 0 :: nat, []) [Done (Inr (Paid ''h'' 3 0))] (db, w, l) \<and> map fst l = [''h''] \<and>
      total_fees db = 3 \<and> map (\<lambda>(i, r). (i, fr_state r, spending r)) (fee_remittances db) = [(''h'', ''settled'', True)]"
    by (simp add: run)
  then show thesis by (elim conjE) (rule that)
qed

lemma demo_fresh: "fresh_books demo_db"
  by (simp add: fresh_books_def demo_db_def)

theorem remittances_never_exceed_accrued_fees_witness:
  "\<exists>ps db w l. reach remit_start remit_env (demo_db, 0 :: nat, []) ps (db, w, l) \<and> map fst l = [''h''] \<and>
     (\<Sum>p\<leftarrow>map snd l. melt_cost p) \<le> 3"
proof -
  obtain db w l where run: "reach remit_start remit_env (demo_db, 0 :: nat, []) [Done (Inr (Paid ''h'' 3 0))] (db, w, l)"
    "map fst l = [''h'']" "total_fees db = 3" by (rule demo_reach)
  from remittances_never_exceed_accrued_fees [OF demo_fresh run(1)] run(3) have "(\<Sum>p\<leftarrow>map snd l. melt_cost p) \<le> 3" by simp
  then show ?thesis using run(1,2) by (intro exI conjI)
qed

text \<open>C12. Once the fence admitted a payment, nobody takes it back: in every reachable state a
  remittance with a bound quote is planned or settled, never failed, and the receipts it discharges
  stay pinned to it with exactly its gross; and at most one remittance is in flight.\<close>

theorem admitted_remittance_is_never_released:
  assumes "fresh_books db0" and "reach remit_start remit_env (db0, w0, []) ps (db, w, l)"
    and "map_of (fee_remittances db) i = Some r" and "fr_spending_since_unix r \<noteq> None"
  shows "fr_state r \<in> {''planned'', ''settled''} \<and> fr_spending_quote_id r \<noteq> None \<and>
    pinned_fees (Some i) db = fr_gross_sats r \<and>
    (\<forall>j q. map_of (fee_remittances db) j = Some q \<longrightarrow> fr_state q = ''planned'' \<longrightarrow> fr_state r = ''planned'' \<longrightarrow> j = i)"
proof -
  have b: "books db" using remit_reach_accounted [OF assms(1,2)] by (simp add: accounted_def)
  from booksD(1) [OF b assms(3)] assms(4) b assms(3) show ?thesis
    by (auto simp: row_ok_def spending_def books_def)
qed

theorem admitted_remittance_is_never_released_witness:
  "\<exists>ps db w l r. reach remit_start remit_env (demo_db, 0 :: nat, []) ps (db, w, l) \<and>
     map_of (fee_remittances db) ''h'' = Some r \<and> pinned_fees (Some ''h'') db = fr_gross_sats r"
proof -
  obtain db w l where run: "reach remit_start remit_env (demo_db, 0 :: nat, []) [Done (Inr (Paid ''h'' 3 0))] (db, w, l)"
    and rows: "map (\<lambda>(i, r). (i, fr_state r, spending r)) (fee_remittances db) = [(''h'', ''settled'', True)]"
    by (rule demo_reach)
  then obtain r where r: "fee_remittances db = [(''h'', r)]" "spending r" by (cases "fee_remittances db") auto
  from admitted_remittance_is_never_released [OF demo_fresh run, of "''h''" r] r
  have "map_of (fee_remittances db) ''h'' = Some r" "pinned_fees (Some ''h'') db = fr_gross_sats r"
    by (simp_all add: spending_def)
  with run show ?thesis by blast
qed




end
