(* ===== verification/Remit_Reads.thy ===== *)
theory Remit_Reads
  imports Remit_Safety "HOL-Library.Multiset"
begin

text \<open>
  What the seller's database says when it is read back: a planned remittance is the one in flight,
  with the figures it was planned with, and the two ways the code computes the unremitted fee, the
  loop over the joined receipts and the sum of the database, agree. Then a run whose estimate does not say what it means.
\<close>

section \<open>A plan reads back\<close>

lemma clamp_as_i64: "0 \<le> as_i64 w \<Longrightarrow> clamp_u64 (as_i64 w) = w"
  using uint_bounded [of w] by (auto simp: as_i64_def clamp_u64_def split: if_splits)

lemma plan_remittance_ran:
  assumes "plan_remittance plan who lease now db = (Inr row, db')"
  obtains db1 where "plan_tx plan who lease now db1 = Inr (row, db')" "receipts db1 = receipts db"
    "fee_remittances db1 = fee_remittances db"
proof -
  obtain y db1 where call: "sdb_call db = (y, db1)" by (cases "sdb_call db")
  have "plan_tx plan who lease now db1 = Inr (row, db')"
    using assms by (auto simp: plan_remittance_def st_bind_def st_map_err_def call split: if_splits sum.splits prod.splits)
  with that sdb_call_tables [OF call] show thesis by blast
qed

lemma plan_tx_checks: "plan_tx plan who lease now db = Inr (row, db') \<Longrightarrow> row_checks (planned_row plan who lease now)"
  by (auto simp: plan_tx_def Let_def elim!: try_bind_InrE split: option.splits if_splits)

text \<open>A remittance that was planned is the one the next reader finds in flight, with the figures,
  the invoice, the owner and the lease of the plan, in the state planned, and pinned to every
  receipt that was unremitted.\<close>

theorem planned_remittance_reads_back:
  assumes "plan_remittance plan who lease now db = (Inr row, db')"
  shows "in_flight_remittance_in db' = Inr (Some row) \<and>
    \<lparr>pl_payment_hash = payment_hash row, pl_gross_sats = gross_sats row, pl_net_sats = net_sats row,
     pl_melt_fee_reserve_sats = the (melt_fee_reserve_sats row), pl_destination = destination row,
     pl_bolt11 = bolt11 row, pl_melt_quote_id = melt_quote_id row\<rparr> = plan \<and>
    remittance_id row = pl_payment_hash plan \<and> state row = Planned \<and> owner row = Some who \<and>
    lease_until_unix row = Some lease \<and> pinned None db' = []"
proof -
  let ?i = "pl_payment_hash plan" and ?r = "planned_row plan who lease now"
  from assms obtain db1 where tx: "plan_tx plan who lease now db1 = Inr (row, db')" by (rule plan_remittance_ran)
  from tx obtain none: "\<not> list_ex (\<lambda>(_, q). fr_payment_hash q = ?i \<or> fr_state q = ''planned'') (fee_remittances db1)"
    and new: "map_of (fee_remittances db1) ?i = None" and row: "read_back ?i db' = Inr row"
    and db': "fee_remittances db' = fee_remittances db1 @ [(?i, ?r)]" "receipts db' = pin ?i (receipts db1)"
    by (rule plan_tx_cases)
  have "filter (\<lambda>(_, q). fr_state q = ''planned'') (fee_remittances db1) = []"
    using none by (auto simp: filter_empty_conv list_ex_iff)
  then have found: "filter (\<lambda>(_, q). fr_state q = ''planned'') (fee_remittances db') = [(?i, ?r)]"
    by (simp add: db' planned_row_def)
  have read: "read_remittance db' ?i ?r = Inr row"
    using row new by (simp add: read_back_def db' map_add_def)
  have "pinned None db' = []" by (auto simp: pinned_def db' pin_def filter_empty_conv)
  moreover have "in_flight_remittance_in db' = Inr (Some row)" using found read by (simp add: in_flight_remittance_in_def)
  moreover note plan_tx_checks [OF tx] read
  ultimately show ?thesis
    by (auto simp: read_remittance_def from_columns_def RemittanceState_parse_def planned_row_def row_checks_def clamp_as_i64)
qed

theorem planned_remittance_reads_back_witness:
  "case plan_remittance \<lparr>pl_payment_hash = ''h'', pl_gross_sats = 3, pl_net_sats = 2, pl_melt_fee_reserve_sats = 1,
          pl_destination = ''d'', pl_bolt11 = ''b'', pl_melt_quote_id = None\<rparr> ''me'' 300 10 demo_db of
     (r, db') \<Rightarrow> (case r of Inl _ \<Rightarrow> False | Inr row \<Rightarrow> net_sats row = 2 \<and> in_flight_remittance_in db' = Inr (Some row))"
proof -
  let ?plan = "\<lparr>pl_payment_hash = ''h'', pl_gross_sats = 3, pl_net_sats = 2, pl_melt_fee_reserve_sats = 1,
          pl_destination = ''d'', pl_bolt11 = ''b'', pl_melt_quote_id = None\<rparr> :: RemittancePlan"
  have "case fst (plan_remittance ?plan ''me'' 300 10 demo_db) of Inl _ \<Rightarrow> False | Inr _ \<Rightarrow> True" by code_simp
  then obtain row db' where run: "plan_remittance ?plan ''me'' 300 10 demo_db = (Inr row, db')"
    by (metis old.sum.simps(5) prod.collapse sumE)
  from planned_remittance_reads_back [OF run] show ?thesis by (simp add: run)
qed

section \<open>The unremitted fee, twice\<close>

definition counts_unremitted :: "string option \<Rightarrow> bool" where
  "counts_unremitted st \<longleftrightarrow> map_option RemittanceState_parse st \<notin> {Some (Inr Settled), Some (Inr Planned)}"

lemma accrue_unremitted:
  "unremitted_fee_sats (accrue (row, st) t) =
     (if counts_unremitted st then saturating_add (unremitted_fee_sats t) (ja_fee_sats row) else unremitted_fee_sats t)"
  by (simp add: accrue_def counts_unremitted_def Let_def split: option.splits sum.splits RemittanceState.splits)

lemma fold_accrue_unremitted:
  "unat (unremitted_fee_sats (fold accrue xs t)) =
     min (unat (unremitted_fee_sats t) + (\<Sum>x\<leftarrow>filter (\<lambda>x. counts_unremitted (snd x)) xs. unat (ja_fee_sats (fst x)))) (2 ^ 64 - 1)"
proof (induction xs arbitrary: t)
  case Nil
  have "unat (unremitted_fee_sats t) < 2 ^ 64" using unsigned_less [of "unremitted_fee_sats t"] by simp
  then show ?case by simp
next
  case (Cons x xs)
  then show ?case by (cases x) (auto simp: accrue_unremitted unat_saturating_add min_def)
qed

lemma sum_list_sorted: "(\<Sum>x\<leftarrow>filter P (sort_key k xs). f x) = (\<Sum>x\<leftarrow>filter P xs. f x)" for f :: "'a \<Rightarrow> nat"
  by (metis mset_filter mset_map mset_sort sum_mset_sum_list)

lemma sum_list_filter_le:
  fixes f :: "'a \<Rightarrow> int"
  assumes "\<And>x. x \<in> set xs \<Longrightarrow> 0 \<le> f x"
  shows "(\<Sum>x\<leftarrow>filter P xs. f x) \<le> (\<Sum>x\<leftarrow>xs. f x)"
  using assms by (induction xs) (simp_all add: add_increasing)

text \<open>The balance an attempt plans with is the one the store checks it against: the loop over the
  receipts joined with their remittances, with its saturating sums, gives exactly what the database
  sums over the receipts no remittance covers.\<close>

theorem unremitted_fee_read_twice_agrees:
  assumes "books db" and "total_fees db < 2 ^ 63" and "accrued_fees db = (Inr a, db')"
  shows "unremitted_fee_sats_in db = Inr (unremitted_fee_sats a)"
proof -
  let ?P = "\<lambda>rc. rc_remittance_id rc = None"
  let ?st = "\<lambda>rc. case rc_remittance_id rc of None \<Rightarrow> None | Some i \<Rightarrow> map_option fr_state (map_of (fee_remittances db) i)"
  have ok: "receipt_ok db rc" if "rc \<in> set (map snd (receipts db))" for rc using assms(1) that by (auto simp: books_def)
  have nonneg: "0 \<le> rc_fee_sats rc" if "rc \<in> set (map snd (receipts db))" for rc using ok [OF that] by (simp add: receipt_ok_def)
  have small: "rc_fee_sats rc < 2 ^ 63" if "rc \<in> set (map snd (receipts db))" for rc
    using member_le_sum_list [of "rc_fee_sats rc" "map rc_fee_sats (map snd (receipts db))"] that nonneg assms(2)
    by (fastforce simp: total_fees_def)
  have counts: "counts_unremitted (?st rc) = ?P rc" if rc: "rc \<in> set (map snd (receipts db))" for rc
  proof (cases "rc_remittance_id rc")
    case (Some i)
    then obtain r where r: "map_of (fee_remittances db) i = Some r" "fr_state r \<noteq> ''failed''"
      using ok [OF rc] by (auto simp: receipt_ok_def)
    with booksD(1) [OF assms(1) r(1)] have "fr_state r \<in> {''planned'', ''settled''}" by (auto simp: row_ok_def)
    with Some r show ?thesis by (auto simp: counts_unremitted_def RemittanceState_parse_def)
  qed (simp add: counts_unremitted_def)
  obtain y db1 where call: "sdb_call db = (y, db1)" by (cases "sdb_call db")
  note tab = sdb_call_tables [OF call]
  have "joined_receipts db1 = joined_receipts db" using tab by (simp add: joined_receipts_def cong: option.case_cong)
  then have a: "a = fold accrue (joined_receipts db) AccruedFees_default"
    using assms(3) by (auto simp: accrued_fees_def sdb_try_def st_bind_def call split: sum.splits)
  have "(\<Sum>x\<leftarrow>filter (\<lambda>x. counts_unremitted (snd x)) (joined_receipts db). unat (ja_fee_sats (fst x))) =
      (\<Sum>x\<leftarrow>filter (\<lambda>x. counts_unremitted (?st (snd x))) (receipts db). unat (clamp_u64 (rc_fee_sats (snd x))))"
    by (simp add: joined_receipts_def filter_map o_def case_prod_beta accrual_of_def sum_list_sorted)
  also have "\<dots> = (\<Sum>x\<leftarrow>filter (\<lambda>x. ?P (snd x)) (receipts db). nat (rc_fee_sats (snd x)))"
  proof -
    have "filter (\<lambda>x. counts_unremitted (?st (snd x))) (receipts db) = filter (\<lambda>x. ?P (snd x)) (receipts db)"
      by (rule filter_cong [OF refl]) (use counts in auto)
    moreover have "unat (clamp_u64 (rc_fee_sats (snd x))) = nat (rc_fee_sats (snd x))" if "x \<in> set (receipts db)" for x
      using nonneg [of "snd x"] small [of "snd x"] that clamp_exact [of "rc_fee_sats (snd x)"] by (simp add: unat_eq_nat_uint)
    ultimately show ?thesis by (auto intro!: arg_cong [where f = sum_list])
  qed
  also have "\<dots> = nat (pinned_fees None db)"
  proof -
    have "int (\<Sum>x\<leftarrow>filter (\<lambda>x. ?P (snd x)) xs. nat (rc_fee_sats (snd x))) = (\<Sum>rc\<leftarrow>filter ?P (map snd xs). rc_fee_sats rc)"
      if "\<And>rc. rc \<in> set (map snd xs) \<Longrightarrow> 0 \<le> rc_fee_sats rc" for xs :: "(string \<times> receipt_row) list"
      using that by (induction xs) auto
    from this [of "receipts db", OF nonneg] show ?thesis unfolding pinned_fees_def pinned_def by linarith
  qed
  finally have sum: "unat (unremitted_fee_sats a) = min (nat (pinned_fees None db)) (2 ^ 64 - 1)"
    using fold_accrue_unremitted [of "joined_receipts db" AccruedFees_default] by (simp add: a AccruedFees_default_def)
  have "pinned_fees None db \<le> total_fees db"
    unfolding pinned_fees_def pinned_def total_fees_def by (rule sum_list_filter_le) (use nonneg in auto)
  then have small: "pinned_fees None db < 2 ^ 63" using assms(2) by linarith
  have "0 \<le> pinned_fees None db"
    unfolding pinned_fees_def pinned_def by (rule sum_list_nonneg) (use nonneg in auto)
  with sum small have "uint (unremitted_fee_sats a) = pinned_fees None db" by (simp add: uint_nat)
  then have "unremitted_fee_sats a = clamp_u64 (pinned_fees None db)"
    by (metis clamp_u64_def max.absorb2 uint_ge_0 word_of_int_uint)
  then show ?thesis
    using small by (simp add: unremitted_fee_sats_in_def sql_sum_def pinned_fees_def)
qed

theorem unremitted_fee_read_twice_agrees_witness:
  "\<exists>a db'. accrued_fees demo_db = (Inr a, db') \<and> unremitted_fee_sats_in demo_db = Inr (unremitted_fee_sats a)"
proof -
  have "total_fees demo_db < 2 ^ 63" by (simp add: total_fees_def demo_db_def)
  moreover have "books demo_db" using fresh_accounted [OF demo_fresh, of "()"] by (simp add: accounted_def)
  moreover obtain a db' where run: "accrued_fees demo_db = (Inr a, db')"
    by (simp add: accrued_fees_def sdb_try_def st_bind_def sdb_call_def demo_db_def)
  ultimately have "unremitted_fee_sats_in demo_db = Inr (unremitted_fee_sats a)"
    by (intro unremitted_fee_read_twice_agrees)
  with run show ?thesis by blast
qed

section \<open>Fees that could not be estimated\<close>

text \<open>When the proof fees could not be estimated the estimate says zero, and the re-check on the
  quote takes that zero for the fee the wallet would prepare: the attempt is refused because the
  fees do not fit, although the planner found an invoice that can be paid within the balance and
  the figures of its own check agree.\<close>

theorem unestimated_fees_refuse_a_fitting_invoice:
  "fst (exec (remit (demo_effects 1000) Command 10) (demo_db, 0, [])) = Inr (Refused (FeesDoNotFit 3 0 0)) \<and>
   plan_confirmable_invoice 3 0 0 1000 = Some 1 \<and> is_ok (confirm_bound 1 0 None 0 1000 True 3)"
proof (intro conjI)
  show "fst (exec (remit (demo_effects 1000) Command 10) (demo_db, 0, [])) = Inr (Refused (FeesDoNotFit 3 0 0))" by code_simp
  show "plan_confirmable_invoice 3 0 0 1000 = Some 1" by code_simp
  show "is_ok (confirm_bound 1 0 None 0 1000 True 3)" by code_simp
qed

end
