(* ===== verification/Durations.thy ===== *)
theory Durations
  imports Main
begin

text \<open>
  Durations and instants of Rust. A \<open>Duration\<close> is the number of its nanoseconds, at most
  \<open>DURATION_MAX\<close>; an \<open>Instant\<close> is the number of nanoseconds on the monotonic clock.
\<close>

definition NANOS_PER_SEC :: nat where "NANOS_PER_SEC = 1000000000"

definition DURATION_MAX :: nat where "DURATION_MAX = (2 ^ 64 - 1) * NANOS_PER_SEC + 999999999"

definition from_secs :: "nat \<Rightarrow> nat" where "from_secs s = s * NANOS_PER_SEC"

definition duration_saturating_mul :: "nat \<Rightarrow> nat \<Rightarrow> nat" where
  "duration_saturating_mul d k = min (d * k) DURATION_MAX"

definition duration_saturating_add :: "nat \<Rightarrow> nat \<Rightarrow> nat" where
  "duration_saturating_add d e = min (d + e) DURATION_MAX"

definition duration_checked_add :: "nat \<Rightarrow> nat \<Rightarrow> nat option" where
  "duration_checked_add d e = (if d + e \<le> DURATION_MAX then Some (d + e) else None)"

definition saturating_duration_since :: "nat \<Rightarrow> nat \<Rightarrow> nat" where
  "saturating_duration_since now earlier = min (now - earlier) DURATION_MAX"

lemmas duration_defs = NANOS_PER_SEC_def DURATION_MAX_def from_secs_def duration_saturating_mul_def
  duration_saturating_add_def saturating_duration_since_def

end
