(* ===== verification/Remit_Pacing.thy ===== *)
theory Remit_Pacing
  imports Fee_Remit Durations
begin

text \<open>
  How the seller node paces its remit attempts, \<^verbatim>\<open>fee_remit.rs\<close>: the report of an attempt,
  the backoff that doubles over a streak of failures, the jitter, and the guard that admits one
  attempt at a time. A \<open>Duration\<close> is the number of its nanoseconds, at most
  \<open>DURATION_MAX\<close>; the \<open>u128\<close> arithmetic of the jitter is on naturals, with the
  proof that no product leaves 128 bits. The random source is an argument.
\<close>

section \<open>Reports\<close>

type_synonym RemitReport = "string + RemitOutcome"

definition is_quiet :: "RemitReport \<Rightarrow> bool" where
  "is_quiet report = (case report of Inr (Refused refusal) \<Rightarrow> is_threshold refusal | _ \<Rightarrow> False)"

definition is_failure :: "RemitReport \<Rightarrow> bool" where
  "is_failure report =
     (case report of
        Inl _ \<Rightarrow> True
      | Inr (MeltFailed _ _) \<Rightarrow> True
      | Inr (MeltRefused _ _) \<Rightarrow> True
      | Inr (QuoteFailed _ _) \<Rightarrow> True
      | Inr (Refused refusal) \<Rightarrow> \<not> is_threshold refusal
      | Inr (Paid _ _ _) \<Rightarrow> False
      | Inr DryRunDone \<Rightarrow> False)"

definition is_paid :: "RemitReport \<Rightarrow> bool" where
  "is_paid report = (case report of Inr (Paid _ _ _) \<Rightarrow> True | _ \<Rightarrow> False)"

definition remit_best_effort :: "'w RemitEffects \<Rightarrow> RemitTrigger \<Rightarrow> int \<Rightarrow> ('w remit_state, RemitReport) proc" where
  "remit_best_effort E trigger now = remit E trigger now"

definition remit_live_best_effort ::
  "string + 'w RemitEffects \<Rightarrow> RemitTrigger \<Rightarrow> int \<Rightarrow> ('w remit_state, RemitReport) proc"
where
  "remit_live_best_effort effects trigger now =
     (case effects of
        Inr E \<Rightarrow> remit_best_effort E trigger now
      | Inl e \<Rightarrow>
          (let error = ''build https client for LNURL: '' @ e in
           pbind (store accrued_fees) (\<lambda>r.
           pbind (store (record_remit_attempt \<lparr>started_at_unix = now,
                    ra_trigger = (case journal_as trigger of None \<Rightarrow> ByCollect | Some by \<Rightarrow> by),
                    ra_unremitted_sats = (case r of Inl _ \<Rightarrow> 0 | Inr a \<Rightarrow> unremitted_fee_sats a),
                    ra_outcome = AttemptFailed, ra_detail = error, ra_remittance_id = None\<rparr>)) (\<lambda>_.
             Done (Inl error)))))"

section \<open>Jitter\<close>

definition RETRY_BASE :: nat where "RETRY_BASE = from_secs 30"

definition RETRY_CAP :: nat where "RETRY_CAP = from_secs (30 * 60)"

definition U64_MAX :: nat where "U64_MAX = 2 ^ 64 - 1"

text \<open>\<open>u64::try_from(n).unwrap_or(u64::MAX)\<close>.\<close>

definition u64_or_max :: "nat \<Rightarrow> nat" where
  "u64_or_max n = (if n \<le> U64_MAX then n else U64_MAX)"

definition jittered :: "nat \<Rightarrow> nat \<Rightarrow> nat" where
  "jittered computed entropy =
     (let secs_scaled = (computed div NANOS_PER_SEC) * entropy;
          whole_secs = secs_scaled div U64_MAX;
          carry_nanos = (secs_scaled mod U64_MAX) * 1000000000 div U64_MAX;
          subsec_nanos = (computed mod NANOS_PER_SEC) * entropy div U64_MAX;
          nanos = carry_nanos + subsec_nanos
      in min (case duration_checked_add (from_secs (u64_or_max whole_secs)) (u64_or_max nanos) of
                None \<Rightarrow> computed | Some d \<Rightarrow> d) computed)"

definition boot_delay_for :: "nat \<Rightarrow> nat \<Rightarrow> nat" where
  "boot_delay_for base entropy = duration_saturating_add base (jittered base entropy)"

section \<open>The backoff\<close>

datatype Pacing =
    Idle
  | PacingPaid
  | FirstFailure
  | RepeatFailure u32 bool
  | Recovered u32 int

record RemitBackoff =
  backoff_base :: nat
  backoff_cap :: nat
  streak :: u32
  streak_since_unix :: "int option"

definition with_bounds :: "nat \<Rightarrow> nat \<Rightarrow> RemitBackoff" where
  "with_bounds base cap = \<lparr>backoff_base = base, backoff_cap = max cap base, streak = 0, streak_since_unix = None\<rparr>"

definition new_backoff :: RemitBackoff where
  "new_backoff = with_bounds RETRY_BASE RETRY_CAP"

text \<open>The loop \<open>for _ in 0..streak\<close> with its break.\<close>

fun doubling :: "nat \<Rightarrow> nat \<Rightarrow> nat \<Rightarrow> nat" where
  "doubling 0 cap delay = delay"
| "doubling (Suc n) cap delay =
     (if delay \<ge> cap then delay else doubling n cap (duration_saturating_mul delay 2))"

definition computed_delay :: "RemitBackoff \<Rightarrow> nat" where
  "computed_delay b = min (doubling (unat (streak b)) (backoff_cap b) (backoff_base b)) (backoff_cap b)"

definition at_cap :: "RemitBackoff \<Rightarrow> bool" where
  "at_cap b \<longleftrightarrow> computed_delay b \<ge> backoff_cap b"

definition next_delay :: "RemitBackoff \<Rightarrow> nat \<Rightarrow> nat" where
  "next_delay b entropy = jittered (computed_delay b) entropy"

definition boot_delay :: "RemitBackoff \<Rightarrow> nat \<Rightarrow> nat" where
  "boot_delay b entropy = boot_delay_for (backoff_base b) entropy"

definition i64_saturating_sub :: "int \<Rightarrow> int \<Rightarrow> int" where
  "i64_saturating_sub a b = min (2 ^ 63 - 1) (max (- (2 ^ 63)) (a - b))"

definition observe :: "RemitReport \<Rightarrow> int \<Rightarrow> RemitBackoff \<Rightarrow> Pacing \<times> RemitBackoff" where
  "observe report now b =
     (if is_failure report
      then
        (let was_at_cap = at_cap b; b1 = b\<lparr>streak := saturating_add (streak b) 1\<rparr> in
         if streak b1 = 1 then (FirstFailure, b1\<lparr>streak_since_unix := Some now\<rparr>)
         else (RepeatFailure (streak b1) (\<not> was_at_cap \<and> at_cap b1), b1))
      else if is_paid report
      then
        (let failed = streak b;
             owed_for = (case streak_since_unix b of None \<Rightarrow> 0 | Some since \<Rightarrow> max 0 (i64_saturating_sub now since));
             b1 = b\<lparr>streak := 0, streak_since_unix := None\<rparr>
         in (if failed = 0 then PacingPaid else Recovered failed owed_for, b1))
      else (Idle, b))"

fun observe_all :: "(RemitReport \<times> int) list \<Rightarrow> RemitBackoff \<Rightarrow> Pacing list \<times> RemitBackoff" where
  "observe_all [] b = ([], b)"
| "observe_all ((report, now) # rs) b =
     (case observe report now b of (p, b1) \<Rightarrow> case observe_all rs b1 of (ps, b2) \<Rightarrow> (p # ps, b2))"

section \<open>The delay is the capped power of two\<close>

lemma doubling_capped:
  "cap \<le> DURATION_MAX \<Longrightarrow> min (doubling n cap d) cap = min (d * 2 ^ n) cap"
proof (induction n arbitrary: d)
  case (Suc n)
  show ?case
  proof (cases "cap \<le> d")
    case True
    moreover have "d \<le> d * 2 ^ Suc n" by simp
    ultimately have "min (d * 2 ^ Suc n) cap = cap" by linarith
    then show ?thesis using True by simp
  next
    case False
    then have "min (doubling (Suc n) cap d) cap = min (min (d * 2) DURATION_MAX * 2 ^ n) cap"
      using Suc by (simp add: duration_saturating_mul_def)
    also have "\<dots> = min (d * 2 ^ Suc n) cap"
    proof (cases "d * 2 \<le> DURATION_MAX")
      case False
      have "DURATION_MAX \<le> DURATION_MAX * 2 ^ n" "d * 2 \<le> d * 2 * 2 ^ n" by simp_all
      moreover have "d * 2 * 2 ^ n = d * 2 ^ Suc n" by simp
      ultimately have "cap \<le> min (d * 2) DURATION_MAX * 2 ^ n" "cap \<le> d * 2 ^ Suc n"
        using False Suc.prems by (simp_all only: min_def split: if_splits) linarith+
      then show ?thesis by simp
    qed (simp add: mult.assoc)
    finally show ?thesis .
  qed
qed simp

text \<open>C34. The delay of a streak, computed by a loop of saturating doublings that stops at the cap, is
  the base times two to the streak, or the cap if that is less: for every streak a \<open>u32\<close>
  holds, and bounds up to the longest duration.\<close>

theorem computed_delay_is_capped_power:
  assumes "backoff_cap b \<le> DURATION_MAX"
  shows "computed_delay b = min (backoff_base b * 2 ^ unat (streak b)) (backoff_cap b)"
  unfolding computed_delay_def by (rule doubling_capped [OF assms])

theorem computed_delay_is_capped_power_witness:
  "computed_delay (new_backoff\<lparr>streak := 5\<rparr>) = from_secs 960 \<and>
   computed_delay (new_backoff\<lparr>streak := 6\<rparr>) = from_secs 1800"
proof -
  have "backoff_cap (new_backoff\<lparr>streak := n\<rparr>) \<le> DURATION_MAX" for n
    by (simp add: new_backoff_def with_bounds_def RETRY_BASE_def RETRY_CAP_def from_secs_def NANOS_PER_SEC_def DURATION_MAX_def)
  from computed_delay_is_capped_power [OF this, of 5] computed_delay_is_capped_power [OF this, of 6] show ?thesis
    by (simp add: new_backoff_def with_bounds_def RETRY_BASE_def RETRY_CAP_def from_secs_def NANOS_PER_SEC_def)
qed

section \<open>The jitter stays within the delay\<close>

lemma scaled_split:
  fixes s r e M N :: nat
  assumes "0 < M"
  shows "(s * e div M) * N + (s * e mod M) * N div M = s * e * N div M"
proof -
  let ?q = "s * e div M" and ?m = "s * e mod M"
  have "s * e * N div M = (?q * M + ?m) * N div M" by (simp only: div_mult_mod_eq)
  also have "(?q * M + ?m) * N = ?q * N * M + ?m * N" by (simp only: add_mult_distrib mult.assoc mult.commute [of M N])
  also have "(?q * N * M + ?m * N) div M = ?q * N + ?m * N div M" using assms by simp
  finally show ?thesis by simp
qed

lemma div_split_bounds:
  fixes a b M :: nat
  assumes "0 < M"
  shows "a div M + b div M \<le> (a + b) div M" and "(a + b) div M \<le> a div M + b div M + 1"
proof -
  have eq: "(a + b) div M = a div M + b div M + (a mod M + b mod M) div M" by (rule div_add1_eq)
  then show "a div M + b div M \<le> (a + b) div M" by simp
  have "a mod M + b mod M < 2 * M" using assms mod_less_divisor [of M a] mod_less_divisor [of M b] by linarith
  then have "(a mod M + b mod M) div M < 2" by (simp add: less_mult_imp_div_less)
  then show "(a + b) div M \<le> a div M + b div M + 1" using eq by linarith
qed

text \<open>The two parts of the scaled delay, before the fallbacks.\<close>

definition jitter_sum :: "nat \<Rightarrow> nat \<Rightarrow> nat" where
  "jitter_sum c e = c div NANOS_PER_SEC * e * NANOS_PER_SEC div U64_MAX + c mod NANOS_PER_SEC * e div U64_MAX"

lemma U64_MAX_pos: "0 < U64_MAX"
  by (simp add: U64_MAX_def)

lemma jitter_sum_bounds:
  "jitter_sum c e \<le> c * e div U64_MAX" "c * e div U64_MAX \<le> jitter_sum c e + 1"
proof -
  have "c * e = c div NANOS_PER_SEC * e * NANOS_PER_SEC + c mod NANOS_PER_SEC * e"
    by (metis add_mult_distrib div_mult_mod_eq mult.assoc mult.commute)
  then show "jitter_sum c e \<le> c * e div U64_MAX" "c * e div U64_MAX \<le> jitter_sum c e + 1"
    unfolding jitter_sum_def using div_split_bounds [OF U64_MAX_pos] by metis+
qed

lemma scale_le: "e \<le> U64_MAX \<Longrightarrow> c * e div U64_MAX \<le> c"
  using U64_MAX_pos div_le_mono [of "c * e" "c * U64_MAX" U64_MAX] by simp

lemma jittered_eq:
  assumes "c \<le> DURATION_MAX" and "e \<le> U64_MAX"
  shows "jittered c e = jitter_sum c e"
proof -
  let ?s = "c div NANOS_PER_SEC" and ?r = "c mod NANOS_PER_SEC"
  let ?carry = "(?s * e mod U64_MAX) * NANOS_PER_SEC div U64_MAX" and ?sub = "?r * e div U64_MAX"
  have "?s < 2 ^ 64" using assms(1) by (simp add: DURATION_MAX_def NANOS_PER_SEC_def)
  then have secs: "?s * e div U64_MAX \<le> U64_MAX" using scale_le [OF assms(2), of ?s] by (simp add: U64_MAX_def)
  have "?carry \<le> NANOS_PER_SEC"
    using scale_le [of "?s * e mod U64_MAX" NANOS_PER_SEC] U64_MAX_pos by (simp add: mult.commute less_imp_le)
  moreover have "?sub \<le> ?r" by (rule scale_le [OF assms(2)])
  moreover have "?r < NANOS_PER_SEC" by (simp add: NANOS_PER_SEC_def)
  moreover have "NANOS_PER_SEC + NANOS_PER_SEC \<le> U64_MAX" by (simp add: U64_MAX_def NANOS_PER_SEC_def)
  ultimately have nanos: "?carry + ?sub \<le> U64_MAX" by linarith
  have total: "?s * e div U64_MAX * NANOS_PER_SEC + (?carry + ?sub) = jitter_sum c e"
    using scaled_split [OF U64_MAX_pos, of ?s e NANOS_PER_SEC] by (simp add: jitter_sum_def)
  have "jitter_sum c e \<le> c" using jitter_sum_bounds(1) [of c e] scale_le [OF assms(2), of c] by linarith
  then show ?thesis
    using secs nanos total assms(1)
    by (simp add: jittered_def Let_def u64_or_max_def duration_checked_add_def from_secs_def flip: NANOS_PER_SEC_def)
qed

text \<open>The jitter is what it says: the delay slept is the drawn fraction of the computed delay, never
  above it and never more than one nanosecond below the exact fraction; nothing for the smallest
  draw and the whole delay for the largest; the first delay after boot is between the base and
  twice the base; and no product of the computation leaves 128 bits.\<close>

theorem jitter_is_the_drawn_fraction:
  assumes "computed \<le> DURATION_MAX" and "entropy \<le> U64_MAX"
  shows "jittered computed entropy \<le> computed * entropy div U64_MAX \<and>
    computed * entropy div U64_MAX \<le> jittered computed entropy + 1 \<and>
    jittered computed entropy \<le> computed \<and> jittered computed 0 = 0 \<and> jittered computed U64_MAX = computed \<and>
    computed \<le> boot_delay_for computed entropy \<and> boot_delay_for computed entropy \<le> 2 * computed \<and>
    computed div NANOS_PER_SEC * entropy < 2 ^ 128 \<and>
    (computed div NANOS_PER_SEC * entropy mod U64_MAX) * 1000000000 < 2 ^ 128 \<and>
    computed mod NANOS_PER_SEC * entropy < 2 ^ 128"
proof -
  have le: "jittered computed entropy \<le> computed"
    using jitter_sum_bounds(1) [of computed entropy] scale_le [OF assms(2), of computed] by (simp add: jittered_eq assms)
  have "jittered computed 0 = 0" using jittered_eq [OF assms(1), of 0] by (simp add: jitter_sum_def)
  moreover have "jittered computed U64_MAX = computed"
  proof -
    have "a * U64_MAX * n div U64_MAX = a * n" for a n
      using U64_MAX_pos by (metis mult.assoc mult.commute nonzero_mult_div_cancel_left not_less_zero)
    then show ?thesis using jittered_eq [OF assms(1), of U64_MAX] U64_MAX_pos by (simp add: jitter_sum_def)
  qed
  moreover have "computed \<le> boot_delay_for computed entropy" "boot_delay_for computed entropy \<le> 2 * computed"
    using le assms(1) by (simp_all add: boot_delay_for_def duration_saturating_add_def)
  moreover have "computed div NANOS_PER_SEC * entropy < 2 ^ 128"
  proof -
    have "computed div NANOS_PER_SEC \<le> U64_MAX" using assms(1) by (simp add: DURATION_MAX_def NANOS_PER_SEC_def U64_MAX_def)
    then have "computed div NANOS_PER_SEC * entropy \<le> U64_MAX * U64_MAX" using assms(2) by (rule mult_le_mono)
    then show ?thesis by (simp add: U64_MAX_def)
  qed
  moreover have "(computed div NANOS_PER_SEC * entropy mod U64_MAX) * 1000000000 < 2 ^ 128"
    using mod_less_divisor [OF U64_MAX_pos, of "computed div NANOS_PER_SEC * entropy"] by (simp add: U64_MAX_def)
  moreover have "computed mod NANOS_PER_SEC * entropy < 2 ^ 128"
  proof -
    have "computed mod NANOS_PER_SEC \<le> NANOS_PER_SEC" by (simp add: NANOS_PER_SEC_def less_imp_le)
    then have "computed mod NANOS_PER_SEC * entropy \<le> NANOS_PER_SEC * U64_MAX" using assms(2) by (rule mult_le_mono)
    then show ?thesis by (simp add: U64_MAX_def NANOS_PER_SEC_def)
  qed
  ultimately show ?thesis using le jitter_sum_bounds [of computed entropy] by (simp add: jittered_eq assms)
qed

theorem jitter_is_the_drawn_fraction_witness:
  "jittered RETRY_BASE (2 ^ 63) \<le> RETRY_BASE \<and> RETRY_BASE \<le> boot_delay_for RETRY_BASE (2 ^ 63)"
proof -
  have "RETRY_BASE \<le> DURATION_MAX" by (simp add: RETRY_BASE_def from_secs_def NANOS_PER_SEC_def DURATION_MAX_def)
  moreover have "2 ^ 63 \<le> U64_MAX" by (simp add: U64_MAX_def)
  ultimately show ?thesis using jitter_is_the_drawn_fraction [of RETRY_BASE "2 ^ 63"] by blast
qed

section \<open>The streak\<close>

lemma observe_all_snoc:
  "observe_all (rs @ [(report, now)]) b =
     (case observe_all rs b of (ps, b1) \<Rightarrow> case observe report now b1 of (p, b2) \<Rightarrow> (ps @ [p], b2))"
  by (induction rs b rule: observe_all.induct) (auto split: prod.splits)

definition since_payment :: "(RemitReport \<times> int) list \<Rightarrow> (RemitReport \<times> int) list" where
  "since_payment rs = filter (\<lambda>x. is_failure (fst x)) (takeWhile (\<lambda>x. \<not> is_paid (fst x)) (rev rs))"

lemma failure_not_paid: "is_failure r \<Longrightarrow> \<not> is_paid r"
  by (auto simp: is_failure_def is_paid_def split: sum.splits RemitOutcome.splits)

lemma since_payment_snoc:
  "since_payment (rs @ [x]) =
     (if is_failure (fst x) then x # since_payment rs else if is_paid (fst x) then [] else since_payment rs)"
proof -
  have "rev (rs @ [x]) = x # rev rs" by simp
  then show ?thesis
    unfolding since_payment_def
    by (cases "is_failure (fst x)"; cases "is_paid (fst x)") (simp_all only: takeWhile.simps filter.simps failure_not_paid if_True if_False not_False_eq_True not_True_eq_False)
qed

lemma since_payment_length: "length (since_payment rs) \<le> length rs"
proof -
  have "length (since_payment rs) \<le> length (takeWhile (\<lambda>x. \<not> is_paid (fst x)) (rev rs))" by (simp add: since_payment_def)
  also have "\<dots> \<le> length rs" using length_takeWhile_le [of "\<lambda>x. \<not> is_paid (fst x)" "rev rs"] by simp
  finally show ?thesis .
qed

lemma observe_streak:
  assumes "length rs < 2 ^ 32 - 1" and "observe_all rs (with_bounds base cap) = (ps, b)"
  shows "backoff_base b = base \<and> backoff_cap b = max cap base \<and> unat (streak b) = length (since_payment rs) \<and>
    streak_since_unix b = (case since_payment rs of [] \<Rightarrow> None | fs \<Rightarrow> Some (snd (last fs)))"
  using assms
proof (induction rs arbitrary: ps b rule: rev_induct)
  case Nil
  then show ?case by (auto simp: with_bounds_def since_payment_def)
next
  case (snoc x rs)
  obtain report now where x: "x = (report, now)" by (cases x)
  obtain ps1 b1 where before: "observe_all rs (with_bounds base cap) = (ps1, b1)" by (cases "observe_all rs (with_bounds base cap)")
  obtain p where obs: "observe report now b1 = (p, b)"
    using snoc.prems(2) by (auto simp: x observe_all_snoc before split: prod.splits)
  have IH: "backoff_base b1 = base" "backoff_cap b1 = max cap base" "unat (streak b1) = length (since_payment rs)"
    "streak_since_unix b1 = (case since_payment rs of [] \<Rightarrow> None | fs \<Rightarrow> Some (snd (last fs)))"
    using snoc.IH [OF _ before] snoc.prems(1) by auto
  have n: "unat (saturating_add (streak b1) 1) = length (since_payment rs) + 1"
    using IH(3) since_payment_length [of rs] snoc.prems(1) by (simp add: unat_saturating_add)
  then have one: "saturating_add (streak b1) 1 = 1 \<longleftrightarrow> since_payment rs = []"
    by (simp add: word_unat_eq_iff)
  show ?case
    using obs IH n one
    by (auto simp: observe_def Let_def x since_payment_snoc split: if_splits list.splits)
qed

text \<open>The pacing knows exactly the failures since the last payment: after any sequence of reports
  the streak is the number of failures since the last payment, steady-state refusals and dry runs
  neither counted nor resetting it, the recorded start is the time of the first of them, and the
  next delay is never above the base doubled once for each of them, nor above the cap.\<close>

theorem backoff_counts_failures_since_payment:
  assumes "length rs < 2 ^ 32 - 1" and "observe_all rs (with_bounds base cap) = (ps, b)" and "max cap base \<le> DURATION_MAX"
    and "entropy \<le> U64_MAX"
  shows "unat (streak b) = length (since_payment rs) \<and>
    streak_since_unix b = (case since_payment rs of [] \<Rightarrow> None | fs \<Rightarrow> Some (snd (last fs))) \<and>
    next_delay b entropy \<le> min (base * 2 ^ length (since_payment rs)) (max cap base)"
proof -
  note st = observe_streak [OF assms(1,2)]
  have d: "computed_delay b = min (base * 2 ^ length (since_payment rs)) (max cap base)"
    using st doubling_capped [of "max cap base" "unat (streak b)" base] assms(3) by (simp add: computed_delay_def)
  then have "computed_delay b \<le> DURATION_MAX" using assms(3) by linarith
  then have "next_delay b entropy \<le> computed_delay b"
    using jitter_sum_bounds(1) [of "computed_delay b" entropy] scale_le [OF assms(4), of "computed_delay b"]
    by (simp add: next_delay_def jittered_eq assms(4))
  with st d show ?thesis by simp
qed

theorem backoff_counts_failures_since_payment_witness:
  "streak (snd (observe_all [(Inl ''e'', 5), (Inr (Paid ''r'' 1 0), 6), (Inl ''e'', 7), (Inr (Refused NothingUnremitted), 8),
      (Inl ''e'', 9)] new_backoff)) = 2"
proof -
  let ?rs = "[(Inl ''e'', 5), (Inr (Paid ''r'' 1 0), 6), (Inl ''e'', 7), (Inr (Refused NothingUnremitted), 8), (Inl ''e'', 9)]
    :: (RemitReport \<times> int) list"
  have "max RETRY_CAP RETRY_BASE \<le> DURATION_MAX"
    by (simp add: RETRY_BASE_def RETRY_CAP_def from_secs_def NANOS_PER_SEC_def DURATION_MAX_def)
  from backoff_counts_failures_since_payment [OF _ _ this, of ?rs "fst (observe_all ?rs new_backoff)" "snd (observe_all ?rs new_backoff)" 0]
  have "unat (streak (snd (observe_all ?rs new_backoff))) = length (since_payment ?rs)" by (simp add: new_backoff_def)
  also have "\<dots> = 2" by (simp add: since_payment_def is_failure_def is_paid_def)
  finally show ?thesis by (simp add: word_unat_eq_iff)
qed

section \<open>One attempt at a time\<close>

text \<open>The permit flag, \<open>compare_exchange(false, true)\<close> and the store of the drop; beside it the
  permits that are held, by the paths that hold them.\<close>

definition try_acquire :: "bool \<Rightarrow> bool \<times> bool" where
  "try_acquire flag = (if flag then (False, flag) else (True, True))"

definition drop_permit :: "bool \<Rightarrow> bool" where
  "drop_permit flag = False"

inductive flight :: "bool \<Rightarrow> nat list \<Rightarrow> bool" where
  new: "flight False []"
| acquire: "flight flag held \<Longrightarrow> try_acquire flag = (True, flag') \<Longrightarrow> flight flag' (held @ [p])"
| skip: "flight flag held \<Longrightarrow> try_acquire flag = (False, flag') \<Longrightarrow> flight flag' held"
| drop: "flight flag held \<Longrightarrow> p \<in> set held \<Longrightarrow> flight (drop_permit flag) (remove1 p held)"

lemma single_flight: "flight flag held \<Longrightarrow> length held = (if flag then 1 else 0)"
  by (induction rule: flight.induct) (auto simp: try_acquire_def drop_permit_def length_remove1 split: if_splits)

end
