(* ===== verification/Seller_Jobs.thy ===== *)
theory Seller_Jobs
  imports Remit_Store Session
begin

text \<open>
  The rest of the seller's state database, \<^verbatim>\<open>seller_node/store.rs\<close>: offers, claims,
  awards, jobs, deliveries, breadcrumbs, pins, checks and the outbox of events to publish. The tables
  of the platform fee and the jobs are the field \<open>money\<close>, which \<open>collect_receipt\<close>
  and \<open>fail_job\<close> of \<open>Remit_Store\<close> change. A call first draws from the same
  schedule of SQLite failures. JSON columns hold what the codec of the argument wrote. Trimming knows
  the ASCII white space. Rows are never deleted, so an AUTOINCREMENT id is the number of the row.
\<close>

section \<open>Rows\<close>

datatype PaymentMode = PaySat | PayNone

definition PAYMENT_NONE :: string where "PAYMENT_NONE = ''none''"

fun PaymentMode_as_wire :: "PaymentMode \<Rightarrow> string" where
  "PaymentMode_as_wire PaySat = ''sat''"
| "PaymentMode_as_wire PayNone = PAYMENT_NONE"

definition payment_mode_from_column :: "string option \<Rightarrow> PaymentMode" where
  "payment_mode_from_column stored = (if map_option trim stored = Some PAYMENT_NONE then PayNone else PaySat)"

record CapabilityRequest =
  cr_requested_agent :: "string option"
  requested_harness_family :: "string option"
  requested_model :: "string option"
  required_capabilities :: "string list"

record store_codec =
  draft_to_json :: "EventDraft \<Rightarrow> string + string"
  draft_from_json :: "string \<Rightarrow> string + EventDraft"
  modes_to_json :: "string list \<Rightarrow> string option"
  modes_from_json :: "string \<Rightarrow> string list option"
  capability_to_json :: "CapabilityRequest \<Rightarrow> string"
  capability_from_json :: "string \<Rightarrow> string + CapabilityRequest"

record Offer =
  offer_id :: string
  of_buyer_pubkey :: string
  of_amount_sats :: u64
  of_unit :: string
  task :: string
  deadline_unix :: int
  targeted :: bool
  requested_agent :: "string option"
  capability_request :: "CapabilityRequest option"
  of_output :: "string option"
  payment_mode :: PaymentMode
  accepts_delivery :: "string list"

record offer_row =
  or_buyer_pubkey :: string
  or_amount_sats :: int
  or_unit :: string
  or_task :: string
  or_deadline_unix :: int
  or_targeted :: int
  or_created_at_unix :: int
  or_requested_agent :: "string option"
  or_output :: "string option"
  or_payment :: "string option"
  or_accepts_delivery :: "string option"
  or_capability_request :: "string option"

record claim_row =
  cl_offer_id :: string
  cl_state :: string
  cl_creq :: string
  cl_created_at_unix :: int
  cl_updated_at_unix :: int

record award_entry =
  ae_job_id :: string
  ae_buyer_pubkey :: string
  ae_created_at_unix :: int

record delivery_row =
  dl_result_ref :: string
  delivered_at_unix :: int
  dl_payment :: "string option"

record receive_row =
  pr_buyer_pubkey :: string
  pr_mint :: string
  pr_amount_sats :: int
  pr_created_at_unix :: int

record outbox_row =
  ob_id :: int
  ob_dedup_key :: string
  ob_draft_json :: string
  ob_created_at_unix :: int
  ob_state :: string
  ob_attempts :: int
  ob_expires_at_unix :: int
  ob_published_event_id :: "string option"
  ob_updated_at_unix :: int

record OutboxItem =
  oi_id :: int
  oi_dedup_key :: string
  oi_draft :: EventDraft
  oi_created_at_unix :: int
  oi_attempts :: int
  oi_expires_at_unix :: int

record ContributionPin =
  owner_pubkey :: string
  clone_url :: string
  base_branch :: string
  base_oid :: string

datatype EnvKind = NixFlake | ContainerImage

record JobChecks =
  declaration_bytes :: "u8 list"
  env_kind :: EnvKind
  env_lock_ref :: string
  captured_at_unix :: int

fun EnvKind_as_str :: "EnvKind \<Rightarrow> string" where
  "EnvKind_as_str NixFlake = ''nix-flake''"
| "EnvKind_as_str ContainerImage = ''container-image''"

definition EnvKind_from_wire :: "string \<Rightarrow> EnvKind option" where
  "EnvKind_from_wire s =
     (if s = ''nix-flake'' then Some NixFlake else if s = ''container-image'' then Some ContainerImage else None)"

record check_row =
  ck_declaration_bytes :: "u8 list"
  ck_env_kind :: string
  ck_env_lock_ref :: string
  ck_captured_at_unix :: int

record session_row =
  ss_buyer_pubkey :: string
  ss_container :: string
  ss_holder :: "string option"
  ss_holder_started_at :: "string option"
  ss_image_id :: string
  ss_orchestrator_version :: string
  ss_acp_session_id :: "string option"
  ss_harness :: string
  ss_model :: "string option"
  ss_turn :: u32
  ss_last_turn_at :: int
  ss_disk_bytes :: int
  ss_state :: string
  ss_proxy_host :: "string option"
  ss_base_oid :: "string option"
  ss_holder_egress_dev :: "string option"
  ss_holder_classifier :: "string option"
  ss_holder_proxy_ports :: "string option"

record turn_row =
  tn_job_id :: string
  tn_turn :: u32
  tn_deadline_unix :: int
  tn_result_id :: "string option"
  tn_delivery_oid :: "string option"
  tn_state :: string
  tn_created_at_unix :: int
  tn_updated_at_unix :: int
  tn_text :: "string option"

datatype JobState = Awarded | Executing | Delivered | JobPaid | JobFailed

definition JobState_ALL :: "JobState list" where
  "JobState_ALL = [Awarded, Executing, Delivered, JobPaid, JobFailed]"

definition JobState_parse :: "string \<Rightarrow> JobState option" where
  "JobState_parse raw =
     (if raw = ''awarded'' then Some Awarded
      else if raw = ''executing'' then Some Executing
      else if raw = ''delivered'' then Some Delivered
      else if raw = ''paid'' then Some JobPaid
      else if raw = ''failed'' then Some JobFailed
      else None)"

fun JobState_as_str :: "JobState \<Rightarrow> string" where
  "JobState_as_str Awarded = ''awarded''"
| "JobState_as_str Executing = ''executing''"
| "JobState_as_str Delivered = ''delivered''"
| "JobState_as_str JobPaid = ''paid''"
| "JobState_as_str JobFailed = ''failed''"

definition is_finished :: "JobState \<Rightarrow> bool" where
  "is_finished s \<longleftrightarrow> s \<in> {Delivered, JobPaid, JobFailed}"

definition occupies_execution_slot :: "JobState \<Rightarrow> bool" where
  "occupies_execution_slot s \<longleftrightarrow> s \<in> {Awarded, Executing}"

datatype Claimed = ClaimedNew | ClaimedIdempotent

datatype AwardedOutcome = AwardedNew | AwardedDuplicate | AwardedNoClaim

record node_db =
  money :: seller_db
  offers :: "(string \<times> offer_row) list"
  claims :: "(string \<times> claim_row) list"
  awards :: "(string \<times> award_entry) list"
  deliveries :: "(string \<times> delivery_row) list"
  pending_receive :: "((string \<times> string) \<times> receive_row) list"
  outbox :: "outbox_row list"
  contribution_pins :: "(string \<times> ContributionPin) list"
  job_checks_table :: "(string \<times> check_row) list"
  seller_meta :: "(string \<times> string) list"
  sessions_table :: "(string \<times> session_row) list"
  session_turns :: "(string \<times> turn_row) list"

definition node_try :: "(node_db \<Rightarrow> string + ('a \<times> node_db)) \<Rightarrow> node_db \<Rightarrow> (string + 'a) \<times> node_db" where
  "node_try f db =
     (case sdb_call (money db) of
        (Inl e, m) \<Rightarrow> (Inl e, db\<lparr>money := m\<rparr>)
      | (Inr _, m) \<Rightarrow>
          (case f (db\<lparr>money := m\<rparr>) of
             Inl e \<Rightarrow> (Inl e, db\<lparr>money := m\<rparr>)
           | Inr (r, db') \<Rightarrow> (Inr r, db')))"

definition node_read :: "(node_db \<Rightarrow> string + 'a) \<Rightarrow> node_db \<Rightarrow> (string + 'a) \<times> node_db" where
  "node_read f = node_try (\<lambda>db. try_bind (f db) (\<lambda>x. Inr (x, db)))"

definition node_write :: "(node_db \<Rightarrow> node_db) \<Rightarrow> node_db \<Rightarrow> (string + unit) \<times> node_db" where
  "node_write f = node_try (\<lambda>db. Inr ((), f db))"

definition on_money :: "(seller_db \<Rightarrow> 'a \<times> seller_db) \<Rightarrow> node_db \<Rightarrow> 'a \<times> node_db" where
  "on_money m db = (case m (money db) of (r, m') \<Rightarrow> (r, db\<lparr>money := m'\<rparr>))"

definition update_job :: "string \<Rightarrow> (job_row \<Rightarrow> job_row) \<Rightarrow> node_db \<Rightarrow> node_db" where
  "update_job job f db = db\<lparr>money := (money db)\<lparr>jobs := update_row job f (jobs (money db))\<rparr>\<rparr>"

section \<open>Offers\<close>

definition accepts_delivery_to_column :: "store_codec \<Rightarrow> string list \<Rightarrow> string option" where
  "accepts_delivery_to_column c modes = (if modes = [] then None else modes_to_json c modes)"

definition accepts_delivery_from_column :: "store_codec \<Rightarrow> string option \<Rightarrow> string list" where
  "accepts_delivery_from_column c raw =
     (case raw of
        None \<Rightarrow> []
      | Some r \<Rightarrow>
          (let t = trim r in
           if \<not> starts_with ''['' t then []
           else (case modes_from_json c t of None \<Rightarrow> [] | Some modes \<Rightarrow> modes)))"

definition capability_request_from_column :: "store_codec \<Rightarrow> string option \<Rightarrow> string + CapabilityRequest option" where
  "capability_request_from_column c v =
     (case v of None \<Rightarrow> Inr None | Some s \<Rightarrow> try_bind (capability_from_json c s) (\<lambda>r. Inr (Some r)))"

definition record_offer :: "store_codec \<Rightarrow> Offer \<Rightarrow> int \<Rightarrow> node_db \<Rightarrow> (string + bool) \<times> node_db" where
  "record_offer c offer now =
     node_try (\<lambda>db. Inr
       (if map_of (offers db) (offer_id offer) \<noteq> None \<or> as_i64 (of_amount_sats offer) < 0 then (False, db)
        else (True, db\<lparr>offers := offers db @ [(offer_id offer,
          \<lparr>or_buyer_pubkey = of_buyer_pubkey offer, or_amount_sats = as_i64 (of_amount_sats offer), or_unit = of_unit offer,
           or_task = task offer, or_deadline_unix = deadline_unix offer, or_targeted = (if targeted offer then 1 else 0),
           or_created_at_unix = now, or_requested_agent = requested_agent offer, or_output = of_output offer,
           or_payment = Some (PaymentMode_as_wire (payment_mode offer)),
           or_accepts_delivery = accepts_delivery_to_column c (accepts_delivery offer),
           or_capability_request = map_option (capability_to_json c) (capability_request offer)\<rparr>)]\<rparr>)))"

definition offer_facts :: "string \<Rightarrow> node_db \<Rightarrow> (string + (string \<times> u64 \<times> string) option) \<times> node_db" where
  "offer_facts i = node_read (\<lambda>db. Inr (map_option
     (\<lambda>r. (or_buyer_pubkey r, word_of_int (or_amount_sats r), or_unit r)) (map_of (offers db) i)))"

definition read_offer :: "store_codec \<Rightarrow> string \<Rightarrow> offer_row \<Rightarrow> string + Offer" where
  "read_offer c i r =
     try_bind (capability_request_from_column c (or_capability_request r)) (\<lambda>cap. Inr
       \<lparr>offer_id = i, of_buyer_pubkey = or_buyer_pubkey r, of_amount_sats = word_of_int (or_amount_sats r),
        of_unit = or_unit r, task = or_task r, deadline_unix = or_deadline_unix r, targeted = (or_targeted r \<noteq> 0),
        requested_agent = or_requested_agent r, capability_request = cap, of_output = or_output r,
        payment_mode = payment_mode_from_column (or_payment r),
        accepts_delivery = accepts_delivery_from_column c (or_accepts_delivery r)\<rparr>)"

definition offer_of :: "store_codec \<Rightarrow> string \<Rightarrow> node_db \<Rightarrow> (string + Offer option) \<times> node_db" where
  "offer_of c i = node_read (\<lambda>db. case map_of (offers db) i of
     None \<Rightarrow> Inr None | Some r \<Rightarrow> try_bind (read_offer c i r) (\<lambda>x. Inr (Some x)))"

definition record_contribution_pin :: "string \<Rightarrow> ContributionPin \<Rightarrow> int \<Rightarrow> node_db \<Rightarrow> (string + bool) \<times> node_db" where
  "record_contribution_pin job p now =
     node_try (\<lambda>db. Inr
       (if map_of (contribution_pins db) job \<noteq> None then (False, db)
        else (True, db\<lparr>contribution_pins := contribution_pins db @ [(job, p)]\<rparr>)))"

definition contribution_pin :: "string \<Rightarrow> node_db \<Rightarrow> (string + ContributionPin option) \<times> node_db" where
  "contribution_pin job = node_read (\<lambda>db. Inr (map_of (contribution_pins db) job))"

definition record_job_checks ::
  "string \<Rightarrow> u8 list \<Rightarrow> EnvKind \<Rightarrow> string \<Rightarrow> int \<Rightarrow> node_db \<Rightarrow> (string + unit) \<times> node_db"
where
  "record_job_checks job bytes kind ref now =
     node_write (\<lambda>db. db\<lparr>job_checks_table := AList.update job
       \<lparr>ck_declaration_bytes = bytes, ck_env_kind = EnvKind_as_str kind, ck_env_lock_ref = ref, ck_captured_at_unix = now\<rparr>
       (job_checks_table db)\<rparr>)"

definition job_checks :: "string \<Rightarrow> node_db \<Rightarrow> (string + JobChecks option) \<times> node_db" where
  "job_checks job = node_read (\<lambda>db. case map_of (job_checks_table db) job of
     None \<Rightarrow> Inr None
   | Some r \<Rightarrow> try_bind (ok_or ''unknown persisted env_kind'' (EnvKind_from_wire (ck_env_kind r))) (\<lambda>kind. Inr (Some
       \<lparr>declaration_bytes = ck_declaration_bytes r, env_kind = kind, env_lock_ref = ck_env_lock_ref r,
        captured_at_unix = ck_captured_at_unix r\<rparr>)))"

definition mark_meta :: "string \<Rightarrow> node_db \<Rightarrow> (string + unit) \<times> node_db" where
  "mark_meta key =
     node_write (\<lambda>db. if map_of (seller_meta db) key \<noteq> None then db else db\<lparr>seller_meta := seller_meta db @ [(key, ''1'')]\<rparr>)"

definition mark_public_v2_offer :: "string \<Rightarrow> node_db \<Rightarrow> (string + unit) \<times> node_db" where
  "mark_public_v2_offer i = mark_meta (''public-v2-offer:'' @ i)"

definition mark_private_offer :: "string \<Rightarrow> node_db \<Rightarrow> (string + unit) \<times> node_db" where
  "mark_private_offer i = mark_meta (''private-offer:'' @ i)"

section \<open>Claims, awards and jobs\<close>

definition enqueue_event ::
  "store_codec \<Rightarrow> string \<Rightarrow> EventDraft \<Rightarrow> int \<Rightarrow> int \<Rightarrow> int \<Rightarrow> node_db \<Rightarrow> string + node_db"
where
  "enqueue_event c key draft created expires now db =
     try_bind (draft_to_json c draft) (\<lambda>json. Inr
       (if \<exists>r \<in> set (outbox db). ob_dedup_key r = key then db
        else db\<lparr>outbox := outbox db @
          [\<lparr>ob_id = int (length (outbox db)) + 1, ob_dedup_key = key, ob_draft_json = json, ob_created_at_unix = created,
            ob_state = ''pending'', ob_attempts = 0, ob_expires_at_unix = expires, ob_published_event_id = None,
            ob_updated_at_unix = now\<rparr>]\<rparr>))"

definition claim_state :: "string \<Rightarrow> node_db \<Rightarrow> (string \<times> string) option" where
  "claim_state job db = map_option (\<lambda>r. (cl_state r, cl_offer_id r)) (map_of (claims db) job)"

definition claim_and_enqueue ::
  "store_codec \<Rightarrow> string \<Rightarrow> string \<Rightarrow> string option \<Rightarrow> EventDraft \<Rightarrow> int \<Rightarrow> int \<Rightarrow> int \<Rightarrow> node_db \<Rightarrow> (string + Claimed) \<times> node_db"
where
  "claim_and_enqueue c job offer creq draft created expires now =
     node_try (\<lambda>db.
       if claim_state job db \<noteq> None then Inr (ClaimedIdempotent, db)
       else
         (let db1 = db\<lparr>claims := claims db @ [(job,
                \<lparr>cl_offer_id = offer, cl_state = ''claimed'', cl_creq = (case creq of None \<Rightarrow> [] | Some q \<Rightarrow> q),
                 cl_created_at_unix = now, cl_updated_at_unix = now\<rparr>)]\<rparr>
          in try_bind (enqueue_event c (''claim:'' @ job) draft created expires now db1) (\<lambda>db2. Inr (ClaimedNew, db2))))"

definition release_claim :: "string \<Rightarrow> int \<Rightarrow> node_db \<Rightarrow> (string + nat) \<times> node_db" where
  "release_claim job now =
     node_try (\<lambda>db. Inr (case map_of (claims db) job of
        None \<Rightarrow> (0, db)
      | Some r \<Rightarrow>
          if cl_state r = ''claimed''
          then (1, db\<lparr>claims := AList.update job (r\<lparr>cl_state := ''released'', cl_updated_at_unix := now\<rparr>) (claims db)\<rparr>)
          else (0, db)))"

definition offers_awaiting_claim :: "store_codec \<Rightarrow> int \<Rightarrow> node_db \<Rightarrow> (string + Offer list) \<times> node_db" where
  "offers_awaiting_claim c now =
     node_read (\<lambda>db. try_fold (\<lambda>os (i, r). try_bind (read_offer c i r) (\<lambda>x. Inr (os @ [x]))) []
       (filter (\<lambda>(i, r). or_deadline_unix r > now \<and> map_of (claims db) i = None) (offers db)))"

definition claim_row_state :: "string \<Rightarrow> node_db \<Rightarrow> (string + string option) \<times> node_db" where
  "claim_row_state job = node_read (\<lambda>db. Inr (map_option cl_state (map_of (claims db) job)))"

definition record_award :: "string \<Rightarrow> string \<Rightarrow> string \<Rightarrow> int \<Rightarrow> node_db \<Rightarrow> (string + AwardedOutcome) \<times> node_db" where
  "record_award award job buyer now =
     node_try (\<lambda>db. Inr
       (if map_of (awards db) award \<noteq> None then (AwardedDuplicate, db)
        else
          (let db1 = db\<lparr>awards := awards db @ [(award, \<lparr>ae_job_id = job, ae_buyer_pubkey = buyer, ae_created_at_unix = now\<rparr>)]\<rparr>
           in case claim_state job db1 of
                None \<Rightarrow> (AwardedNoClaim, db1)
              | Some (_, offer) \<Rightarrow>
                  (AwardedNew, db1\<lparr>
                     claims := update_row job (\<lambda>r. r\<lparr>cl_state := ''awarded'', cl_updated_at_unix := now\<rparr>) (claims db1),
                     money := (money db1)\<lparr>jobs :=
                       (if map_of (jobs (money db1)) job \<noteq> None then jobs (money db1)
                        else jobs (money db1) @ [(job, \<lparr>jb_offer_id = offer, jb_agent_name = None, jb_state = ''awarded'',
                          jb_created_at_unix = now, jb_updated_at_unix = now, jb_pushed_commit = None,
                          jb_settled_elsewhere_at_unix = None\<rparr>)])\<rparr>\<rparr>))))"

text \<open>The first row of \<open>ORDER BY created_at_unix, award_id LIMIT 1\<close>.\<close>

definition first_award :: "string \<Rightarrow> node_db \<Rightarrow> award_entry option" where
  "first_award job db =
     (case sort_key (\<lambda>(_, r). ae_created_at_unix r) (sort_key fst (filter (\<lambda>(_, r). ae_job_id r = job) (awards db))) of
        [] \<Rightarrow> None | (_, r) # _ \<Rightarrow> Some r)"

definition job_award_buyer :: "string \<Rightarrow> node_db \<Rightarrow> (string + string option) \<times> node_db" where
  "job_award_buyer job = node_read (\<lambda>db. Inr (map_option ae_buyer_pubkey (first_award job db)))"

definition job_award_time :: "string \<Rightarrow> node_db \<Rightarrow> (string + int option) \<times> node_db" where
  "job_award_time job = node_read (\<lambda>db. Inr (map_option ae_created_at_unix (first_award job db)))"

definition offers_awarded_elsewhere :: "int \<Rightarrow> node_db \<Rightarrow> (string + (string \<times> string \<times> int) list) \<times> node_db" where
  "offers_awarded_elsewhere now =
     node_read (\<lambda>db. Inr (map (\<lambda>(i, r). (i, or_buyer_pubkey r, or_deadline_unix r))
       (filter (\<lambda>(i, r). or_deadline_unix r > now \<and> map_of (claims db) i = None \<and>
          (\<exists>a \<in> set (awards db). ae_job_id (snd a) = i)) (offers db))))"

definition assign_agent :: "string \<Rightarrow> string \<Rightarrow> node_db \<Rightarrow> (string + unit) \<times> node_db" where
  "assign_agent job agent = node_write (update_job job (\<lambda>r. r\<lparr>jb_agent_name := Some agent\<rparr>))"

definition mark_executing :: "string \<Rightarrow> int \<Rightarrow> node_db \<Rightarrow> (string + unit) \<times> node_db" where
  "mark_executing job now =
     node_write (update_job job (\<lambda>r. if jb_state r = ''awarded''
       then r\<lparr>jb_state := ''executing'', jb_updated_at_unix := now\<rparr> else r))"

definition mark_pushed :: "string \<Rightarrow> string \<Rightarrow> int \<Rightarrow> node_db \<Rightarrow> (string + unit) \<times> node_db" where
  "mark_pushed job commit now =
     node_write (update_job job (\<lambda>r. r\<lparr>jb_pushed_commit := Some commit, jb_updated_at_unix := now\<rparr>))"

definition mark_settled_elsewhere :: "string \<Rightarrow> int \<Rightarrow> node_db \<Rightarrow> (string + unit) \<times> node_db" where
  "mark_settled_elsewhere job now =
     node_write (update_job job (\<lambda>r. r\<lparr>jb_settled_elsewhere_at_unix := Some now, jb_updated_at_unix := now\<rparr>))"

definition deliver_and_enqueue ::
  "store_codec \<Rightarrow> string \<Rightarrow> string \<Rightarrow> PaymentMode \<Rightarrow> EventDraft \<Rightarrow> int \<Rightarrow> int \<Rightarrow> int \<Rightarrow> node_db \<Rightarrow> (string + bool) \<times> node_db"
where
  "deliver_and_enqueue c job ref mode draft created expires now =
     node_try (\<lambda>db.
       if map_of (deliveries db) job \<noteq> None then Inr (False, db)
       else
         (let db1 = update_job job (\<lambda>r. r\<lparr>jb_state := ''delivered'', jb_updated_at_unix := now\<rparr>)
                (db\<lparr>deliveries := deliveries db @ [(job,
                   \<lparr>dl_result_ref = ref, delivered_at_unix = now, dl_payment = Some (PaymentMode_as_wire mode)\<rparr>)]\<rparr>)
          in try_bind (enqueue_event c (''result:'' @ job) draft created expires now db1) (\<lambda>db2. Inr (True, db2))))"

definition node_fail_job :: "string \<Rightarrow> int \<Rightarrow> node_db \<Rightarrow> (string + nat) \<times> node_db" where
  "node_fail_job job now = on_money (fail_job job now)"

definition node_collect_receipt ::
  "string \<Rightarrow> string \<Rightarrow> u64 \<Rightarrow> ReceiptFees \<Rightarrow> int \<Rightarrow> node_db \<Rightarrow> (string + Collected) \<times> node_db"
where
  "node_collect_receipt receipt job amount fees now = on_money (collect_receipt receipt job amount fees now)"

definition append_pending_receive ::
  "string \<Rightarrow> string \<Rightarrow> string \<Rightarrow> string \<Rightarrow> u64 \<Rightarrow> int \<Rightarrow> node_db \<Rightarrow> (string + unit) \<times> node_db"
where
  "append_pending_receive job hash buyer mint amount now =
     node_write (\<lambda>db. if map_of (pending_receive db) (job, hash) \<noteq> None \<or> as_i64 amount < 0 then db
       else db\<lparr>pending_receive := pending_receive db @ [((job, hash),
         \<lparr>pr_buyer_pubkey = buyer, pr_mint = mint, pr_amount_sats = as_i64 amount, pr_created_at_unix = now\<rparr>)]\<rparr>)"

section \<open>Reads\<close>

definition max_of :: "int list \<Rightarrow> int option" where
  "max_of xs = (if xs = [] then None else Some (Max (set xs)))"

definition min_of :: "int list \<Rightarrow> int option" where
  "min_of xs = (if xs = [] then None else Some (Min (set xs)))"

definition last_receipt_unix :: "node_db \<Rightarrow> (string + int option) \<times> node_db" where
  "last_receipt_unix = node_read (\<lambda>db. Inr (max_of (map (\<lambda>(_, r). rc_received_at_unix r) (receipts (money db)))))"

definition has_receipt_in :: "node_db \<Rightarrow> string \<Rightarrow> bool" where
  "has_receipt_in db job \<longleftrightarrow> (\<exists>r \<in> set (receipts (money db)). rc_job_id (snd r) = job)"

definition oldest_unsettled_delivery_unix :: "node_db \<Rightarrow> (string + int option) \<times> node_db" where
  "oldest_unsettled_delivery_unix =
     node_read (\<lambda>db. Inr (min_of (map (\<lambda>(_, d). delivered_at_unix d)
       (filter (\<lambda>(j, _). \<not> has_receipt_in db j) (deliveries db)))))"

definition has_receipt :: "string \<Rightarrow> node_db \<Rightarrow> (string + bool) \<times> node_db" where
  "has_receipt job = node_read (\<lambda>db. Inr (has_receipt_in db job))"

definition has_delivery :: "string \<Rightarrow> node_db \<Rightarrow> (string + bool) \<times> node_db" where
  "has_delivery job = node_read (\<lambda>db. Inr (map_of (deliveries db) job \<noteq> None))"

definition pushed_commit :: "string \<Rightarrow> node_db \<Rightarrow> (string + string option) \<times> node_db" where
  "pushed_commit job = node_read (\<lambda>db. Inr (Option.bind (map_of (jobs (money db)) job) jb_pushed_commit))"

definition has_settled_elsewhere :: "string \<Rightarrow> node_db \<Rightarrow> (string + bool) \<times> node_db" where
  "has_settled_elsewhere job =
     node_read (\<lambda>db. Inr (Option.bind (map_of (jobs (money db)) job) jb_settled_elsewhere_at_unix \<noteq> None))"

definition resumable_jobs :: "node_db \<Rightarrow> (string + (string \<times> JobState) list) \<times> node_db" where
  "resumable_jobs =
     node_read (\<lambda>db. try_fold (\<lambda>js (j, r). case JobState_parse (jb_state r) of
          None \<Rightarrow> Inl ''unknown job state'' | Some s \<Rightarrow> Inr (js @ [(j, s)])) []
       (filter (\<lambda>(_, r). jb_state r \<in> {''awarded'', ''executing'', ''delivered''})
          (sort_key (\<lambda>(_, r). jb_created_at_unix r) (sort_key fst (jobs (money db))))))"

definition job_state :: "string \<Rightarrow> node_db \<Rightarrow> (string + JobState option) \<times> node_db" where
  "job_state job = node_read (\<lambda>db. case map_of (jobs (money db)) job of
     None \<Rightarrow> Inr None
   | Some r \<Rightarrow> (case JobState_parse (jb_state r) of None \<Rightarrow> Inl ''unknown job state'' | Some s \<Rightarrow> Inr (Some s)))"

definition job_creq :: "string \<Rightarrow> node_db \<Rightarrow> (string + string option) \<times> node_db" where
  "job_creq job = node_read (\<lambda>db. Inr (map_option cl_creq (map_of (claims db) job)))"

definition job_agent :: "string \<Rightarrow> node_db \<Rightarrow> (string + string option) \<times> node_db" where
  "job_agent job = node_read (\<lambda>db. Inr (Option.bind (map_of (jobs (money db)) job) jb_agent_name))"

definition jobs_in_flight :: "node_db \<Rightarrow> (string + u32) \<times> node_db" where
  "jobs_in_flight =
     node_read (\<lambda>db.
       let occupying = map JobState_as_str (filter occupies_execution_slot JobState_ALL);
           total = length (filter (\<lambda>(_, r). jb_state r \<in> set occupying) (jobs (money db)))
       in Inr (if total < 2 ^ 32 then of_nat total else - 1))"

section \<open>The outbox\<close>

definition read_outbox_item :: "store_codec \<Rightarrow> outbox_row \<Rightarrow> string + OutboxItem" where
  "read_outbox_item c r =
     try_bind (map_err (\<lambda>e. ''outbox draft decode: '' @ e) (draft_from_json c (ob_draft_json r))) (\<lambda>draft. Inr
       \<lparr>oi_id = ob_id r, oi_dedup_key = ob_dedup_key r, oi_draft = draft, oi_created_at_unix = ob_created_at_unix r,
        oi_attempts = ob_attempts r, oi_expires_at_unix = ob_expires_at_unix r\<rparr>)"

definition read_outbox_items :: "store_codec \<Rightarrow> outbox_row list \<Rightarrow> string + OutboxItem list" where
  "read_outbox_items c = try_fold (\<lambda>items r. try_bind (read_outbox_item c r) (\<lambda>i. Inr (items @ [i]))) []"

definition is_pending :: "int \<Rightarrow> outbox_row \<Rightarrow> bool" where
  "is_pending now r \<longleftrightarrow> ob_state r = ''pending'' \<and> ob_expires_at_unix r > now"

definition pending_outbox :: "store_codec \<Rightarrow> int \<Rightarrow> node_db \<Rightarrow> (string + OutboxItem list) \<times> node_db" where
  "pending_outbox c now =
     node_read (\<lambda>db. read_outbox_items c (sort_key ob_id (filter (is_pending now) (outbox db))))"

definition batch_rows :: "int \<Rightarrow> nat \<Rightarrow> bool \<Rightarrow> node_db \<Rightarrow> outbox_row list" where
  "batch_rows now limit fresh_only db =
     take limit (sort_key (\<lambda>r. ob_attempts r > 0) (sort_key ob_updated_at_unix (sort_key ob_id
       (filter (\<lambda>r. is_pending now r \<and> (fresh_only \<longrightarrow> ob_attempts r = 0)) (outbox db)))))"

definition pending_outbox_batch ::
  "store_codec \<Rightarrow> int \<Rightarrow> nat \<Rightarrow> bool \<Rightarrow> node_db \<Rightarrow> (string + OutboxItem list) \<times> node_db"
where
  "pending_outbox_batch c now limit fresh_only =
     node_read (\<lambda>db. read_outbox_items c (batch_rows now limit fresh_only db))"

definition pending_outbox_row ::
  "store_codec \<Rightarrow> string \<Rightarrow> int \<Rightarrow> node_db \<Rightarrow> (string + OutboxItem option) \<times> node_db"
where
  "pending_outbox_row c key now =
     node_read (\<lambda>db. try_bind (read_outbox_items c (filter (\<lambda>r. ob_dedup_key r = key \<and> is_pending now r) (outbox db)))
       (\<lambda>items. Inr (case items of [] \<Rightarrow> None | i # _ \<Rightarrow> Some i)))"

definition update_outbox :: "int \<Rightarrow> (outbox_row \<Rightarrow> outbox_row) \<Rightarrow> node_db \<Rightarrow> node_db" where
  "update_outbox i f db = db\<lparr>outbox := map (\<lambda>r. if ob_id r = i then f r else r) (outbox db)\<rparr>"

definition mark_confirmed :: "int \<Rightarrow> string \<Rightarrow> int \<Rightarrow> node_db \<Rightarrow> (string + unit) \<times> node_db" where
  "mark_confirmed i event now =
     node_write (update_outbox i (\<lambda>r. r\<lparr>ob_state := ''confirmed'', ob_published_event_id := Some event,
       ob_attempts := ob_attempts r + 1, ob_updated_at_unix := now\<rparr>))"

definition record_attempt :: "int \<Rightarrow> int \<Rightarrow> node_db \<Rightarrow> (string + unit) \<times> node_db" where
  "record_attempt i now =
     node_write (update_outbox i (\<lambda>r. r\<lparr>ob_attempts := ob_attempts r + 1, ob_updated_at_unix := now\<rparr>))"

definition expire_outbox :: "int \<Rightarrow> node_db \<Rightarrow> (string + nat) \<times> node_db" where
  "expire_outbox now =
     node_try (\<lambda>db. let due = (\<lambda>r. ob_state r = ''pending'' \<and> ob_expires_at_unix r \<le> now) in
       Inr (length (filter due (outbox db)),
         db\<lparr>outbox := map (\<lambda>r. if due r then r\<lparr>ob_state := ''expired'', ob_updated_at_unix := now\<rparr> else r) (outbox db)\<rparr>))"

definition outbox_row_of :: "string \<Rightarrow> node_db \<Rightarrow> (string + (string \<times> int \<times> string option) option) \<times> node_db" where
  "outbox_row_of key =
     node_read (\<lambda>db. Inr (map_option (\<lambda>r. (ob_state r, ob_attempts r, ob_published_event_id r))
       (find (\<lambda>r. ob_dedup_key r = key) (outbox db))))"

end
