(* ===== verification/Seller_Sessions.thy ===== *)
theory Seller_Sessions
  imports Seller_Jobs
begin

text \<open>
  The session tables of the seller's state database, \<^verbatim>\<open>seller_node/store.rs\<close>: the
  parked sessions and the turns of their follow-ups, and the delivery of a turn with its outbox row.
\<close>

record SessionRecord =
  sr_job_id :: string
  sr_buyer_pubkey :: string
  sr_container :: string
  sr_holder :: "string option"
  sr_holder_started_at :: "string option"
  sr_image_id :: string
  sr_orchestrator_version :: string
  sr_acp_session_id :: "string option"
  sr_harness :: string
  sr_model :: "string option"
  sr_turn :: u32
  sr_last_turn_at :: u64
  sr_disk_bytes :: u64
  sr_state :: SessionState
  sr_proxy_host :: "string option"
  sr_base_oid :: "string option"
  sr_holder_egress_dev :: "string option"
  sr_holder_classifier :: "string option"
  sr_holder_proxy_ports :: "string option"

definition session_size :: "SessionRecord \<Rightarrow> SessionSize" where
  "session_size s = \<lparr>sz_job_id = sr_job_id s, sz_state = sr_state s, sz_last_turn_at = sr_last_turn_at s,
     sz_disk_bytes = sr_disk_bytes s\<rparr>"

record SessionTurnRecord =
  followup_id :: string
  str_job_id :: string
  str_turn :: u32
  str_deadline_unix :: u64
  str_result_id :: "string option"
  str_delivery_oid :: "string option"
  str_state :: TurnState

definition read_session :: "string \<Rightarrow> session_row \<Rightarrow> string + SessionRecord" where
  "read_session job r =
     try_bind (ok_or ''state'' (SessionState_parse (ss_state r))) (\<lambda>st. Inr
       \<lparr>sr_job_id = job, sr_buyer_pubkey = ss_buyer_pubkey r, sr_container = ss_container r, sr_holder = ss_holder r,
        sr_holder_started_at = ss_holder_started_at r, sr_image_id = ss_image_id r,
        sr_orchestrator_version = ss_orchestrator_version r, sr_acp_session_id = ss_acp_session_id r,
        sr_harness = ss_harness r, sr_model = ss_model r, sr_turn = ss_turn r,
        sr_last_turn_at = word_of_int (ss_last_turn_at r), sr_disk_bytes = word_of_int (ss_disk_bytes r), sr_state = st,
        sr_proxy_host = ss_proxy_host r, sr_base_oid = ss_base_oid r, sr_holder_egress_dev = ss_holder_egress_dev r,
        sr_holder_classifier = ss_holder_classifier r, sr_holder_proxy_ports = ss_holder_proxy_ports r\<rparr>)"

definition read_turn :: "string \<Rightarrow> turn_row \<Rightarrow> string + SessionTurnRecord" where
  "read_turn followup r =
     try_bind (ok_or ''state'' (TurnState_parse (tn_state r))) (\<lambda>st. Inr
       \<lparr>followup_id = followup, str_job_id = tn_job_id r, str_turn = tn_turn r,
        str_deadline_unix = word_of_int (tn_deadline_unix r), str_result_id = tn_result_id r,
        str_delivery_oid = tn_delivery_oid r, str_state = st\<rparr>)"

definition read_turns :: "(string \<times> turn_row) list \<Rightarrow> string + SessionTurnRecord list" where
  "read_turns = try_fold (\<lambda>ts (i, r). try_bind (read_turn i r) (\<lambda>t. Inr (ts @ [t]))) []"

definition written_session :: "SessionRecord \<Rightarrow> session_row" where
  "written_session s =
     \<lparr>ss_buyer_pubkey = sr_buyer_pubkey s, ss_container = sr_container s, ss_holder = sr_holder s,
      ss_holder_started_at = sr_holder_started_at s, ss_image_id = sr_image_id s,
      ss_orchestrator_version = sr_orchestrator_version s, ss_acp_session_id = sr_acp_session_id s,
      ss_harness = sr_harness s, ss_model = sr_model s, ss_turn = sr_turn s, ss_last_turn_at = as_i64 (sr_last_turn_at s),
      ss_disk_bytes = as_i64 (sr_disk_bytes s), ss_state = SessionState_as_str (sr_state s), ss_proxy_host = sr_proxy_host s,
      ss_base_oid = sr_base_oid s, ss_holder_egress_dev = sr_holder_egress_dev s,
      ss_holder_classifier = sr_holder_classifier s, ss_holder_proxy_ports = sr_holder_proxy_ports s\<rparr>"

definition put_session :: "SessionRecord \<Rightarrow> node_db \<Rightarrow> (string + unit) \<times> node_db" where
  "put_session s = node_write (\<lambda>db. db\<lparr>sessions_table := AList.update (sr_job_id s) (written_session s) (sessions_table db)\<rparr>)"

definition session_of :: "string \<Rightarrow> node_db \<Rightarrow> (string + SessionRecord option) \<times> node_db" where
  "session_of job = node_read (\<lambda>db. case map_of (sessions_table db) job of
     None \<Rightarrow> Inr None | Some r \<Rightarrow> try_bind (read_session job r) (\<lambda>s. Inr (Some s)))"

definition sessions :: "node_db \<Rightarrow> (string + SessionRecord list) \<times> node_db" where
  "sessions = node_read (\<lambda>db. try_fold (\<lambda>ss (j, r). try_bind (read_session j r) (\<lambda>s. Inr (ss @ [s]))) []
     (sort_key fst (sessions_table db)))"

definition live_session_jobs :: "node_db \<Rightarrow> (string + string set) \<times> node_db" where
  "live_session_jobs = node_read (\<lambda>db. Inr (set (map fst (filter (\<lambda>(_, r). ss_state r \<in> {''running'', ''parked''}) (sessions_table db)))))"

definition set_session_state :: "string \<Rightarrow> SessionState \<Rightarrow> u64 \<Rightarrow> node_db \<Rightarrow> (string + bool) \<times> node_db" where
  "set_session_state job st now =
     node_try (\<lambda>db. Inr (case map_of (sessions_table db) job of
        None \<Rightarrow> (False, db)
      | Some r \<Rightarrow>
          if ss_state r \<in> {''running'', ''parked''}
          then (True, db\<lparr>sessions_table := AList.update job
                 (r\<lparr>ss_state := SessionState_as_str st,
                    ss_last_turn_at := (if st = Parked then as_i64 now else ss_last_turn_at r)\<rparr>) (sessions_table db)\<rparr>)
          else (False, db)))"

definition set_session_disk_bytes :: "string \<Rightarrow> u64 \<Rightarrow> node_db \<Rightarrow> (string + unit) \<times> node_db" where
  "set_session_disk_bytes job bytes =
     node_write (\<lambda>db. db\<lparr>sessions_table := update_row job (\<lambda>r. r\<lparr>ss_disk_bytes := as_i64 bytes\<rparr>) (sessions_table db)\<rparr>)"

text \<open>The refused turn that is cleared, then the insert that ignores a conflict on the id or on the
  job and the turn. The two statements are not in one transaction.\<close>

definition clear_refused :: "string \<Rightarrow> string \<Rightarrow> u32 \<Rightarrow> node_db \<Rightarrow> node_db" where
  "clear_refused followup job turn db =
     db\<lparr>session_turns := filter (\<lambda>(i, r). \<not> (tn_job_id r = job \<and> tn_turn r = turn \<and> tn_state r = ''refused'' \<and> i \<noteq> followup))
          (session_turns db)\<rparr>"

definition insert_turn ::
  "string \<Rightarrow> string \<Rightarrow> u32 \<Rightarrow> u64 \<Rightarrow> TurnState \<Rightarrow> u64 \<Rightarrow> node_db \<Rightarrow> bool \<times> node_db"
where
  "insert_turn followup job turn deadline st now db =
     (if map_of (session_turns db) followup \<noteq> None \<or>
         list_ex (\<lambda>(_, r). tn_job_id r = job \<and> tn_turn r = turn) (session_turns db)
      then (False, db)
      else (True, db\<lparr>session_turns := session_turns db @ [(followup,
        \<lparr>tn_job_id = job, tn_turn = turn, tn_deadline_unix = as_i64 deadline, tn_result_id = None, tn_delivery_oid = None,
         tn_state = TurnState_as_str st, tn_created_at_unix = as_i64 now, tn_updated_at_unix = as_i64 now, tn_text = None\<rparr>)]\<rparr>))"

definition record_turn ::
  "string \<Rightarrow> string \<Rightarrow> u32 \<Rightarrow> u64 \<Rightarrow> TurnState \<Rightarrow> u64 \<Rightarrow> node_db \<Rightarrow> (string + bool) \<times> node_db"
where
  "record_turn followup job turn deadline st now =
     st_bind (node_write (clear_refused followup job turn)) (\<lambda>_.
       node_try (\<lambda>db. Inr (insert_turn followup job turn deadline st now db)))"

definition coalesce :: "'a option \<Rightarrow> 'a option \<Rightarrow> 'a option" where
  "coalesce x y = (case x of None \<Rightarrow> y | Some _ \<Rightarrow> x)"

definition update_turn :: "string \<Rightarrow> (turn_row \<Rightarrow> turn_row) \<Rightarrow> node_db \<Rightarrow> node_db" where
  "update_turn followup f db = db\<lparr>session_turns := update_row followup f (session_turns db)\<rparr>"

definition set_turn_state ::
  "string \<Rightarrow> TurnState \<Rightarrow> string option \<Rightarrow> string option \<Rightarrow> u64 \<Rightarrow> node_db \<Rightarrow> (string + unit) \<times> node_db"
where
  "set_turn_state followup st result oid now =
     node_write (update_turn followup (\<lambda>r. r\<lparr>tn_state := TurnState_as_str st, tn_result_id := coalesce result (tn_result_id r),
       tn_delivery_oid := coalesce oid (tn_delivery_oid r), tn_updated_at_unix := as_i64 now\<rparr>))"

definition turn_in :: "string \<Rightarrow> node_db \<Rightarrow> string + SessionTurnRecord option" where
  "turn_in followup db = (case map_of (session_turns db) followup of
     None \<Rightarrow> Inr None | Some r \<Rightarrow> try_bind (read_turn followup r) (\<lambda>t. Inr (Some t)))"

definition turn_of :: "string \<Rightarrow> node_db \<Rightarrow> (string + SessionTurnRecord option) \<times> node_db" where
  "turn_of followup = node_read (turn_in followup)"

definition turns_in :: "string \<Rightarrow> node_db \<Rightarrow> string + SessionTurnRecord list" where
  "turns_in job db = read_turns (sort_key (\<lambda>(_, r). unat (tn_turn r)) (filter (\<lambda>(_, r). tn_job_id r = job) (session_turns db)))"

definition turns_of :: "string \<Rightarrow> node_db \<Rightarrow> (string + SessionTurnRecord list) \<times> node_db" where
  "turns_of job = node_read (turns_in job)"

definition advance_session ::
  "string \<Rightarrow> u32 \<Rightarrow> string option \<Rightarrow> string option \<Rightarrow> u64 \<Rightarrow> node_db \<Rightarrow> (string + unit) \<times> node_db"
where
  "advance_session job turn oid acp now =
     node_write (\<lambda>db. db\<lparr>sessions_table := update_row job (\<lambda>r. r\<lparr>ss_turn := max (ss_turn r) turn,
       ss_base_oid := coalesce oid (ss_base_oid r), ss_acp_session_id := coalesce acp (ss_acp_session_id r),
       ss_last_turn_at := as_i64 now\<rparr>) (sessions_table db)\<rparr>)"

definition set_turn_text :: "string \<Rightarrow> string \<Rightarrow> node_db \<Rightarrow> (string + unit) \<times> node_db" where
  "set_turn_text followup body =
     node_write (update_turn followup (\<lambda>r. if tn_text r = None then r\<lparr>tn_text := Some body\<rparr> else r))"

definition turn_texts :: "string \<Rightarrow> u32 \<Rightarrow> node_db \<Rightarrow> (string + string list) \<times> node_db" where
  "turn_texts job up_to =
     node_read (\<lambda>db. Inr (map (\<lambda>(_, r). the (tn_text r))
       (filter (\<lambda>(_, r). tn_job_id r = job \<and> tn_turn r \<le> up_to \<and> tn_text r \<noteq> None \<and> tn_state r \<noteq> ''refused'')
         (sort_key (\<lambda>(_, r). unat (tn_turn r)) (session_turns db)))))"

definition deliver_turn_and_enqueue ::
  "store_codec \<Rightarrow> string \<Rightarrow> string \<Rightarrow> u32 \<Rightarrow> string option \<Rightarrow> EventDraft \<Rightarrow> int \<Rightarrow> int \<Rightarrow> int \<Rightarrow> node_db \<Rightarrow> (string + bool) \<times> node_db"
where
  "deliver_turn_and_enqueue c followup job turn oid draft created expires now =
     node_try (\<lambda>db.
       case map_of (session_turns db) followup of
         None \<Rightarrow> Inr (False, db)
       | Some t \<Rightarrow>
           if tn_state t \<in> {''delivered'', ''paid''} then Inr (False, db)
           else
             (let db1 = update_turn followup (\<lambda>r. r\<lparr>tn_state := ''delivered'', tn_delivery_oid := oid, tn_updated_at_unix := now\<rparr>) db;
                  db2 = db1\<lparr>sessions_table := update_row job (\<lambda>r. r\<lparr>ss_turn := max (ss_turn r) turn,
                          ss_base_oid := coalesce oid (ss_base_oid r), ss_last_turn_at := now\<rparr>) (sessions_table db1)\<rparr>
              in try_bind (enqueue_event c (''result:'' @ followup) draft created expires now db2) (\<lambda>db3. Inr (True, db3))))"

definition set_turn_result :: "string \<Rightarrow> string \<Rightarrow> node_db \<Rightarrow> (string + unit) \<times> node_db" where
  "set_turn_result followup result = node_write (update_turn followup (\<lambda>r. r\<lparr>tn_result_id := Some result\<rparr>))"

definition request_session_close :: "string \<Rightarrow> node_db \<Rightarrow> (string + unit) \<times> node_db" where
  "request_session_close job = mark_meta (''session-close:'' @ job)"

definition session_close_requested :: "string \<Rightarrow> node_db \<Rightarrow> (string + bool) \<times> node_db" where
  "session_close_requested job = node_read (\<lambda>db. Inr (map_of (seller_meta db) (''session-close:'' @ job) \<noteq> None))"

definition turn_by_result :: "string \<Rightarrow> node_db \<Rightarrow> (string + SessionTurnRecord option) \<times> node_db" where
  "turn_by_result result =
     node_read (\<lambda>db. case find (\<lambda>(_, r). tn_result_id r = Some result) (session_turns db) of
        None \<Rightarrow> Inr None | Some (i, r) \<Rightarrow> try_bind (read_turn i r) (\<lambda>t. Inr (Some t)))"

definition unfinished_turns :: "node_db \<Rightarrow> (string + SessionTurnRecord list) \<times> node_db" where
  "unfinished_turns =
     node_read (\<lambda>db. read_turns (filter (\<lambda>(_, r). tn_state r \<in> {''received'', ''waiting_payment'', ''reviewing'', ''running''})
       (sort_key (\<lambda>(_, r). tn_created_at_unix r) (sort_key fst (session_turns db)))))"

definition claim_advertised_session :: "store_codec \<Rightarrow> string \<Rightarrow> node_db \<Rightarrow> (string + bool) \<times> node_db" where
  "claim_advertised_session c job =
     node_read (\<lambda>db. case find (\<lambda>r. ob_dedup_key r = ''claim:'' @ job) (outbox db) of
        None \<Rightarrow> Inr False
      | Some r \<Rightarrow> try_bind (map_err (\<lambda>e. ''claim draft decode: '' @ e) (draft_from_json c (ob_draft_json r)))
          (\<lambda>draft. Inr (claim_supports_sessions (ed_tags draft))))"

definition turn_for_payment :: "string \<Rightarrow> node_db \<Rightarrow> (string + (string \<times> u32) option) \<times> node_db" where
  "turn_for_payment payload =
     node_read (\<lambda>db. try_bind (turn_in payload db) (\<lambda>t. Inr (map_option (\<lambda>t. (str_job_id t, str_turn t)) t)))"

definition turn_settled :: "string \<Rightarrow> u32 \<Rightarrow> bool \<Rightarrow> node_db \<Rightarrow> (string + bool) \<times> node_db" where
  "turn_settled job turn free =
     (if turn \<le> 1
      then (if free then has_delivery job else has_receipt job)
      else st_bind (turns_of job) (\<lambda>ts.
        case find (\<lambda>t. str_turn t = turn) ts of
          None \<Rightarrow> st_lift (Inr False)
        | Some row \<Rightarrow> if str_state row = TPaid then st_lift (Inr True) else has_receipt (followup_id row)))"

end
