(* ===== verification/Seller_Lifecycle.thy ===== *)
theory Seller_Lifecycle
  imports Seller_Sessions
begin

text \<open>
  The seller's state database under any sequence of its operations, with SQLite failures anywhere in
  between: which rows always go together, and that every state column can be read back.
\<close>

section \<open>Operations\<close>

datatype node_op =
    Op_record_offer Offer int
  | Op_record_contribution_pin string ContributionPin int
  | Op_record_job_checks string "u8 list" EnvKind string int
  | Op_mark_public_v2_offer string
  | Op_mark_private_offer string
  | Op_claim_and_enqueue string string "string option" EventDraft int int int
  | Op_release_claim string int
  | Op_record_award string string string int
  | Op_assign_agent string string
  | Op_mark_executing string int
  | Op_mark_pushed string string int
  | Op_mark_settled_elsewhere string int
  | Op_deliver_and_enqueue string string PaymentMode EventDraft int int int
  | Op_fail_job string int
  | Op_collect_receipt string string u64 ReceiptFees int
  | Op_append_pending_receive string string string string u64 int
  | Op_mark_confirmed int string int
  | Op_record_attempt int int
  | Op_expire_outbox int
  | Op_put_session SessionRecord
  | Op_set_session_state string SessionState u64
  | Op_set_session_disk_bytes string u64
  | Op_record_turn string string u32 u64 TurnState u64
  | Op_set_turn_state string TurnState "string option" "string option" u64
  | Op_advance_session string u32 "string option" "string option" u64
  | Op_set_turn_text string string
  | Op_deliver_turn_and_enqueue string string u32 "string option" EventDraft int int int
  | Op_set_turn_result string string
  | Op_request_session_close string
  | Op_plan_remittance RemittancePlan string int int
  | Op_admit_remittance_spend string string string int int
  | Op_replan_remittance string string RemittanceReplan
  | Op_settle_remittance string RemitSettlement int
  | Op_release_remittance string ReleaseOn int
  | Op_record_remit_attempt RemitAttempt

fun node_exec :: "store_codec \<Rightarrow> node_op \<Rightarrow> node_db \<Rightarrow> node_db" where
  "node_exec c (Op_record_offer offer now) db = snd (record_offer c offer now db)"
| "node_exec c (Op_record_contribution_pin job p now) db = snd (record_contribution_pin job p now db)"
| "node_exec c (Op_record_job_checks job bytes kind ref now) db = snd (record_job_checks job bytes kind ref now db)"
| "node_exec c (Op_mark_public_v2_offer i) db = snd (mark_public_v2_offer i db)"
| "node_exec c (Op_mark_private_offer i) db = snd (mark_private_offer i db)"
| "node_exec c (Op_claim_and_enqueue job offer creq draft created expires now) db =
     snd (claim_and_enqueue c job offer creq draft created expires now db)"
| "node_exec c (Op_release_claim job now) db = snd (release_claim job now db)"
| "node_exec c (Op_record_award award job buyer now) db = snd (record_award award job buyer now db)"
| "node_exec c (Op_assign_agent job agent) db = snd (assign_agent job agent db)"
| "node_exec c (Op_mark_executing job now) db = snd (mark_executing job now db)"
| "node_exec c (Op_mark_pushed job commit now) db = snd (mark_pushed job commit now db)"
| "node_exec c (Op_mark_settled_elsewhere job now) db = snd (mark_settled_elsewhere job now db)"
| "node_exec c (Op_deliver_and_enqueue job ref mode draft created expires now) db =
     snd (deliver_and_enqueue c job ref mode draft created expires now db)"
| "node_exec c (Op_fail_job job now) db = snd (node_fail_job job now db)"
| "node_exec c (Op_collect_receipt receipt job amount fees now) db = snd (node_collect_receipt receipt job amount fees now db)"
| "node_exec c (Op_append_pending_receive job hash buyer mint amount now) db =
     snd (append_pending_receive job hash buyer mint amount now db)"
| "node_exec c (Op_mark_confirmed i event now) db = snd (mark_confirmed i event now db)"
| "node_exec c (Op_record_attempt i now) db = snd (record_attempt i now db)"
| "node_exec c (Op_expire_outbox now) db = snd (expire_outbox now db)"
| "node_exec c (Op_put_session s) db = snd (put_session s db)"
| "node_exec c (Op_set_session_state job st now) db = snd (set_session_state job st now db)"
| "node_exec c (Op_set_session_disk_bytes job bytes) db = snd (set_session_disk_bytes job bytes db)"
| "node_exec c (Op_record_turn followup job turn deadline st now) db = snd (record_turn followup job turn deadline st now db)"
| "node_exec c (Op_set_turn_state followup st result oid now) db = snd (set_turn_state followup st result oid now db)"
| "node_exec c (Op_advance_session job turn oid acp now) db = snd (advance_session job turn oid acp now db)"
| "node_exec c (Op_set_turn_text followup body) db = snd (set_turn_text followup body db)"
| "node_exec c (Op_deliver_turn_and_enqueue followup job turn oid draft created expires now) db =
     snd (deliver_turn_and_enqueue c followup job turn oid draft created expires now db)"
| "node_exec c (Op_set_turn_result followup result) db = snd (set_turn_result followup result db)"
| "node_exec c (Op_request_session_close job) db = snd (request_session_close job db)"
| "node_exec c (Op_plan_remittance plan who lease now) db = snd (on_money (plan_remittance plan who lease now) db)"
| "node_exec c (Op_admit_remittance_spend i who quote margin now) db =
     snd (on_money (admit_remittance_spend i who quote margin now) db)"
| "node_exec c (Op_replan_remittance i who replan) db = snd (on_money (replan_remittance i who replan) db)"
| "node_exec c (Op_settle_remittance i settlement now) db = snd (on_money (settle_remittance i settlement now) db)"
| "node_exec c (Op_release_remittance i on now) db = snd (on_money (release_remittance i on now) db)"
| "node_exec c (Op_record_remit_attempt a) db = snd (on_money (record_remit_attempt a) db)"

definition node_run :: "store_codec \<Rightarrow> node_op list \<Rightarrow> node_db \<Rightarrow> node_db" where
  "node_run c ops db = fold (node_exec c) ops db"

definition empty_node :: "string option list \<Rightarrow> node_db" where
  "empty_node faults =
     \<lparr>money = \<lparr>receipts = [], fee_remittances = [], fee_remit_attempts = [], jobs = [], sdb_faults = faults\<rparr>,
      offers = [], claims = [], awards = [], deliveries = [], pending_receive = [], outbox = [], contribution_pins = [],
      job_checks_table = [], seller_meta = [], sessions_table = [], session_turns = []\<rparr>"

section \<open>Invariants\<close>

text \<open>What an operation may rely on and must keep. Failing calls change nothing but the schedule of
  failures, so an invariant that does not look at the schedule is kept by a call when its
  transaction keeps it.\<close>

locale store_invariant =
  fixes good :: "node_db \<Rightarrow> bool"
  assumes faults [simp]: "good (db\<lparr>money := (money db)\<lparr>sdb_faults := fs\<rparr>\<rparr>) = good db"
begin

lemma try_keeps:
  assumes "good db" and "\<And>d r d'. good d \<Longrightarrow> f d = Inr (r, d') \<Longrightarrow> good d'"
  shows "good (snd (node_try f db))"
proof -
  have "good (db\<lparr>money := snd (sdb_call (money db))\<rparr>)"
    using assms(1) by (auto simp: sdb_call_def split: list.splits option.splits)
  then show ?thesis
    using assms(2) by (fastforce simp: node_try_def split: prod.splits sum.splits)
qed

lemma write_keeps: "good db \<Longrightarrow> (\<And>d. good d \<Longrightarrow> good (f d)) \<Longrightarrow> good (snd (node_write f db))"
  unfolding node_write_def by (rule try_keeps) auto

lemma read_keeps: "good db \<Longrightarrow> good (snd (node_read f db))"
  unfolding node_read_def by (rule try_keeps) (auto elim: try_bind_InrE)

lemma money_try_keeps:
  assumes "good db" and "\<And>d r m. good d \<Longrightarrow> f (money d) = Inr (r, m) \<Longrightarrow> good (d\<lparr>money := m\<rparr>)"
  shows "good (snd (on_money (sdb_try f) db))"
proof -
  have "good (db\<lparr>money := snd (sdb_call (money db))\<rparr>)"
    using assms(1) by (auto simp: sdb_call_def split: list.splits option.splits)
  then show ?thesis
    using assms(2) [of "db\<lparr>money := snd (sdb_call (money db))\<rparr>"]
    by (auto simp: on_money_def sdb_try_def st_bind_def split: prod.splits sum.splits)
qed

end

definition outbox_keys :: "outbox_row list \<Rightarrow> string set" where
  "outbox_keys obs = ob_dedup_key ` set obs"

definition wf_outbox :: "outbox_row list \<Rightarrow> bool" where
  "wf_outbox obs \<longleftrightarrow> distinct (map ob_dedup_key obs) \<and> map ob_id obs = map (\<lambda>i. int i + 1) [0..<length obs]"

definition claims_announced :: "(string \<times> claim_row) list \<Rightarrow> outbox_row list \<Rightarrow> bool" where
  "claims_announced cs obs \<longleftrightarrow> (\<forall>j r. map_of cs j = Some r \<longrightarrow>
     cl_state r \<in> {''claimed'', ''awarded'', ''released''} \<and> ''claim:'' @ j \<in> outbox_keys obs)"

definition deliveries_announced :: "(string \<times> delivery_row) list \<Rightarrow> outbox_row list \<Rightarrow> bool" where
  "deliveries_announced ds obs \<longleftrightarrow> (\<forall>j r. map_of ds j = Some r \<longrightarrow> ''result:'' @ j \<in> outbox_keys obs)"

definition jobs_awarded :: "(string \<times> job_row) list \<Rightarrow> (string \<times> claim_row) list \<Rightarrow> (string \<times> award_entry) list \<Rightarrow> bool" where
  "jobs_awarded js cs as \<longleftrightarrow> (\<forall>j r. map_of js j = Some r \<longrightarrow>
     (\<exists>q. map_of cs j = Some q \<and> cl_state q = ''awarded'' \<and> cl_offer_id q = jb_offer_id r) \<and>
     (\<exists>a \<in> set as. ae_job_id (snd a) = j))"

definition awards_have_jobs :: "(string \<times> job_row) list \<Rightarrow> (string \<times> claim_row) list \<Rightarrow> bool" where
  "awards_have_jobs js cs \<longleftrightarrow> (\<forall>j q. map_of cs j = Some q \<and> cl_state q = ''awarded'' \<longrightarrow> map_of js j \<noteq> None)"

definition paid_has_receipt :: "(string \<times> job_row) list \<Rightarrow> (string \<times> receipt_row) list \<Rightarrow> bool" where
  "paid_has_receipt js rs \<longleftrightarrow> (\<forall>j r. (j, r) \<in> set js \<and> jb_state r = ''paid'' \<longrightarrow> (\<exists>q \<in> set rs. rc_job_id (snd q) = j))"

definition states_parse :: "node_db \<Rightarrow> bool" where
  "states_parse db \<longleftrightarrow>
     (\<forall>x \<in> set (jobs (money db)). JobState_parse (jb_state (snd x)) \<noteq> None) \<and>
     (\<forall>x \<in> set (sessions_table db). SessionState_parse (ss_state (snd x)) \<noteq> None) \<and>
     (\<forall>x \<in> set (session_turns db). TurnState_parse (tn_state (snd x)) \<noteq> None) \<and>
     (\<forall>x \<in> set (job_checks_table db). EnvKind_from_wire (ck_env_kind (snd x)) \<noteq> None)"

definition lifecycle :: "node_db \<Rightarrow> bool" where
  "lifecycle db \<longleftrightarrow> wf_outbox (outbox db) \<and> claims_announced (claims db) (outbox db) \<and>
     deliveries_announced (deliveries db) (outbox db) \<and> jobs_awarded (jobs (money db)) (claims db) (awards db) \<and>
     awards_have_jobs (jobs (money db)) (claims db) \<and> paid_has_receipt (jobs (money db)) (receipts (money db)) \<and>
     states_parse db"

interpretation life: store_invariant lifecycle
  by unfold_locales (simp add: lifecycle_def states_parse_def)

lemmas lifecycle_simps = lifecycle_def states_parse_def

section \<open>Tables\<close>

lemma set_update_row:
  "x \<in> set (update_row k f t) \<Longrightarrow> x \<in> set t \<or> (\<exists>r. (k, r) \<in> set t \<and> x = (k, f r))"
  using set_AList_update [of k _ t] by (fastforce simp: update_row_def dest: map_of_SomeD split: option.splits)

lemma ball_update_row:
  "(\<forall>x \<in> set t. P x) \<Longrightarrow> (\<And>r. (k, r) \<in> set t \<Longrightarrow> P (k, f r)) \<Longrightarrow> \<forall>x \<in> set (update_row k f t). P x"
  by (auto dest!: set_update_row)

lemma ball_update: "(\<forall>x \<in> set t. P x) \<Longrightarrow> P (k, r) \<Longrightarrow> \<forall>x \<in> set (AList.update k r t). P x"
  using set_AList_update [of k r t] by auto

lemma map_of_snoc: "map_of (t @ [(k, r)]) j = (case map_of t j of None \<Rightarrow> if j = k then Some r else None | Some q \<Rightarrow> Some q)"
  by (auto simp: map_add_def split: option.splits)

lemma states_read_back [simp]:
  "JobState_parse (JobState_as_str j) = Some j"
  "SessionState_parse (SessionState_as_str s) = Some s"
  "TurnState_parse (TurnState_as_str t) = Some t"
  "EnvKind_from_wire (EnvKind_as_str k) = Some k"
  by (cases j, simp_all add: JobState_parse_def)
    (cases s, simp_all add: SessionState_parse_def,
     cases t, simp_all add: TurnState_parse_def,
     cases k, simp_all add: EnvKind_from_wire_def)

lemma job_literals_parse [simp]:
  "JobState_parse ''awarded'' = Some Awarded" "JobState_parse ''executing'' = Some Executing"
  "JobState_parse ''delivered'' = Some Delivered" "JobState_parse ''paid'' = Some JobPaid"
  "JobState_parse ''failed'' = Some JobFailed" "TurnState_parse ''delivered'' = Some TDelivered"
  by (simp_all add: JobState_parse_def TurnState_parse_def)

lemma lifecycle_update_job:
  assumes "lifecycle db"
    and "\<And>r. jb_offer_id (f r) = jb_offer_id r"
    and "\<And>r. JobState_parse (jb_state r) \<noteq> None \<Longrightarrow> JobState_parse (jb_state (f r)) \<noteq> None"
    and "\<And>r. jb_state (f r) = ''paid'' \<Longrightarrow> jb_state r = ''paid''"
  shows "lifecycle (update_job job f db)"
proof -
  let ?js = "update_row job f (jobs (money db))"
  have "jobs_awarded ?js (claims db) (awards db)"
    using assms(1,2) by (auto simp: lifecycle_def jobs_awarded_def map_of_update_row)
  moreover have "awards_have_jobs ?js (claims db)"
    using assms(1) by (auto simp: lifecycle_def awards_have_jobs_def map_of_update_row)
  moreover have "paid_has_receipt ?js (receipts (money db))"
    using assms(1,4) by (fastforce simp: lifecycle_def paid_has_receipt_def dest!: set_update_row)
  moreover have "\<forall>x \<in> set ?js. JobState_parse (jb_state (snd x)) \<noteq> None"
    using assms(1,3) by (intro ball_update_row) (auto simp: lifecycle_simps)
  ultimately show ?thesis using assms(1) by (simp add: lifecycle_simps update_job_def)
qed

lemma wf_outbox_append:
  "wf_outbox obs \<Longrightarrow> ob_dedup_key r \<notin> outbox_keys obs \<Longrightarrow> ob_id r = int (length obs) + 1 \<Longrightarrow> wf_outbox (obs @ [r])"
  by (auto simp: wf_outbox_def outbox_keys_def)

lemma announced_append:
  "claims_announced cs obs \<Longrightarrow> claims_announced cs (obs @ news)"
  "deliveries_announced ds obs \<Longrightarrow> deliveries_announced ds (obs @ news)"
  by (auto simp: claims_announced_def deliveries_announced_def outbox_keys_def)

lemma enqueue_event_appends:
  assumes "enqueue_event c key draft created expires now db = Inr db'"
  obtains news where "db' = db\<lparr>outbox := outbox db @ news\<rparr>" "wf_outbox (outbox db) \<longrightarrow> wf_outbox (outbox db @ news)"
    "key \<in> outbox_keys (outbox db @ news)"
proof -
  obtain json where json: "draft_to_json c draft = Inr json"
    using assms by (auto simp: enqueue_event_def elim: try_bind_InrE)
  show thesis
  proof (cases "key \<in> outbox_keys (outbox db)")
    case True
    then have "\<exists>r \<in> set (outbox db). ob_dedup_key r = key" by (auto simp: outbox_keys_def)
    then have "db' = db" using assms json by (simp add: enqueue_event_def)
    with True that [of "[]"] show thesis by simp
  next
    case False
    then have "db' = db\<lparr>outbox := outbox db @
          [\<lparr>ob_id = int (length (outbox db)) + 1, ob_dedup_key = key, ob_draft_json = json, ob_created_at_unix = created,
            ob_state = ''pending'', ob_attempts = 0, ob_expires_at_unix = expires, ob_published_event_id = None,
            ob_updated_at_unix = now\<rparr>]\<rparr>"
      using assms json by (auto simp: enqueue_event_def outbox_keys_def)
    then show thesis by (rule that) (use False in \<open>auto intro: wf_outbox_append simp: outbox_keys_def\<close>)
  qed
qed

lemma lifecycle_map_outbox:
  assumes "lifecycle db" and "\<And>r. ob_id (f r) = ob_id r \<and> ob_dedup_key (f r) = ob_dedup_key r"
  shows "lifecycle (db\<lparr>outbox := map f (outbox db)\<rparr>)"
proof -
  have "ob_dedup_key \<circ> f = ob_dedup_key" "ob_id \<circ> f = ob_id" using assms(2) by auto
  then have "wf_outbox (map f (outbox db)) = wf_outbox (outbox db)" "outbox_keys (map f (outbox db)) = outbox_keys (outbox db)"
    using assms(2) by (simp_all add: wf_outbox_def outbox_keys_def image_image)
  then show ?thesis
    using assms(1) by (simp add: lifecycle_simps claims_announced_def deliveries_announced_def)
qed

section \<open>Operations keep the invariant\<close>

lemma store_keeps_claim: "lifecycle db \<Longrightarrow> lifecycle (snd (claim_and_enqueue c job offer creq draft created expires now db))"
  unfolding claim_and_enqueue_def
proof (rule life.try_keeps, assumption, goal_cases)
  case (1 db r db')
  let ?row = "\<lparr>cl_offer_id = offer, cl_state = ''claimed'', cl_creq = (case creq of None \<Rightarrow> [] | Some q \<Rightarrow> q),
    cl_created_at_unix = now, cl_updated_at_unix = now\<rparr>"
  show ?case
  proof (cases "map_of (claims db) job")
    case None
    obtain news where news: "db' = db\<lparr>claims := claims db @ [(job, ?row)], outbox := outbox db @ news\<rparr>"
      "wf_outbox (outbox db) \<longrightarrow> wf_outbox (outbox db @ news)" "''claim:'' @ job \<in> outbox_keys (outbox db @ news)"
      using 1 None by (auto simp: claim_state_def Let_def elim!: try_bind_InrE enqueue_event_appends)
    have old: "claims_announced (claims db) (outbox db @ news)" "jobs_awarded (jobs (money db)) (claims db) (awards db)"
      "awards_have_jobs (jobs (money db)) (claims db)"
      using announced_append(1) 1(2) by (auto simp: lifecycle_def)
    have "claims_announced (claims db @ [(job, ?row)]) (outbox db @ news)"
      using old(1) news(3) unfolding claims_announced_def map_of_snoc by (simp split: option.splits)
    moreover have "jobs_awarded (jobs (money db)) (claims db @ [(job, ?row)]) (awards db)"
      using old(2) unfolding jobs_awarded_def map_of_snoc by (fastforce split: option.splits)
    moreover have "awards_have_jobs (jobs (money db)) (claims db @ [(job, ?row)])"
      using old(3) unfolding awards_have_jobs_def map_of_snoc by (simp split: option.splits)
    ultimately show ?thesis using 1(2) news announced_append(2) by (simp add: lifecycle_simps)
  next
    case (Some q)
    then show ?thesis using 1 by (simp add: claim_state_def)
  qed
qed

lemma store_keeps_release_claim: "lifecycle db \<Longrightarrow> lifecycle (snd (release_claim job now db))"
  unfolding release_claim_def
proof (rule life.try_keeps, assumption, goal_cases)
  case (1 db r db')
  show ?case
  proof (cases "db' = db")
    case False
    then obtain q where q: "map_of (claims db) job = Some q" "cl_state q = ''claimed''"
      and db': "db' = db\<lparr>claims := AList.update job (q\<lparr>cl_state := ''released'', cl_updated_at_unix := now\<rparr>) (claims db)\<rparr>"
      using 1(3) by (auto split: option.splits if_splits)
    let ?cs = "AList.update job (q\<lparr>cl_state := ''released'', cl_updated_at_unix := now\<rparr>) (claims db)"
    have "claims_announced ?cs (outbox db)" using 1(2) q by (auto simp: lifecycle_def claims_announced_def)
    moreover have "jobs_awarded (jobs (money db)) ?cs (awards db)"
      using 1(2) q unfolding lifecycle_def jobs_awarded_def map_of_update by fastforce
    moreover have "awards_have_jobs (jobs (money db)) ?cs" using 1(2) by (auto simp: lifecycle_def awards_have_jobs_def)
    ultimately show ?thesis using 1(2) by (simp add: lifecycle_simps db')
  qed (use 1 in simp)
qed

lemma store_keeps_award: "lifecycle db \<Longrightarrow> lifecycle (snd (record_award award job buyer now db))"
  unfolding record_award_def
proof (rule life.try_keeps, assumption, goal_cases)
  case (1 db r db')
  let ?as = "awards db @ [(award, \<lparr>ae_job_id = job, ae_buyer_pubkey = buyer, ae_created_at_unix = now\<rparr>)]"
  have news: "jobs_awarded (jobs (money db)) (claims db) ?as"
    using 1(2) unfolding lifecycle_def jobs_awarded_def set_append by blast
  show ?case
  proof (cases "map_of (awards db) award = None \<and> map_of (claims db) job \<noteq> None")
    case True
    then obtain q where q: "map_of (claims db) job = Some q" by blast
    let ?cs = "update_row job (\<lambda>r. r\<lparr>cl_state := ''awarded'', cl_updated_at_unix := now\<rparr>) (claims db)"
    let ?row = "\<lparr>jb_offer_id = cl_offer_id q, jb_agent_name = None, jb_state = ''awarded'',
       jb_created_at_unix = now, jb_updated_at_unix = now, jb_pushed_commit = None, jb_settled_elsewhere_at_unix = None\<rparr>"
    let ?js = "if map_of (jobs (money db)) job \<noteq> None then jobs (money db) else jobs (money db) @ [(job, ?row)]"
    have db': "db' = db\<lparr>awards := ?as, claims := ?cs, money := (money db)\<lparr>jobs := ?js\<rparr>\<rparr>"
      using 1(3) True q by (auto simp: claim_state_def Let_def split: if_splits)
    have "claims_announced ?cs (outbox db)"
      using 1(2) by (auto simp: lifecycle_def claims_announced_def map_of_update_row)
    moreover have "jobs_awarded ?js ?cs ?as"
      using news q unfolding jobs_awarded_def map_of_update_row by (fastforce simp: map_of_snoc split: option.splits if_splits)
    moreover have "awards_have_jobs ?js ?cs"
      using 1(2) by (auto simp: lifecycle_def awards_have_jobs_def map_of_update_row map_add_def split: option.splits if_splits)
    moreover have "paid_has_receipt ?js (receipts (money db))"
      using 1(2) by (auto simp: lifecycle_def paid_has_receipt_def)
    ultimately show ?thesis using 1(2) by (auto simp: lifecycle_simps db')
  next
    case False
    then show ?thesis using 1 news by (auto simp: claim_state_def lifecycle_simps Let_def split: if_splits)
  qed
qed

lemma lifecycle_enqueue:
  assumes "lifecycle db" and "enqueue_event c key draft created expires now db = Inr db'"
  shows "lifecycle db'"
  using assms(2)
proof (rule enqueue_event_appends)
  fix news assume "db' = db\<lparr>outbox := outbox db @ news\<rparr>" "wf_outbox (outbox db) \<longrightarrow> wf_outbox (outbox db @ news)"
  then show "lifecycle db'" using assms(1) announced_append by (simp add: lifecycle_simps)
qed

lemma store_keeps_deliver: "lifecycle db \<Longrightarrow> lifecycle (snd (deliver_and_enqueue c job ref mode draft created expires now db))"
  unfolding deliver_and_enqueue_def
proof (rule life.try_keeps, assumption, goal_cases)
  case (1 db r db')
  let ?row = "\<lparr>dl_result_ref = ref, delivered_at_unix = now, dl_payment = Some (PaymentMode_as_wire mode)\<rparr>"
  let ?f = "\<lambda>r. r\<lparr>jb_state := ''delivered'', jb_updated_at_unix := now\<rparr>"
  show ?case
  proof (cases "map_of (deliveries db) job")
    case None
    let ?db = "update_job job ?f (db\<lparr>deliveries := deliveries db @ [(job, ?row)]\<rparr>)"
    have "enqueue_event c (''result:'' @ job) draft created expires now ?db = Inr db'"
      using 1(3) None by (auto simp: Let_def elim: try_bind_InrE)
    then obtain news where news: "db' = ?db\<lparr>outbox := outbox ?db @ news\<rparr>"
      "wf_outbox (outbox ?db) \<longrightarrow> wf_outbox (outbox ?db @ news)" "''result:'' @ job \<in> outbox_keys (outbox ?db @ news)"
      by (rule enqueue_event_appends)
    have same: "outbox ?db = outbox db" by (simp add: update_job_def)
    have "deliveries_announced (deliveries db) (outbox db @ news)"
      using announced_append(2) 1(2) by (auto simp: lifecycle_def)
    then have "deliveries_announced (deliveries db @ [(job, ?row)]) (outbox db @ news)"
      using news(3) unfolding deliveries_announced_def map_of_snoc same by (simp split: option.splits)
    moreover have "lifecycle (update_job job ?f db)" using 1(2) by (rule lifecycle_update_job) auto
    ultimately show ?thesis using news(1,2) announced_append(1) by (simp add: lifecycle_simps update_job_def)
  next
    case (Some q)
    then show ?thesis using 1 by simp
  qed
qed

lemma store_keeps_job_writes:
  assumes "lifecycle db"
  shows "lifecycle (snd (assign_agent job agent db))" "lifecycle (snd (mark_executing job now db))"
    "lifecycle (snd (mark_pushed job commit now db))" "lifecycle (snd (mark_settled_elsewhere job now db))"
  unfolding assign_agent_def mark_executing_def mark_pushed_def mark_settled_elsewhere_def
  by (rule life.write_keeps [OF assms], erule lifecycle_update_job; simp split: if_splits)+

lemma store_keeps_fail: "lifecycle db \<Longrightarrow> lifecycle (snd (node_fail_job job now db))"
  unfolding node_fail_job_def fail_job_def
proof (rule life.money_try_keeps, assumption, goal_cases)
  case (1 db r m)
  have "lifecycle (update_job job (\<lambda>r. r\<lparr>jb_state := ''failed'', jb_updated_at_unix := now\<rparr>) db)"
    using 1(2) by (rule lifecycle_update_job) auto
  with 1 show ?case by (auto simp: update_job_def update_row_def split: option.splits if_splits)
qed

lemma store_keeps_collect: "lifecycle db \<Longrightarrow> lifecycle (snd (node_collect_receipt receipt job amount fees now db))"
  unfolding node_collect_receipt_def collect_receipt_def
proof (rule life.money_try_keeps, assumption, goal_cases)
  case (1 db r m)
  let ?js = "update_row job (\<lambda>r. r\<lparr>jb_state := ''paid'', jb_updated_at_unix := now\<rparr>) (jobs (money db))"
  have "jobs_awarded ?js (claims db) (awards db)"
    using 1(2) by (auto simp: lifecycle_def jobs_awarded_def map_of_update_row)
  moreover have "awards_have_jobs ?js (claims db)"
    using 1(2) by (auto simp: lifecycle_def awards_have_jobs_def map_of_update_row)
  moreover have "paid_has_receipt ?js (receipts (money db) @ [(receipt, q)])" if "rc_job_id q = job" for q
    using 1(2) that by (fastforce simp: lifecycle_def paid_has_receipt_def dest!: set_update_row)
  moreover have "\<forall>x \<in> set ?js. JobState_parse (jb_state (snd x)) \<noteq> None"
    using 1(2) by (intro ball_update_row) (auto simp: lifecycle_simps)
  ultimately show ?case using 1(2,3) by (auto simp: lifecycle_simps split: if_splits)
qed

lemma store_keeps_outbox_writes:
  assumes "lifecycle db"
  shows "lifecycle (snd (mark_confirmed i event now db))" "lifecycle (snd (record_attempt i now db))"
    "lifecycle (snd (expire_outbox now db))"
  unfolding mark_confirmed_def record_attempt_def expire_outbox_def update_outbox_def
    by (rule life.write_keeps [OF assms], erule lifecycle_map_outbox, simp)+
      (rule life.try_keeps [OF assms], auto simp: Let_def intro!: lifecycle_map_outbox)

lemma store_keeps_offer_writes:
  assumes "lifecycle db"
  shows "lifecycle (snd (record_offer c offer now db))" "lifecycle (snd (record_contribution_pin job p now db))"
    "lifecycle (snd (append_pending_receive job hash buyer mint amount now db))" "lifecycle (snd (mark_meta key db))"
  unfolding record_offer_def record_contribution_pin_def append_pending_receive_def mark_meta_def
  by (rule life.try_keeps [OF assms] life.write_keeps [OF assms]; auto simp: lifecycle_simps split: if_splits)+

lemma store_keeps_checks: "lifecycle db \<Longrightarrow> lifecycle (snd (record_job_checks job bytes kind ref now db))"
  unfolding record_job_checks_def
  by (erule life.write_keeps, simp add: lifecycle_simps, intro ball_update) auto

text \<open>Writes to the session tables that leave readable states.\<close>

lemma lifecycle_sessions:
  "lifecycle db \<Longrightarrow> \<forall>x \<in> set ss. SessionState_parse (ss_state (snd x)) \<noteq> None \<Longrightarrow> lifecycle (db\<lparr>sessions_table := ss\<rparr>)"
  by (simp add: lifecycle_simps)

lemma lifecycle_turns:
  "lifecycle db \<Longrightarrow> \<forall>x \<in> set ts. TurnState_parse (tn_state (snd x)) \<noteq> None \<Longrightarrow> lifecycle (db\<lparr>session_turns := ts\<rparr>)"
  by (simp add: lifecycle_simps)

lemma lifecycle_update_turn:
  "lifecycle db \<Longrightarrow> (\<And>r. TurnState_parse (tn_state r) \<noteq> None \<Longrightarrow> TurnState_parse (tn_state (f r)) \<noteq> None) \<Longrightarrow>
   lifecycle (update_turn i f db)"
  unfolding update_turn_def by (rule lifecycle_turns, assumption, rule ball_update_row) (auto simp: lifecycle_simps)

lemma lifecycle_update_session:
  "lifecycle db \<Longrightarrow> (\<And>r. ss_state (f r) = ss_state r) \<Longrightarrow> lifecycle (db\<lparr>sessions_table := update_row j f (sessions_table db)\<rparr>)"
  by (rule lifecycle_sessions, assumption, rule ball_update_row) (auto simp: lifecycle_simps)

lemma store_keeps_session_writes:
  assumes "lifecycle db"
  shows "lifecycle (snd (put_session s db))" "lifecycle (snd (set_session_disk_bytes job bytes db))"
    "lifecycle (snd (advance_session job turn oid acp now db))" "lifecycle (snd (set_turn_state followup ts result oid now db))"
    "lifecycle (snd (set_turn_text followup body db))" "lifecycle (snd (set_turn_result followup res db))"
  unfolding put_session_def set_session_disk_bytes_def advance_session_def set_turn_state_def set_turn_text_def set_turn_result_def
  by (rule life.write_keeps [OF assms],
      ((erule lifecycle_update_session, simp; fail) | (erule lifecycle_update_turn, simp; fail) |
       (rule lifecycle_sessions, assumption, rule ball_update; simp add: lifecycle_simps written_session_def)))+

lemma store_keeps_session_state: "lifecycle db \<Longrightarrow> lifecycle (snd (set_session_state job st now db))"
  unfolding set_session_state_def
proof (rule life.try_keeps, assumption, goal_cases)
  case (1 db r db')
  have "lifecycle (db\<lparr>sessions_table := AList.update job q (sessions_table db)\<rparr>)" if "ss_state q = SessionState_as_str st" for q
    using 1(2) by (rule lifecycle_sessions, intro ball_update) (use 1(2) that in \<open>auto simp: lifecycle_simps\<close>)
  with 1 show ?case by (auto split: option.splits if_splits)
qed

lemma store_keeps_record_turn: "lifecycle db \<Longrightarrow> lifecycle (snd (record_turn followup job turn deadline st now db))"
proof -
  assume db: "lifecycle db"
  let ?db = "snd (node_write (clear_refused followup job turn) db)"
  have "lifecycle ?db"
    using db unfolding clear_refused_def by (rule life.write_keeps) (rule lifecycle_turns, assumption, auto simp: lifecycle_simps)
  moreover from this have "lifecycle (snd (node_try (\<lambda>db. Inr (insert_turn followup job turn deadline st now db)) ?db))"
    by (rule life.try_keeps) (auto simp: insert_turn_def lifecycle_simps split: if_splits)
  ultimately show ?thesis
    by (auto simp: record_turn_def st_bind_def split: prod.splits sum.splits)
qed

lemma store_keeps_deliver_turn:
  "lifecycle db \<Longrightarrow> lifecycle (snd (deliver_turn_and_enqueue c followup job turn oid draft created expires now db))"
  unfolding deliver_turn_and_enqueue_def
proof (rule life.try_keeps, assumption, goal_cases)
  case (1 db r db')
  let ?db1 = "update_turn followup (\<lambda>r. r\<lparr>tn_state := ''delivered'', tn_delivery_oid := oid, tn_updated_at_unix := now\<rparr>) db"
  have "lifecycle ?db1" using 1(2) by (rule lifecycle_update_turn) simp
  then have "lifecycle (?db1\<lparr>sessions_table := update_row job (\<lambda>r. r\<lparr>ss_turn := max (ss_turn r) turn,
      ss_base_oid := coalesce oid (ss_base_oid r), ss_last_turn_at := now\<rparr>) (sessions_table ?db1)\<rparr>)"
    by (rule lifecycle_update_session) simp
  with 1 lifecycle_enqueue show ?case
    by (auto simp: Let_def split: option.splits if_splits elim!: try_bind_InrE)
qed

text \<open>The operations on remittances leave the jobs alone and no receipt loses its job.\<close>

definition books_frame :: "seller_db \<Rightarrow> seller_db \<Rightarrow> bool" where
  "books_frame m m' \<longleftrightarrow> jobs m' = jobs m \<and> map (rc_job_id \<circ> snd) (receipts m') = map (rc_job_id \<circ> snd) (receipts m)"

lemma lifecycle_books:
  assumes "lifecycle db" and "books_frame (money db) m"
  shows "lifecycle (db\<lparr>money := m\<rparr>)"
proof -
  have "(rc_job_id \<circ> snd) ` set (receipts m) = (rc_job_id \<circ> snd) ` set (receipts (money db))"
    using assms(2) by (metis books_frame_def set_map)
  then have "paid_has_receipt (jobs (money db)) (receipts m)"
    using assms(1) unfolding lifecycle_def paid_has_receipt_def image_def by (simp add: set_eq_iff) metis
  then show ?thesis using assms by (simp add: lifecycle_simps books_frame_def)
qed

lemma pin_frame: "map (rc_job_id \<circ> snd) (pin i rs) = map (rc_job_id \<circ> snd) rs"
  "map (rc_job_id \<circ> snd) (unpin i rs) = map (rc_job_id \<circ> snd) rs"
  by (auto simp: pin_def unpin_def)

lemma tx_frames:
  "plan_tx plan who lease now m = Inr (row, m') \<Longrightarrow> books_frame m m'"
  "admit_tx i who quote margin now m = Inr (verdict, m') \<Longrightarrow> books_frame m m'"
  "replan_tx i who replan m = Inr (back, m') \<Longrightarrow> books_frame m m'"
  "settle_tx i settlement now m = Inr (row, m') \<Longrightarrow> books_frame m m'"
  "release_tx i on now m = Inr (back, m') \<Longrightarrow> books_frame m m'"
  unfolding plan_tx_def admit_tx_def replan_tx_def settle_tx_def release_tx_def Let_def
  by (auto simp: books_frame_def pin_frame elim!: try_bind_InrE split: option.splits if_splits)

lemma store_keeps_remit_writes:
  assumes "lifecycle db"
  shows "lifecycle (snd (on_money (admit_remittance_spend i who quote margin now) db))"
    "lifecycle (snd (on_money (replan_remittance i who replan) db))"
    "lifecycle (snd (on_money (settle_remittance i settlement now) db))"
    "lifecycle (snd (on_money (release_remittance i on now) db))"
    "lifecycle (snd (on_money (record_remit_attempt a) db))"
proof -
  have "lifecycle (snd (on_money (sdb_try (admit_tx i who quote margin now)) db))"
    using assms by (rule life.money_try_keeps) (metis lifecycle_books tx_frames(2))
  then show "lifecycle (snd (on_money (admit_remittance_spend i who quote margin now) db))"
    using assms by (auto simp: on_money_def admit_remittance_spend_def split: if_splits)
  have "lifecycle (snd (on_money (sdb_try (replan_tx i who replan)) db))"
    using assms by (rule life.money_try_keeps) (metis lifecycle_books tx_frames(3))
  then show "lifecycle (snd (on_money (replan_remittance i who replan) db))"
    using assms by (auto simp: on_money_def replan_remittance_def split: if_splits)
  show "lifecycle (snd (on_money (settle_remittance i settlement now) db))"
    unfolding settle_remittance_def using assms by (rule life.money_try_keeps) (metis lifecycle_books tx_frames(4))
  show "lifecycle (snd (on_money (release_remittance i on now) db))"
    unfolding release_remittance_def using assms by (rule life.money_try_keeps) (metis lifecycle_books tx_frames(5))
  show "lifecycle (snd (on_money (record_remit_attempt a) db))"
    unfolding record_remit_attempt_def using assms
    by (rule life.money_try_keeps) (auto simp: lifecycle_simps split: if_splits)
qed

lemma store_keeps_plan:
  assumes "lifecycle db"
  shows "lifecycle (snd (on_money (plan_remittance plan who lease now) db))"
proof -
  let ?m = "snd (sdb_call (money db))"
  have call: "lifecycle (db\<lparr>money := ?m\<rparr>)"
    using assms by (auto simp: sdb_call_def split: list.splits option.splits)
  have "lifecycle (db\<lparr>money := m'\<rparr>)" if "plan_tx plan who lease now ?m = Inr (row, m')" for row m'
    using lifecycle_books [OF call, of m'] tx_frames(1) [OF that] by simp
  with assms call show ?thesis
    by (auto simp: on_money_def plan_remittance_def st_bind_def st_map_err_def map_err_def split: prod.splits sum.splits if_splits)
qed

lemmas store_keeps = store_keeps_claim store_keeps_release_claim store_keeps_award store_keeps_deliver store_keeps_job_writes store_keeps_fail store_keeps_collect
  store_keeps_outbox_writes store_keeps_offer_writes store_keeps_checks store_keeps_session_writes store_keeps_session_state store_keeps_record_turn
  store_keeps_deliver_turn store_keeps_remit_writes store_keeps_plan

lemma node_exec_keeps: "lifecycle db \<Longrightarrow> lifecycle (node_exec c op db)"
  by (cases op) (simp_all add: store_keeps mark_public_v2_offer_def mark_private_offer_def request_session_close_def)

lemma lifecycle_empty: "lifecycle (empty_node faults)"
  by (simp add: empty_node_def lifecycle_simps wf_outbox_def claims_announced_def deliveries_announced_def jobs_awarded_def
      awards_have_jobs_def paid_has_receipt_def)

lemma node_run_keeps: "lifecycle db \<Longrightarrow> lifecycle (node_run c ops db)"
  unfolding node_run_def by (induction ops arbitrary: db) (simp_all add: node_exec_keeps)

section \<open>What the database promises\<close>

text \<open>C7. Whatever operations the node runs on its database, and whichever of them SQLite fails, the
  rows that belong together are there together: a claim has its claim event in the outbox and a
  delivery its result event, since each pair is one transaction; a job exists exactly for a claim
  that is awarded, carries the offer of that claim and has an award on record; a job is paid only
  when a receipt for it was collected; and no two outbox rows have the same key.\<close>

theorem committed_work_has_its_event:
  fixes c faults ops
  defines "db \<equiv> node_run c ops (empty_node faults)"
  shows "(map_of (claims db) j \<noteq> None \<longrightarrow> ''claim:'' @ j \<in> outbox_keys (outbox db)) \<and>
    (map_of (deliveries db) j \<noteq> None \<longrightarrow> ''result:'' @ j \<in> outbox_keys (outbox db)) \<and>
    (map_of (jobs (money db)) j \<noteq> None \<longleftrightarrow> (\<exists>offer. claim_state j db = Some (''awarded'', offer))) \<and>
    (\<forall>r. map_of (jobs (money db)) j = Some r \<longrightarrow>
       claim_state j db = Some (''awarded'', jb_offer_id r) \<and> (\<exists>a \<in> set (awards db). ae_job_id (snd a) = j) \<and>
       (jb_state r = ''paid'' \<longrightarrow> has_receipt_in db j)) \<and>
    distinct (map ob_dedup_key (outbox db))"
proof -
  have db: "lifecycle db" unfolding db_def by (intro node_run_keeps lifecycle_empty)
  have job: "claim_state j db = Some (''awarded'', jb_offer_id r) \<and> (\<exists>a \<in> set (awards db). ae_job_id (snd a) = j)"
    if "map_of (jobs (money db)) j = Some r" for r
    using db that by (fastforce simp: lifecycle_def jobs_awarded_def claim_state_def)
  moreover have "map_of (jobs (money db)) j \<noteq> None" if "claim_state j db = Some (''awarded'', offer)" for offer
    using db that unfolding lifecycle_def awards_have_jobs_def claim_state_def by auto
  moreover have "has_receipt_in db j" if "map_of (jobs (money db)) j = Some r" "jb_state r = ''paid''" for r
    using db that map_of_SomeD [OF that(1)] unfolding lifecycle_def paid_has_receipt_def has_receipt_in_def by blast
  moreover have "''claim:'' @ j \<in> outbox_keys (outbox db)" if "map_of (claims db) j \<noteq> None"
    using db that unfolding lifecycle_def claims_announced_def by blast
  moreover have "''result:'' @ j \<in> outbox_keys (outbox db)" if "map_of (deliveries db) j \<noteq> None"
    using db that unfolding lifecycle_def deliveries_announced_def by blast
  ultimately show ?thesis using db unfolding lifecycle_def wf_outbox_def by blast
qed

definition demo_codec :: store_codec where
  "demo_codec = \<lparr>draft_to_json = (\<lambda>d. Inr (ed_content d)),
     draft_from_json = (\<lambda>s. Inr \<lparr>ed_kind = JOB_RESULT_KIND, ed_tags = [], ed_content = s\<rparr>),
     modes_to_json = (\<lambda>_. None), modes_from_json = (\<lambda>_. None),
     capability_to_json = (\<lambda>_. []), capability_from_json = Inl\<rparr>"

definition demo_draft :: "string \<Rightarrow> EventDraft" where
  "demo_draft s = \<lparr>ed_kind = JOB_RESULT_KIND, ed_tags = [], ed_content = s\<rparr>"

text \<open>A job from its claim to its receipt; the first try of the delivery fails.\<close>

definition demo_ops :: "node_op list" where
  "demo_ops =
     [Op_claim_and_enqueue ''j'' ''o'' None (demo_draft ''claim'') 10 100 10,
      Op_record_award ''a'' ''j'' ''b'' 11,
      Op_mark_executing ''j'' 12,
      Op_deliver_and_enqueue ''j'' ''r'' PaySat (demo_draft ''result'') 13 100 13,
      Op_deliver_and_enqueue ''j'' ''r'' PaySat (demo_draft ''result'') 14 100 14,
      Op_collect_receipt ''p'' ''j'' 100 \<lparr>mint_fee_sats = 0, fee_bps = 1000, fee_sats = 10\<rparr> 15]"

definition demo_node :: node_db where
  "demo_node = node_run demo_codec demo_ops (empty_node [None, None, None, Some ''disk I/O error''])"

lemma demo_node_rows:
  "map_of (claims demo_node) ''j'' \<noteq> None" "map_of (deliveries demo_node) ''j'' \<noteq> None"
  "map_option jb_state (map_of (jobs (money demo_node)) ''j'') = Some ''paid''" "sdb_faults (money demo_node) = []"
  by code_simp+

theorem committed_work_has_its_event_witness:
  "''claim:j'' \<in> outbox_keys (outbox demo_node) \<and> ''result:j'' \<in> outbox_keys (outbox demo_node) \<and>
   (\<exists>offer. claim_state ''j'' demo_node = Some (''awarded'', offer)) \<and> has_receipt_in demo_node ''j''"
  using committed_work_has_its_event [of demo_codec demo_ops "[None, None, None, Some ''disk I/O error'']" "''j''",
      folded demo_node_def] demo_node_rows
  by auto

lemma try_fold_reads:
  "(\<And>x. x \<in> set xs \<Longrightarrow> \<exists>y. g x = Inr y) \<Longrightarrow>
   \<exists>ys. try_fold (\<lambda>acc x. try_bind (g x) (\<lambda>y. Inr (acc @ [y]))) acc xs = Inr ys"
proof (induction xs arbitrary: acc)
  case (Cons x xs)
  then obtain y where "g x = Inr y" by fastforce
  with Cons show ?case by simp
qed simp

lemma read_job_step:
  "(\<lambda>js (j, r). case JobState_parse (jb_state r) of None \<Rightarrow> Inl e | Some s \<Rightarrow> Inr (js @ [(j, s)])) =
   (\<lambda>js x. try_bind (ok_or e (map_option (Pair (fst x)) (JobState_parse (jb_state (snd x))))) (\<lambda>y. Inr (js @ [y])))"
  by (auto simp: fun_eq_iff split: option.splits)

lemma node_read_ok: "sdb_faults (money db) = [] \<Longrightarrow> fst (node_read f db) = f db"
  by (cases "f db") (simp_all add: node_read_def node_try_def sdb_call_def)

text \<open>C26. Every column that holds the name of a state always holds one of the names that its reader
  knows: whatever was written, reading jobs, sessions, turns and declared checks back never ends in
  an unknown state, it fails only when SQLite does.\<close>

theorem state_columns_read_back:
  fixes c faults ops
  defines "db \<equiv> node_run c ops (empty_node faults)"
  assumes "sdb_faults (money db) = []"
  shows "(\<exists>s. fst (job_state job db) = Inr s) \<and> (\<exists>js. fst (resumable_jobs db) = Inr js) \<and>
    (\<exists>s. fst (session_of job db) = Inr s) \<and> (\<exists>ss. fst (sessions db) = Inr ss) \<and>
    (\<exists>t. fst (turn_of followup db) = Inr t) \<and> (\<exists>ts. fst (turns_of job db) = Inr ts) \<and>
    (\<exists>ts. fst (unfinished_turns db) = Inr ts) \<and> (\<exists>k. fst (job_checks job db) = Inr k)"
proof -
  have "states_parse db"
    using node_run_keeps [OF lifecycle_empty] unfolding db_def lifecycle_def by blast
  then have parse: "\<And>j r. (j, r) \<in> set (jobs (money db)) \<Longrightarrow> \<exists>s. JobState_parse (jb_state r) = Some s"
    "\<And>j r. (j, r) \<in> set (sessions_table db) \<Longrightarrow> \<exists>s. read_session j r = Inr s"
    "\<And>j r. (j, r) \<in> set (session_turns db) \<Longrightarrow> \<exists>s. read_turn j r = Inr s"
    "\<And>j r. (j, r) \<in> set (job_checks_table db) \<Longrightarrow> \<exists>s. EnvKind_from_wire (ck_env_kind r) = Some s"
    by (fastforce simp: states_parse_def read_session_def read_turn_def)+
  have turns: "\<exists>ts. read_turns xs = Inr ts" if "set xs \<subseteq> set (session_turns db)" for xs
    unfolding read_turns_def split_def using parse(3) that by (intro try_fold_reads) (auto simp: split_beta)
  have "\<exists>s. fst (job_state job db) = Inr s"
    using assms parse(1) map_of_SomeD by (fastforce simp: job_state_def node_read_ok split: option.splits)
  moreover have "\<exists>js. fst (resumable_jobs db) = Inr js"
    unfolding resumable_jobs_def read_job_step using parse(1) assms
    by (simp add: node_read_ok) (intro try_fold_reads, fastforce)
  moreover have "\<exists>s. fst (session_of job db) = Inr s"
    using assms parse(2) map_of_SomeD by (fastforce simp: session_of_def node_read_ok split: option.splits)
  moreover have "\<exists>ss. fst (sessions db) = Inr ss"
    unfolding sessions_def split_def using parse(2) assms
    by (simp add: node_read_ok split_beta) (intro try_fold_reads, auto)
  moreover have "\<exists>t. fst (turn_of followup db) = Inr t"
    using assms parse(3) map_of_SomeD by (fastforce simp: turn_of_def turn_in_def node_read_ok split: option.splits)
  moreover have "\<exists>ts. fst (turns_of job db) = Inr ts"
    using assms turns by (auto simp: turns_of_def turns_in_def node_read_ok)
  moreover have "\<exists>ts. fst (unfinished_turns db) = Inr ts"
    using assms turns by (auto simp: unfinished_turns_def node_read_ok)
  moreover have "\<exists>k. fst (job_checks job db) = Inr k"
    using assms parse(4) map_of_SomeD by (fastforce simp: job_checks_def node_read_ok split: option.splits)
  ultimately show ?thesis by blast
qed

theorem state_columns_read_back_witness:
  "(\<exists>s. fst (job_state ''j'' demo_node) = Inr s) \<and> (\<exists>js. fst (resumable_jobs demo_node) = Inr js)"
  using state_columns_read_back [of demo_codec demo_ops "[None, None, None, Some ''disk I/O error'']" "''j''" "''f''",
      folded demo_node_def] demo_node_rows(4)
  by blast

end
