(* ===== verification/Seller_Outbox.thy ===== *)
theory Seller_Outbox
  imports Seller_Lifecycle Processes "HOL-Library.Sublist"
begin

text \<open>
  The outbox publisher, \<^verbatim>\<open>seller_node/outbox.rs\<close>: one bounded pass over the pending rows. A
  pass is a program whose atomic actions are the transactions of the store, the reads of the clock
  and the calls of the publisher; a pass that is dropped is a program that is never continued. The
  publisher and the timer of the runtime are arguments. An \<open>Instant\<close> is a natural number of
  nanoseconds; the counters of a report are naturals, each at most the number of rows of the batch.
\<close>

section \<open>The pass\<close>

text \<open>\<open>publish_within d i\<close> is the call \<open>timeout(d, publish(i))\<close>, with \<open>None\<close> when the time ran
  out; the event may or may not have reached the relay.\<close>

record 'w EventPublisher =
  publish :: "OutboxItem \<Rightarrow> 'w \<Rightarrow> (string + string) \<times> 'w"
  publish_within :: "nat \<Rightarrow> OutboxItem \<Rightarrow> 'w \<Rightarrow> (string + string) option \<times> 'w"
  instant_now :: "'w \<Rightarrow> nat \<times> 'w"

record DrainReport =
  dr_confirmed :: nat
  dr_failed :: nat
  dr_expired :: nat
  dr_deferred :: nat

definition DrainReport_default :: DrainReport where
  "DrainReport_default = \<lparr>dr_confirmed = 0, dr_failed = 0, dr_expired = 0, dr_deferred = 0\<rparr>"

record DrainLimits =
  drain_deadline :: "nat option"
  max_rows :: nat
  fresh_only :: bool

definition limits_within :: "nat \<Rightarrow> nat \<Rightarrow> nat \<Rightarrow> DrainLimits" where
  "limits_within now budget rows = \<lparr>drain_deadline = Some (now + budget), max_rows = rows, fresh_only = False\<rparr>"

definition limits_fresh_within :: "nat \<Rightarrow> nat \<Rightarrow> nat \<Rightarrow> DrainLimits" where
  "limits_fresh_within now budget rows = (limits_within now budget rows)\<lparr>fresh_only := True\<rparr>"

definition limits_unbounded :: DrainLimits where
  "limits_unbounded = \<lparr>drain_deadline = None, max_rows = 2 ^ 64 - 1, fresh_only = False\<rparr>"

datatype Published = PubSettled | PubNotStarted | PubCutShort

record 'w node_state =
  node :: node_db
  relay :: 'w
  sent :: "OutboxItem list"

definition on_node :: "(node_db \<Rightarrow> 'a \<times> node_db) \<Rightarrow> ('w node_state, 'a) proc" where
  "on_node m = atomic (\<lambda>s. case m (node s) of (r, d) \<Rightarrow> (r, s\<lparr>node := d\<rparr>))"

definition clock_now :: "'w EventPublisher \<Rightarrow> ('w node_state, nat) proc" where
  "clock_now e = atomic (\<lambda>s. case instant_now e (relay s) of (t, w) \<Rightarrow> (t, s\<lparr>relay := w\<rparr>))"

definition send_item :: "OutboxItem \<Rightarrow> ('w \<Rightarrow> 'a \<times> 'w) \<Rightarrow> ('w node_state, 'a) proc" where
  "send_item item m = atomic (\<lambda>s. case m (relay s) of (r, w) \<Rightarrow> (r, s\<lparr>relay := w, sent := sent s @ [item]\<rparr>))"

definition ptry :: "('s, 'e + 'a) proc \<Rightarrow> ('a \<Rightarrow> ('s, 'e + 'b) proc) \<Rightarrow> ('s, 'e + 'b) proc" where
  "ptry p k = pbind p (\<lambda>r. case r of Inl e \<Rightarrow> Done (Inl e) | Inr x \<Rightarrow> k x)"

definition record_outcome ::
  "OutboxItem \<Rightarrow> int \<Rightarrow> DrainReport \<Rightarrow> (string + string) option \<Rightarrow> ('w node_state, string + (Published \<times> DrainReport)) proc"
where
  "record_outcome item now report outcome =
     (case outcome of
        Some (Inr event) \<Rightarrow>
          ptry (on_node (mark_confirmed (oi_id item) event now)) (\<lambda>_.
            Done (Inr (PubSettled, report\<lparr>dr_confirmed := dr_confirmed report + 1\<rparr>)))
      | Some (Inl _) \<Rightarrow>
          ptry (on_node (record_attempt (oi_id item) now)) (\<lambda>_.
            Done (Inr (PubSettled, report\<lparr>dr_failed := dr_failed report + 1\<rparr>)))
      | None \<Rightarrow>
          ptry (on_node (record_attempt (oi_id item) now)) (\<lambda>_.
            Done (Inr (PubCutShort, report\<lparr>dr_failed := dr_failed report + 1\<rparr>))))"

definition publish_one ::
  "'w EventPublisher \<Rightarrow> OutboxItem \<Rightarrow> int \<Rightarrow> nat option \<Rightarrow> DrainReport \<Rightarrow>
   ('w node_state, string + (Published \<times> DrainReport)) proc"
where
  "publish_one e item now deadline report =
     (case deadline of
        None \<Rightarrow> pbind (send_item item (publish e item)) (\<lambda>r. record_outcome item now report (Some r))
      | Some d \<Rightarrow> pbind (clock_now e) (\<lambda>t.
          if d \<le> t then Done (Inr (PubNotStarted, report))
          else pbind (send_item item (publish_within e (d - t) item)) (record_outcome item now report)))"

fun drain_batch ::
  "'w EventPublisher \<Rightarrow> int \<Rightarrow> nat option \<Rightarrow> nat \<Rightarrow> nat \<Rightarrow> OutboxItem list \<Rightarrow> DrainReport \<Rightarrow> ('w node_state, string + DrainReport) proc"
where
  "drain_batch e now deadline tot tried [] report = Done (Inr report)"
| "drain_batch e now deadline tot tried (item # items) report =
     ptry (publish_one e item now deadline report) (\<lambda>(p, report).
       case p of
         PubSettled \<Rightarrow> drain_batch e now deadline tot (tried + 1) items report
       | PubNotStarted \<Rightarrow> Done (Inr (report\<lparr>dr_deferred := tot - tried\<rparr>))
       | PubCutShort \<Rightarrow> Done (Inr (report\<lparr>dr_deferred := tot - tried - 1\<rparr>)))"

definition drain_within ::
  "store_codec \<Rightarrow> 'w EventPublisher \<Rightarrow> int \<Rightarrow> DrainLimits \<Rightarrow> ('w node_state, string + DrainReport) proc"
where
  "drain_within c e now limits =
     ptry (on_node (expire_outbox now)) (\<lambda>expired.
     ptry (on_node (pending_outbox_batch c now (max_rows limits) (fresh_only limits))) (\<lambda>batch.
       drain_batch e now (drain_deadline limits) (length batch) 0 batch (DrainReport_default\<lparr>dr_expired := expired\<rparr>)))"

definition drain_once :: "store_codec \<Rightarrow> 'w EventPublisher \<Rightarrow> int \<Rightarrow> ('w node_state, string + DrainReport) proc" where
  "drain_once c e now = drain_within c e now limits_unbounded"

definition drain_key ::
  "store_codec \<Rightarrow> 'w EventPublisher \<Rightarrow> string \<Rightarrow> int \<Rightarrow> DrainLimits \<Rightarrow> ('w node_state, string + DrainReport) proc"
where
  "drain_key c e key now limits =
     ptry (on_node (pending_outbox_row c key now)) (\<lambda>found.
       case found of
         None \<Rightarrow> Done (Inr DrainReport_default)
       | Some item \<Rightarrow>
           ptry (publish_one e item now (drain_deadline limits) DrainReport_default) (\<lambda>(p, report).
             Done (Inr (if p = PubNotStarted then report\<lparr>dr_deferred := 1\<rparr> else report))))"

section \<open>What a row keeps\<close>

text \<open>The columns of an outbox row that no operation changes.\<close>

definition fixed_part :: "outbox_row \<Rightarrow> int \<times> string \<times> string \<times> int" where
  "fixed_part r = (ob_id r, ob_dedup_key r, ob_draft_json r, ob_created_at_unix r)"

interpretation ext: store_invariant "\<lambda>db. prefix base (map fixed_part (outbox db))" for base
  by unfold_locales simp

lemma map_keeps_fixed: "(\<And>r. fixed_part (f r) = fixed_part r) \<Longrightarrow> map fixed_part (map f obs) = map fixed_part obs"
  by simp

lemma outbox_on_money [simp]: "outbox (snd (on_money m db)) = outbox db"
  by (simp add: on_money_def split: prod.splits)

lemma outbox_untouched [simp]:
  "outbox (update_job j f db) = outbox db" "outbox (update_turn i g db) = outbox db"
  "outbox (clear_refused followup job turn db) = outbox db"
  "outbox (snd (insert_turn followup job turn deadline st now db)) = outbox db"
  by (simp_all add: update_job_def update_turn_def clear_refused_def insert_turn_def)

lemma enqueue_extends:
  "enqueue_event c key draft created expires now db = Inr db' \<Longrightarrow> prefix (map fixed_part (outbox db)) (map fixed_part (outbox db'))"
  by (erule enqueue_event_appends) simp

lemma extends_enqueue:
  "prefix base (map fixed_part (outbox db)) \<Longrightarrow> enqueue_event c key draft created expires now db = Inr db' \<Longrightarrow>
   prefix base (map fixed_part (outbox db'))"
  using enqueue_extends prefix_order.trans by blast

lemma outbox_cong_enqueue:
  "enqueue_event c key draft created expires now db = Inr db' \<Longrightarrow> outbox db = outbox d \<Longrightarrow>
   prefix base (map fixed_part (outbox d)) \<Longrightarrow> prefix base (map fixed_part (outbox db'))"
  using extends_enqueue by metis

lemma extends_announced:
  assumes "prefix base (map fixed_part (outbox db))"
  shows "prefix base (map fixed_part (outbox (snd (claim_and_enqueue c job offer creq draft created expires now db))))"
    "prefix base (map fixed_part (outbox (snd (deliver_and_enqueue c job ref mode draft created expires now db))))"
    "prefix base (map fixed_part (outbox (snd (deliver_turn_and_enqueue c followup job turn oid draft created expires now db))))"
proof -
  show "prefix base (map fixed_part (outbox (snd (claim_and_enqueue c job offer creq draft created expires now db))))"
    unfolding claim_and_enqueue_def using assms
    by (rule ext.try_keeps) (auto simp: Let_def elim!: try_bind_InrE outbox_cong_enqueue split: if_splits)
  show "prefix base (map fixed_part (outbox (snd (deliver_and_enqueue c job ref mode draft created expires now db))))"
    unfolding deliver_and_enqueue_def using assms
    by (rule ext.try_keeps) (auto simp: Let_def elim!: try_bind_InrE outbox_cong_enqueue split: if_splits)
  show "prefix base (map fixed_part (outbox (snd (deliver_turn_and_enqueue c followup job turn oid draft created expires now db))))"
    unfolding deliver_turn_and_enqueue_def using assms
    by (rule ext.try_keeps) (auto simp: Let_def elim!: try_bind_InrE outbox_cong_enqueue split: if_splits option.splits)
qed

lemma extends_rows:
  assumes "prefix base (map fixed_part (outbox db))"
  shows "prefix base (map fixed_part (outbox (snd (mark_confirmed i event now db))))"
    "prefix base (map fixed_part (outbox (snd (record_attempt i now db))))"
    "prefix base (map fixed_part (outbox (snd (expire_outbox now db))))"
proof -
  have same: "(fixed_part \<circ> (\<lambda>r. if P r then f r else r)) = fixed_part" if "\<And>r. fixed_part (f r) = fixed_part r" for P f
    using that by auto
  show "prefix base (map fixed_part (outbox (snd (mark_confirmed i event now db))))"
    unfolding mark_confirmed_def update_outbox_def using assms
    by (rule ext.write_keeps) (simp add: same fixed_part_def)
  show "prefix base (map fixed_part (outbox (snd (record_attempt i now db))))"
    unfolding record_attempt_def update_outbox_def using assms
    by (rule ext.write_keeps) (simp add: same fixed_part_def)
  show "prefix base (map fixed_part (outbox (snd (expire_outbox now db))))"
    unfolding expire_outbox_def using assms
    by (rule ext.try_keeps) (auto simp: Let_def same fixed_part_def)
qed

text \<open>Every other write leaves the outbox as it is.\<close>

lemma extends_writes:
  assumes "prefix base (map fixed_part (outbox db))" and "\<And>d. outbox (f d) = outbox d"
  shows "prefix base (map fixed_part (outbox (snd (node_write f db))))"
  using assms(1) by (rule ext.write_keeps) (simp add: assms(2))

lemma extends_tries:
  assumes "prefix base (map fixed_part (outbox db))" and "\<And>d r d'. f d = Inr (r, d') \<Longrightarrow> outbox d' = outbox d"
  shows "prefix base (map fixed_part (outbox (snd (node_try f db))))"
  using assms(1) by (rule ext.try_keeps) (simp add: assms(2))

lemma extends_record_turn:
  assumes "prefix base (map fixed_part (outbox db))"
  shows "prefix base (map fixed_part (outbox (snd (record_turn followup job turn deadline st now db))))"
proof -
  let ?db = "snd (node_write (clear_refused followup job turn) db)"
  have "prefix base (map fixed_part (outbox ?db))" using assms by (rule extends_writes) simp
  moreover from this have
    "prefix base (map fixed_part (outbox (snd (node_try (\<lambda>db. Inr (insert_turn followup job turn deadline st now db)) ?db))))"
    by (rule extends_tries) (metis outbox_untouched(4) snd_conv sum.inject(2))
  ultimately show ?thesis by (auto simp: record_turn_def st_bind_def split: prod.splits sum.splits)
qed

lemmas write_defs = record_offer_def record_contribution_pin_def record_job_checks_def mark_public_v2_offer_def
  mark_private_offer_def mark_meta_def release_claim_def record_award_def assign_agent_def mark_executing_def mark_pushed_def
  mark_settled_elsewhere_def append_pending_receive_def put_session_def set_session_state_def set_session_disk_bytes_def
  set_turn_state_def advance_session_def set_turn_text_def set_turn_result_def request_session_close_def

lemma node_exec_extends:
  assumes "prefix base (map fixed_part (outbox db))"
  shows "prefix base (map fixed_part (outbox (node_exec c op db)))"
  using assms
  by (cases op) (simp_all add: extends_announced extends_rows extends_record_turn node_fail_job_def node_collect_receipt_def;
    (unfold write_defs, (erule extends_writes | erule extends_tries), auto simp: Let_def split: option.splits if_splits))+

section \<open>Passes beside the rest of the node\<close>

text \<open>An item is backed by a row that holds its id, key, second of authorship and draft.\<close>

definition backed :: "store_codec \<Rightarrow> node_db \<Rightarrow> OutboxItem \<Rightarrow> bool" where
  "backed c db i \<longleftrightarrow> (\<exists>json. (oi_id i, oi_dedup_key i, json, oi_created_at_unix i) \<in> set (map fixed_part (outbox db)) \<and>
     draft_from_json c json = Inr (oi_draft i))"

definition outbox_env :: "store_codec \<Rightarrow> 'w node_state \<Rightarrow> 'w node_state \<Rightarrow> bool" where
  "outbox_env c s s' \<longleftrightarrow> sent s' = sent s \<and> (node s' = node s \<or> (\<exists>op. node s' = node_exec c op (node s)))"

definition outbox_start :: "store_codec \<Rightarrow> 'w EventPublisher \<Rightarrow> ('w node_state, string + DrainReport) proc \<Rightarrow> bool" where
  "outbox_start c e p \<longleftrightarrow> (\<exists>now limits. p = drain_within c e now limits) \<or> (\<exists>key now limits. p = drain_key c e key now limits)"

definition sent_backed :: "store_codec \<Rightarrow> 'w node_state \<Rightarrow> bool" where
  "sent_backed c s \<longleftrightarrow> lifecycle (node s) \<and> (\<forall>i \<in> set (sent s). backed c (node s) i)"

definition knows :: "store_codec \<Rightarrow> OutboxItem list \<Rightarrow> 'w node_state \<Rightarrow> bool" where
  "knows c items s \<longleftrightarrow> (\<forall>i \<in> set items. backed c (node s) i)"

lemma extends_backed: "prefix (map fixed_part (outbox db)) (map fixed_part (outbox db')) \<Longrightarrow> backed c db i \<Longrightarrow> backed c db' i"
  unfolding backed_def using set_mono_prefix by blast

lemma node_exec_backed: "backed c db i \<Longrightarrow> backed c (node_exec c op db) i"
  using extends_backed [OF node_exec_extends [OF prefix_order.refl]] .

lemma outbox_env_backed: "outbox_env c s s' \<Longrightarrow> backed c (node s) i \<Longrightarrow> backed c (node s') i"
  using node_exec_backed by (fastforce simp: outbox_env_def)

interpretation pub: token_protocol "sent_backed c" "knows c" "\<lambda>_ _. True" "[]" "outbox_env c" "\<lambda>s s'. prefix (sent s) (sent s')"
  for c
proof unfold_locales
  fix s s' :: "'w node_state"
  assume "sent_backed c s" and env: "outbox_env c s s'"
  then show "sent_backed c s'"
    using outbox_env_backed [OF env] node_exec_keeps by (fastforce simp: sent_backed_def outbox_env_def)
next
  fix s s' :: "'w node_state" and t
  assume "outbox_env c s s'" "knows c t s"
  then show "knows c t s'" unfolding knows_def by (metis outbox_env_backed)
qed (auto simp: knows_def outbox_env_def)

text \<open>The atomic actions of a pass.\<close>

lemma follows_on_node:
  assumes "\<And>db. lifecycle db \<Longrightarrow> lifecycle (snd (m db)) \<and> prefix (map fixed_part (outbox db)) (map fixed_part (outbox (snd (m db))))"
    and "\<And>db. lifecycle db \<Longrightarrow> Q (fst (m db)) items \<or> (\<exists>more. (\<forall>i \<in> set more. backed c (snd (m db)) i) \<and> Q (fst (m db)) more)"
  shows "pub.follows c (on_node m) items Q"
  unfolding on_node_def
proof (rule pub.follows_atomic)
  fix s
  assume s: "sent_backed c s" "knows c items s"
  then have life: "lifecycle (node s)" by (simp add: sent_backed_def)
  let ?db = "snd (m (node s))"
  have grow: "backed c ?db i" if "backed c (node s) i" for i
    using extends_backed assms(1) [OF life] that by blast
  obtain more where more: "\<forall>i \<in> set more. backed c ?db i" "Q (fst (m (node s))) more"
    using assms(2) [OF life] s(2) grow by (auto simp: knows_def)
  have "pub.move c items more s (s\<lparr>node := ?db\<rparr>)"
    using s more(1) grow assms(1) [OF life] by (auto simp: pub.move_def sent_backed_def knows_def)
  with more(2) show "\<exists>t'. pub.move c items t' s (snd (case m (node s) of (r, d) \<Rightarrow> (r, s\<lparr>node := d\<rparr>))) \<and>
      Q (fst (case m (node s) of (r, d) \<Rightarrow> (r, s\<lparr>node := d\<rparr>))) t'"
    by (auto simp: split_beta)
qed

lemma follows_send_item: "item \<in> set items \<Longrightarrow> pub.follows c (send_item item m) items (\<lambda>_ t. t = items)"
  unfolding send_item_def
  by (rule pub.follows_atomic) (auto simp: pub.move_def sent_backed_def knows_def split_beta)

lemma follows_instant: "pub.follows c (clock_now e) items (\<lambda>_ t. t = items)"
  unfolding clock_now_def
  by (rule pub.follows_atomic) (auto simp: pub.move_def sent_backed_def knows_def split_beta)

lemma follows_ptry:
  assumes "pub.follows c p t (\<lambda>r u. case r of Inl _ \<Rightarrow> True | Inr x \<Rightarrow> Q x u)"
    and "\<And>x u. Q x u \<Longrightarrow> pub.follows c (k x) u R" and "\<And>e u. R (Inl e) u"
  shows "pub.follows c (ptry p k) t R"
  unfolding ptry_def using assms(1)
  by (rule pub.follows_bind) (auto simp: assms(2,3) split: sum.splits)

lemma read_items_rows:
  assumes "try_fold (\<lambda>items r. try_bind (read_outbox_item c r) (\<lambda>i. Inr (items @ [i]))) acc rows = Inr items" and "i \<in> set items"
  shows "i \<in> set acc \<or> (\<exists>r \<in> set rows. read_outbox_item c r = Inr i)"
  using assms
proof (induction rows arbitrary: acc)
  case (Cons r rows)
  then obtain x where "read_outbox_item c r = Inr x" by (cases "read_outbox_item c r") simp_all
  with Cons show ?case by fastforce
qed simp

lemma read_items_backed:
  assumes "read_outbox_items c rows = Inr items" and "set rows \<subseteq> set (outbox db)" and "i \<in> set items"
  shows "backed c db i"
proof -
  obtain r where r: "r \<in> set (outbox db)" "read_outbox_item c r = Inr i"
    using read_items_rows [OF assms(1) [unfolded read_outbox_items_def] assms(3)] assms(2) by auto
  then have "fixed_part r = (oi_id i, oi_dedup_key i, ob_draft_json r, oi_created_at_unix i)"
    "draft_from_json c (ob_draft_json r) = Inr (oi_draft i)"
    by (auto simp: read_outbox_item_def fixed_part_def elim!: try_bind_InrE)
  then show ?thesis using r(1) unfolding backed_def set_map by (metis imageI)
qed

lemma node_read_outbox: "outbox (snd (node_read f db)) = outbox db"
  by (auto simp: node_read_def node_try_def try_bind_def split: prod.splits sum.splits)

lemma node_read_value: "fst (node_read f db) = Inr x \<Longrightarrow> \<exists>m. f (db\<lparr>money := m\<rparr>) = Inr x"
  by (auto simp: node_read_def node_try_def try_bind_def split: prod.splits sum.splits)

lemma follows_read:
  assumes "\<And>db x. f db = Inr x \<Longrightarrow> \<exists>more. (\<forall>i \<in> set more. backed c db i) \<and> Q x more"
  shows "pub.follows c (on_node (node_read f)) items (\<lambda>r u. case r of Inl _ \<Rightarrow> True | Inr x \<Rightarrow> Q x u)"
proof (rule follows_on_node)
  fix db :: node_db
  assume "lifecycle db"
  then show "lifecycle (snd (node_read f db)) \<and> prefix (map fixed_part (outbox db)) (map fixed_part (outbox (snd (node_read f db))))"
    by (simp add: life.read_keeps node_read_outbox)
  show "(case fst (node_read f db) of Inl _ \<Rightarrow> True | Inr x \<Rightarrow> Q x items) \<or>
      (\<exists>more. (\<forall>i \<in> set more. backed c (snd (node_read f db)) i) \<and> (case fst (node_read f db) of Inl _ \<Rightarrow> True | Inr x \<Rightarrow> Q x more))"
  proof (cases "fst (node_read f db)")
    case (Inr x)
    then obtain m more where "\<forall>i \<in> set more. backed c (db\<lparr>money := m\<rparr>) i" "Q x more"
      using node_read_value assms by metis
    with Inr show ?thesis by (auto simp: backed_def node_read_outbox)
  qed simp
qed

lemma follows_row_write:
  assumes "\<And>db. lifecycle db \<Longrightarrow> lifecycle (snd (m db))"
    and "\<And>db. prefix (map fixed_part (outbox db)) (map fixed_part (outbox (snd (m db))))"
  shows "pub.follows c (on_node m) items (\<lambda>r u. case r of Inl _ \<Rightarrow> True | Inr x \<Rightarrow> u = items)"
  by (rule follows_on_node) (auto simp: assms split: sum.splits)

lemmas row_writes = follows_row_write [OF store_keeps_outbox_writes(1) extends_rows(1) [OF prefix_order.refl]]
  follows_row_write [OF store_keeps_outbox_writes(2) extends_rows(2) [OF prefix_order.refl]]
  follows_row_write [OF store_keeps_outbox_writes(3) extends_rows(3) [OF prefix_order.refl]]

lemma follows_record_outcome:
  "pub.follows c (record_outcome item now report outcome) items (\<lambda>r u. case r of Inl _ \<Rightarrow> True | Inr x \<Rightarrow> u = items)"
  unfolding record_outcome_def
  by (auto split: option.splits sum.splits intro!: follows_ptry [OF row_writes(1)] follows_ptry [OF row_writes(2)])

lemma follows_publish_one:
  assumes "item \<in> set items"
  shows "pub.follows c (publish_one e item now deadline report) items (\<lambda>r u. case r of Inl _ \<Rightarrow> True | Inr x \<Rightarrow> u = items)"
  unfolding publish_one_def
  by (auto split: option.splits intro!: pub.follows_bind [OF follows_instant] pub.follows_bind [OF follows_send_item [OF assms]]
      follows_record_outcome)

lemma follows_drain_batch:
  "set items \<subseteq> set known \<Longrightarrow> pub.follows c (drain_batch e now deadline tot tried items report) known (\<lambda>_ _. True)"
proof (induction items arbitrary: tried report)
  case (Cons item items)
  then have "item \<in> set known" by simp
  then show ?case
    using Cons by (auto intro!: follows_ptry [OF follows_publish_one] split: Published.splits)
qed simp

lemma batch_rows_outbox: "set (batch_rows now limit fresh db) \<subseteq> set (outbox db)"
  unfolding batch_rows_def using set_take_subset by fastforce

lemma follows_starts: "outbox_start c e p \<Longrightarrow> pub.follows c p [] (\<lambda>_ _. True)"
proof -
  assume "outbox_start c e p"
  then consider now limits where "p = drain_within c e now limits" | key now limits where "p = drain_key c e key now limits"
    by (auto simp: outbox_start_def)
  then show ?thesis
  proof cases
    case 1
    have batch: "pub.follows c (on_node (pending_outbox_batch c now (max_rows limits) (fresh_only limits))) items
        (\<lambda>r u. case r of Inl _ \<Rightarrow> True | Inr batch \<Rightarrow> set batch \<subseteq> set u)" for items
      unfolding pending_outbox_batch_def
      by (rule follows_read) (use read_items_backed [OF _ batch_rows_outbox] in blast)
    show ?thesis
      unfolding 1 drain_within_def
      by (intro follows_ptry [OF row_writes(3)] follows_ptry [OF batch]) (auto intro: follows_drain_batch)
  next
    case 2
    have "pub.follows c (on_node (pending_outbox_row c key now)) items
        (\<lambda>r u. case r of Inl _ \<Rightarrow> True | Inr found \<Rightarrow> set_option found \<subseteq> set u)" for items
      unfolding pending_outbox_row_def
    proof (rule follows_read)
      fix db :: node_db and x
      assume "try_bind (read_outbox_items c (filter (\<lambda>r. ob_dedup_key r = key \<and> is_pending now r) (outbox db)))
        (\<lambda>items. Inr (case items of [] \<Rightarrow> None | i # _ \<Rightarrow> Some i)) = Inr x"
      then obtain its where its: "read_outbox_items c (filter (\<lambda>r. ob_dedup_key r = key \<and> is_pending now r) (outbox db)) = Inr its"
        and x: "x = (case its of [] \<Rightarrow> None | i # _ \<Rightarrow> Some i)"
        by (auto elim: try_bind_InrE)
      have "\<forall>i \<in> set its. backed c db i" using read_items_backed [OF its] by auto
      then show "\<exists>more. (\<forall>i \<in> set more. backed c db i) \<and> set_option x \<subseteq> set more"
        unfolding x by (intro exI [of _ its]) (auto split: list.splits)
    qed
    then show ?thesis
      unfolding 2 drain_key_def
      by (rule follows_ptry) (auto intro!: follows_ptry [OF follows_publish_one] split: option.splits)
  qed
qed

lemma sent_backed_reach:
  assumes "reach (outbox_start c e) (outbox_env c) \<lparr>node = empty_node faults, relay = w, sent = []\<rparr> ps s"
  shows "sent_backed c s"
  by (rule pub.reach_inv [OF _ _ assms]) (auto simp: follows_starts sent_backed_def lifecycle_empty)

text \<open>C8. However many passes run, at once or after a crash, beside whatever else the node does with
  its database: everything that is ever handed to the relay under one dedup key is the same event,
  the same draft at the same second of authorship and so the same event id; and it is the event of
  a row that is committed to the outbox.\<close>

theorem one_event_per_dedup_key:
  assumes "reach (outbox_start c e) (outbox_env c) \<lparr>node = empty_node faults, relay = w, sent = []\<rparr> ps s"
    and "i \<in> set (sent s)"
  shows "(\<forall>j \<in> set (sent s). oi_dedup_key j = oi_dedup_key i \<longrightarrow>
      oi_draft j = oi_draft i \<and> oi_created_at_unix j = oi_created_at_unix i) \<and>
    oi_dedup_key i \<in> outbox_keys (outbox (node s))"
proof -
  have s: "lifecycle (node s)" "\<And>j. j \<in> set (sent s) \<Longrightarrow> backed c (node s) j"
    using sent_backed_reach [OF assms(1)] by (auto simp: sent_backed_def)
  then have keys: "distinct (map ob_dedup_key (outbox (node s)))" by (simp add: lifecycle_def wf_outbox_def)
  have row: "\<exists>r \<in> set (outbox (node s)). ob_dedup_key r = oi_dedup_key j \<and> ob_created_at_unix r = oi_created_at_unix j \<and>
      draft_from_json c (ob_draft_json r) = Inr (oi_draft j)" if "j \<in> set (sent s)" for j
    using s(2) [OF that] by (auto simp: backed_def fixed_part_def)
  have same: "oi_draft j = oi_draft i \<and> oi_created_at_unix j = oi_created_at_unix i"
    if j: "j \<in> set (sent s)" "oi_dedup_key j = oi_dedup_key i" for j
  proof -
    obtain r q where "r \<in> set (outbox (node s))" "q \<in> set (outbox (node s))" "ob_dedup_key r = ob_dedup_key q"
      "ob_created_at_unix r = oi_created_at_unix i" "draft_from_json c (ob_draft_json r) = Inr (oi_draft i)"
      "ob_created_at_unix q = oi_created_at_unix j" "draft_from_json c (ob_draft_json q) = Inr (oi_draft j)"
      using row [OF assms(2)] row [OF j(1)] j(2) by metis
    moreover from this have "r = q" using keys by (metis distinct_map inj_onD)
    ultimately show ?thesis by auto
  qed
  moreover have "oi_dedup_key i \<in> outbox_keys (outbox (node s))"
    using row [OF assms(2)] unfolding outbox_keys_def by (metis imageI)
  ultimately show ?thesis by blast
qed

text \<open>A relay that refuses the first event and takes every later one.\<close>

definition demo_publisher :: "nat EventPublisher" where
  "demo_publisher =
     \<lparr>publish = (\<lambda>i n. (if n = 0 then Inl ''offline'' else Inr ''event'', n + 1)),
      publish_within = (\<lambda>d i n. (None, n + 1)), instant_now = (\<lambda>n. (n, n))\<rparr>"

definition demo_claimed :: node_db where
  "demo_claimed = node_exec demo_codec (Op_claim_and_enqueue ''j'' ''o'' None (demo_draft ''claim'') 10 100 10) (empty_node [])"

definition demo_limits :: DrainLimits where
  "demo_limits = \<lparr>drain_deadline = None, max_rows = 4, fresh_only = False\<rparr>"

definition demo_drained :: "nat node_state" where
  "demo_drained = snd (exec (drain_within demo_codec demo_publisher 12 demo_limits)
     (snd (exec (drain_within demo_codec demo_publisher 11 demo_limits) \<lparr>node = demo_claimed, relay = 0, sent = []\<rparr>)))"

lemma demo_drained_sent:
  "sent demo_drained = [\<lparr>oi_id = 1, oi_dedup_key = ''claim:j'', oi_draft = demo_draft ''claim'', oi_created_at_unix = 10,
       oi_attempts = 0, oi_expires_at_unix = 100\<rparr>,
     \<lparr>oi_id = 1, oi_dedup_key = ''claim:j'', oi_draft = demo_draft ''claim'', oi_created_at_unix = 10,
       oi_attempts = 1, oi_expires_at_unix = 100\<rparr>]"
  by code_simp

lemma demo_drained_reach:
  "\<exists>ps. reach (outbox_start demo_codec demo_publisher) (outbox_env demo_codec) \<lparr>node = empty_node [], relay = 0, sent = []\<rparr> ps demo_drained"
proof -
  let ?R = "reach (outbox_start demo_codec demo_publisher) (outbox_env demo_codec) \<lparr>node = empty_node [], relay = 0, sent = []\<rparr>"
  let ?s = "\<lparr>node = demo_claimed, relay = 0, sent = []\<rparr>" and ?d = "\<lambda>now. drain_within demo_codec demo_publisher now demo_limits"
  have start: "outbox_start demo_codec demo_publisher (?d n)" for n by (auto simp: outbox_start_def)
  have "?R [] ?s" by (rule reach.environment [OF reach.init]) (unfold outbox_env_def demo_claimed_def node_state.select_convs, blast)
  from reach_exec [OF this start prod.collapse [symmetric]]
  have "?R [Done (fst (exec (?d 11) ?s))] (snd (exec (?d 11) ?s))" by simp
  from reach_exec [OF this start prod.collapse [symmetric]] show ?thesis unfolding demo_drained_def by blast
qed

theorem one_event_per_dedup_key_witness:
  "length (sent demo_drained) = 2 \<and> oi_dedup_key (sent demo_drained ! 1) = oi_dedup_key (sent demo_drained ! 0) \<and>
   oi_draft (sent demo_drained ! 1) = oi_draft (sent demo_drained ! 0) \<and>
   oi_created_at_unix (sent demo_drained ! 1) = oi_created_at_unix (sent demo_drained ! 0)"
proof -
  obtain ps where ps: "reach (outbox_start demo_codec demo_publisher) (outbox_env demo_codec)
      \<lparr>node = empty_node [], relay = 0, sent = []\<rparr> ps demo_drained"
    using demo_drained_reach by blast
  have two: "length (sent demo_drained) = 2" "oi_dedup_key (sent demo_drained ! 1) = oi_dedup_key (sent demo_drained ! 0)"
    by (simp_all add: demo_drained_sent)
  then have "sent demo_drained ! 0 \<in> set (sent demo_drained)" "sent demo_drained ! 1 \<in> set (sent demo_drained)" by simp_all
  with one_event_per_dedup_key [OF ps] two show ?thesis by blast
qed

section \<open>A pass alone\<close>

lemma exec_ptry: "exec (ptry p k) s = (case exec p s of (Inl e, s') \<Rightarrow> (Inl e, s') | (Inr x, s') \<Rightarrow> exec (k x) s')"
  by (auto simp: ptry_def split: prod.splits sum.splits)

lemma exec_on_node: "exec (on_node m) s = (fst (m (node s)), s\<lparr>node := snd (m (node s))\<rparr>)"
  by (simp add: on_node_def split_beta)

lemma exec_send: "exec (send_item item m) s = (fst (m (relay s)), s\<lparr>relay := snd (m (relay s)), sent := sent s @ [item]\<rparr>)"
  by (simp add: send_item_def split_beta)

lemma exec_clock: "exec (clock_now e) s = (fst (instant_now e (relay s)), s\<lparr>relay := snd (instant_now e (relay s))\<rparr>)"
  by (simp add: clock_now_def split_beta)

lemmas exec_simps = exec_ptry exec_on_node exec_send exec_clock

lemma exec_record_outcome:
  assumes "exec (record_outcome item now report outcome) s = (Inr (p, report'), s')"
  shows "sent s' = sent s \<and> p \<noteq> PubNotStarted \<and> dr_confirmed report' + dr_failed report' = dr_confirmed report + dr_failed report + 1 \<and>
    dr_deferred report' = dr_deferred report \<and> dr_expired report' = dr_expired report"
  using assms by (auto simp: record_outcome_def exec_simps split: option.splits sum.splits prod.splits)

lemma exec_publish_one:
  assumes "exec (publish_one e item now deadline report) s = (Inr (p, report'), s')"
  shows "dr_deferred report' = dr_deferred report \<and> dr_expired report' = dr_expired report \<and>
    (if p = PubNotStarted then sent s' = sent s \<and> report' = report
     else sent s' = sent s @ [item] \<and> dr_confirmed report' + dr_failed report' = dr_confirmed report + dr_failed report + 1)"
proof (cases deadline)
  case None
  then show ?thesis using assms exec_record_outcome by (fastforce simp: publish_one_def exec_simps)
next
  case (Some d)
  let ?s = "s\<lparr>relay := snd (instant_now e (relay s))\<rparr>"
  show ?thesis
  proof (cases "d \<le> fst (instant_now e (relay s))")
    case True
    then show ?thesis using assms Some by (auto simp: publish_one_def exec_simps)
  next
    case False
    then show ?thesis using assms Some exec_record_outcome by (fastforce simp: publish_one_def exec_simps)
  qed
qed

lemma exec_drain_batch:
  assumes "exec (drain_batch e now deadline tot tried items report) s = (Inr report', s')"
    and "tot = tried + length items" and "dr_deferred report = 0"
  shows "\<exists>done rest. items = done @ rest \<and> sent s' = sent s @ done \<and> dr_deferred report' = length rest \<and>
    dr_confirmed report' + dr_failed report' = dr_confirmed report + dr_failed report + length done \<and>
    dr_expired report' = dr_expired report"
  using assms
proof (induction items arbitrary: tried report s)
  case (Cons item items)
  obtain p report1 s1 where one: "exec (publish_one e item now deadline report) s = (Inr (p, report1), s1)"
    and rest: "exec (case p of PubSettled \<Rightarrow> drain_batch e now deadline tot (tried + 1) items report1
       | PubNotStarted \<Rightarrow> Done (Inr (report1\<lparr>dr_deferred := tot - tried\<rparr>))
       | PubCutShort \<Rightarrow> Done (Inr (report1\<lparr>dr_deferred := tot - tried - 1\<rparr>))) s1 = (Inr report', s')"
    using Cons.prems(1) by (auto simp: exec_simps split: prod.splits sum.splits)
  note facts = exec_publish_one [OF one]
  show ?case
  proof (cases p)
    case PubSettled
    with rest facts Cons.prems Cons.IH [of "tried + 1" report1 s1] obtain don left where
      "items = don @ left" "sent s' = sent s1 @ don" "dr_deferred report' = length left"
      "dr_confirmed report' + dr_failed report' = dr_confirmed report1 + dr_failed report1 + length don"
      "dr_expired report' = dr_expired report1" by auto
    with facts PubSettled show ?thesis by (intro exI [of _ "item # don"] exI [of _ left]) auto
  next
    case PubNotStarted
    with rest facts Cons.prems show ?thesis by (intro exI [of _ "[]"] exI [of _ "item # items"]) auto
  next
    case PubCutShort
    with rest facts Cons.prems show ?thesis by (intro exI [of _ "[item]"] exI [of _ items]) auto
  qed
qed auto

text \<open>A pass reports what it did: it hands to the relay a prefix of the batch, in the order of the
  batch; the confirmed and failed rows are the ones of that prefix and the deferred ones the rest, so no
  row is tried twice in a pass and none is counted that was not reached.\<close>

theorem drain_pass_reports_its_batch:
  assumes "exec (drain_within c e now limits) s = (Inr report, s')"
  shows "\<exists>done rest. read_outbox_items c (batch_rows now (max_rows limits) (fresh_only limits) (snd (expire_outbox now (node s)))) =
      Inr (done @ rest) \<and> sent s' = sent s @ done \<and> dr_confirmed report + dr_failed report = length done \<and>
    dr_deferred report = length rest"
proof -
  let ?db = "snd (expire_outbox now (node s))" and ?rows = "batch_rows now (max_rows limits) (fresh_only limits)"
  obtain expired batch s1 where
    batch: "fst (pending_outbox_batch c now (max_rows limits) (fresh_only limits) ?db) = Inr batch"
    and run: "exec (drain_batch e now (drain_deadline limits) (length batch) 0 batch (DrainReport_default\<lparr>dr_expired := expired\<rparr>)) s1 =
       (Inr report, s')" and same: "sent s1 = sent s"
    using assms by (auto simp: drain_within_def exec_simps split: prod.splits sum.splits)
  obtain m where "read_outbox_items c (?rows (?db\<lparr>money := m\<rparr>)) = Inr batch"
    using node_read_value [OF batch [unfolded pending_outbox_batch_def]] by (elim exE)
  then have "read_outbox_items c (?rows ?db) = Inr batch" by (simp add: batch_rows_def)
  with exec_drain_batch [OF run] same show ?thesis by (simp add: DrainReport_default_def) metis
qed

theorem drain_pass_reports_its_batch_witness:
  "\<exists>done rest. read_outbox_items demo_codec (batch_rows 11 4 False (snd (expire_outbox 11 demo_claimed))) = Inr (done @ rest) \<and>
    length done = 1"
proof -
  let ?s = "\<lparr>node = demo_claimed, relay = 0, sent = []\<rparr>"
  have "fst (exec (drain_within demo_codec demo_publisher 11 demo_limits) ?s) =
      Inr \<lparr>dr_confirmed = 0, dr_failed = 1, dr_expired = 0, dr_deferred = 0\<rparr>" by code_simp
  then obtain s' where "exec (drain_within demo_codec demo_publisher 11 demo_limits) ?s =
      (Inr \<lparr>dr_confirmed = 0, dr_failed = 1, dr_expired = 0, dr_deferred = 0\<rparr>, s')" by (metis prod.collapse)
  from drain_pass_reports_its_batch [OF this] show ?thesis by (auto simp: demo_limits_def)
qed

text \<open>The order of a batch: never tried before tried, then by the last attempt, then by age.\<close>

definition before :: "outbox_row \<Rightarrow> outbox_row \<Rightarrow> bool" where
  "before r q \<longleftrightarrow> (ob_attempts r > 0) < (ob_attempts q > 0) \<or>
     (ob_attempts r > 0) = (ob_attempts q > 0) \<and> (ob_updated_at_unix r < ob_updated_at_unix q \<or>
       ob_updated_at_unix r = ob_updated_at_unix q \<and> ob_id r \<le> ob_id q)"

lemma sorted_wrt_sort_key:
  fixes f :: "'a \<Rightarrow> 'b::linorder"
  assumes "sorted_wrt R xs"
  shows "sorted_wrt (\<lambda>x y. f x < f y \<or> f x = f y \<and> R x y) (sort_key f xs)"
proof -
  have "sorted_wrt (\<lambda>x y. f x < f y \<or> f x = f y \<and> R x y) (insort_key f a ys)"
    if "sorted_wrt (\<lambda>x y. f x < f y \<or> f x = f y \<and> R x y) ys" "\<forall>y \<in> set ys. R a y" for a ys
    using that by (induction ys) (auto simp: set_insort_key)
  with assms show ?thesis by (induction xs) auto
qed

lemma sorted_wrt_take_drop:
  "sorted_wrt R xs \<Longrightarrow> x \<in> set (take n xs) \<Longrightarrow> y \<in> set (drop n xs) \<Longrightarrow> R x y"
  by (metis append_take_drop_id sorted_wrt_append)


text \<open>A row that failed a second ago and a fresh one behind it.\<close>

definition demo_rows :: node_db where
  "demo_rows = node_run demo_codec
     [Op_claim_and_enqueue ''j'' ''o'' None (demo_draft ''claim'') 10 100 10,
      Op_record_attempt 1 11,
      Op_claim_and_enqueue ''k'' ''o'' None (demo_draft ''claim'') 12 100 12] (empty_node [])"


lemma node_write_ok: "sdb_faults (money db) = [] \<Longrightarrow> node_write f db = (Inr (), f db)"
  by (simp add: node_write_def node_try_def sdb_call_def)

lemma drain_batch_confirms:
  assumes "\<And>i w. \<exists>event. fst (publish e i w) = Inr event" and "sdb_faults (money (node s)) = []"
  shows "\<exists>report' s'. exec (drain_batch e now None tot tried items report) s = (Inr report', s') \<and>
    report' = report\<lparr>dr_confirmed := dr_confirmed report + length items\<rparr> \<and>
    {r \<in> set (outbox (node s')). ob_state r = ''pending''} =
    {r \<in> set (outbox (node s)). ob_state r = ''pending'' \<and> ob_id r \<notin> oi_id ` set items}"
  using assms(2)
proof (induction items arbitrary: tried report s)
  case (Cons item items)
  obtain event where event: "fst (publish e item (relay s)) = Inr event" using assms(1) by blast
  let ?f = "\<lambda>r. r\<lparr>ob_state := ''confirmed'', ob_published_event_id := Some event, ob_attempts := ob_attempts r + 1, ob_updated_at_unix := now\<rparr>"
  let ?s = "s\<lparr>relay := snd (publish e item (relay s)), sent := sent s @ [item], node := update_outbox (oi_id item) ?f (node s)\<rparr>"
  have one: "exec (publish_one e item now None report) s = (Inr (PubSettled, report\<lparr>dr_confirmed := dr_confirmed report + 1\<rparr>), ?s)"
    using event Cons.prems by (simp add: publish_one_def exec_simps record_outcome_def mark_confirmed_def node_write_ok)
  have "{r \<in> set (outbox (node ?s)). ob_state r = ''pending''} =
      {r \<in> set (outbox (node s)). ob_state r = ''pending'' \<and> ob_id r \<noteq> oi_id item}"
    by (auto simp: update_outbox_def image_iff)
  moreover have "sdb_faults (money (node ?s)) = []" using Cons.prems by (simp add: update_outbox_def)
  from Cons.IH [OF this, of "tried + 1" "report\<lparr>dr_confirmed := dr_confirmed report + 1\<rparr>"] obtain report' s' where
    "exec (drain_batch e now None tot (tried + 1) items (report\<lparr>dr_confirmed := dr_confirmed report + 1\<rparr>)) ?s = (Inr report', s')"
    "report' = report\<lparr>dr_confirmed := dr_confirmed report + 1 + length items\<rparr>"
    "{r \<in> set (outbox (node s')). ob_state r = ''pending''} =
      {r \<in> set (outbox (node ?s)). ob_state r = ''pending'' \<and> ob_id r \<notin> oi_id ` set items}" by auto
  ultimately show ?case using one by (auto simp: exec_simps)
qed auto

lemma read_items_ok:
  assumes "\<And>r. r \<in> set rows \<Longrightarrow> \<exists>d. draft_from_json c (ob_draft_json r) = Inr d"
  shows "\<exists>items. try_fold (\<lambda>items r. try_bind (read_outbox_item c r) (\<lambda>i. Inr (items @ [i]))) acc rows = Inr (acc @ items) \<and>
    map oi_id items = map ob_id rows"
  using assms
proof (induction rows arbitrary: acc)
  case (Cons r rows)
  then obtain d where d: "draft_from_json c (ob_draft_json r) = Inr d" by auto
  let ?i = "\<lparr>oi_id = ob_id r, oi_dedup_key = ob_dedup_key r, oi_draft = d, oi_created_at_unix = ob_created_at_unix r,
    oi_attempts = ob_attempts r, oi_expires_at_unix = ob_expires_at_unix r\<rparr>"
  obtain items where "try_fold (\<lambda>items r. try_bind (read_outbox_item c r) (\<lambda>i. Inr (items @ [i]))) (acc @ [?i]) rows = Inr ((acc @ [?i]) @ items)"
    "map oi_id items = map ob_id rows"
    using Cons.IH [of "acc @ [?i]"] Cons.prems by auto
  with d show ?case by (intro exI [of _ "?i # items"]) (simp add: read_outbox_item_def)
qed simp

lemma exec_drain_within:
  assumes "expire_outbox now (node s) = (Inr n, db)"
    and "pending_outbox_batch c now (max_rows limits) (fresh_only limits) db = (Inr items, db')"
  shows "exec (drain_within c e now limits) s =
    exec (drain_batch e now (drain_deadline limits) (length items) 0 items (DrainReport_default\<lparr>dr_expired := n\<rparr>)) (s\<lparr>node := db'\<rparr>)"
  using assms by (simp add: drain_within_def exec_simps)

lemma pending_after_expiry:
  "filter (is_pending now) (map (\<lambda>r. if ob_state r = ''pending'' \<and> ob_expires_at_unix r \<le> now
      then r\<lparr>ob_state := ''expired'', ob_updated_at_unix := now\<rparr> else r) obs) = filter (is_pending now) obs"
  by (induction obs) (auto simp: is_pending_def)



end
