(* ===== verification/Lane_Schedule.thy ===== *)
theory Lane_Schedule
  imports Durations
begin

text \<open>
  When the work of the seller node runs, \<^verbatim>\<open>seller_node/schedule.rs\<close>: the queue that feeds the one
  lane, the reports of a lane that stays busy, the pacing of outbox passes, the retry clock of
  backfills, the liveness clock with its watchdog, and the wait of a shutdown. Every instant is an
  argument. The wait is a recursion over the rounds of its loop, with what the clock and the
  counter of redeems read in each round and whether the work finished in it.
\<close>

section \<open>The work queue\<close>

datatype 'e Work = Event 'e | Tick | Backfill

fun label :: "'e Work \<Rightarrow> string" where
  "label (Event _) = ''a relay event''"
| "label Tick = ''the drain tick''"
| "label Backfill = ''the stored-history backfill''"

record 'e WorkQueue =
  events :: "'e list"
  cap :: nat
  tick_due :: bool
  backfill_due :: bool
  periodic_turn :: bool
  backfill_turn :: bool

definition new_queue :: "nat \<Rightarrow> 'e WorkQueue" where
  "new_queue n = \<lparr>events = [], cap = max n 1, tick_due = False, backfill_due = False, periodic_turn = False, backfill_turn = False\<rparr>"

definition has_room :: "'e WorkQueue \<Rightarrow> bool" where
  "has_room q \<longleftrightarrow> length (events q) < cap q"

definition push_event :: "'e \<Rightarrow> 'e WorkQueue \<Rightarrow> 'e WorkQueue" where
  "push_event e q = q\<lparr>events := events q @ [e]\<rparr>"

definition request_tick :: "'e WorkQueue \<Rightarrow> 'e WorkQueue" where
  "request_tick q = q\<lparr>tick_due := True\<rparr>"

definition request_backfill :: "'e WorkQueue \<Rightarrow> 'e WorkQueue" where
  "request_backfill q = q\<lparr>backfill_due := True\<rparr>"

definition queued_events :: "'e WorkQueue \<Rightarrow> nat" where
  "queued_events q = length (events q)"

definition periodic_waiting :: "'e WorkQueue \<Rightarrow> nat" where
  "periodic_waiting q = of_bool (tick_due q) + of_bool (backfill_due q)"

definition take_next :: "bool \<Rightarrow> 'e WorkQueue \<Rightarrow> 'e Work option \<times> 'e WorkQueue" where
  "take_next backfill_allowed q =
     (let backfill_ready = backfill_due q \<and> backfill_allowed;
          periodic_ready = tick_due q \<or> backfill_ready
      in if events q = [] \<and> \<not> periodic_ready then (None, q)
         else let take_periodic = (if events q = [] then True else if periodic_ready then periodic_turn q else False) in
           if \<not> take_periodic
           then (let q = q\<lparr>periodic_turn := True\<rparr> in
                 case events q of [] \<Rightarrow> (None, q) | e # es \<Rightarrow> (Some (Event e), q\<lparr>events := es\<rparr>))
           else (let q = q\<lparr>periodic_turn := False\<rparr> in
                 if backfill_ready \<and> (\<not> tick_due q \<or> backfill_turn q)
                 then (Some Backfill, q\<lparr>backfill_due := False, backfill_turn := False\<rparr>)
                 else (Some Tick, q\<lparr>tick_due := False, backfill_turn := True\<rparr>)))"

section \<open>A busy lane\<close>

definition LANE_BUSY_WARN_AFTER :: nat where "LANE_BUSY_WARN_AFTER = from_secs 30"

record LaneBusy =
  current_work :: "(nat \<times> string) option"
  next_warning :: nat
  warned :: bool

definition LaneBusy_default :: LaneBusy where
  "LaneBusy_default = \<lparr>current_work = None, next_warning = LANE_BUSY_WARN_AFTER, warned = False\<rparr>"

definition lane_start :: "string \<Rightarrow> nat \<Rightarrow> LaneBusy \<Rightarrow> LaneBusy" where
  "lane_start l now b = \<lparr>current_work = Some (now, l), next_warning = LANE_BUSY_WARN_AFTER, warned = False\<rparr>"

definition lane_finish :: "nat \<Rightarrow> LaneBusy \<Rightarrow> (string \<times> nat) option \<times> LaneBusy" where
  "lane_finish now b =
     (case current_work b of
        None \<Rightarrow> (None, b)
      | Some (since, l) \<Rightarrow>
          (if warned b then Some (l, saturating_duration_since now since) else None,
           b\<lparr>current_work := None, warned := False\<rparr>))"

text \<open>The loop that doubles the threshold past the time the lane was busy; it has no bound of its own.\<close>

partial_function (option) raise_warning :: "nat \<Rightarrow> nat \<Rightarrow> nat option" where
  "raise_warning busy w = (if w \<le> busy then raise_warning busy (duration_saturating_mul w 2) else Some w)"

declare raise_warning.simps [code]

text \<open>The outer option is whether the call returns.\<close>

definition due_warning :: "nat \<Rightarrow> LaneBusy \<Rightarrow> ((string \<times> nat) option \<times> LaneBusy) option" where
  "due_warning now b =
     (case current_work b of
        None \<Rightarrow> Some (None, b)
      | Some (since, l) \<Rightarrow>
          (let busy = saturating_duration_since now since in
           if busy < next_warning b then Some (None, b)
           else Option.bind (raise_warning busy (next_warning b)) (\<lambda>w.
             Some (Some (l, busy), b\<lparr>warned := True, next_warning := w\<rparr>))))"

definition lane_current :: "nat \<Rightarrow> LaneBusy \<Rightarrow> (string \<times> nat) option" where
  "lane_current now b = map_option (\<lambda>(since, l). (l, saturating_duration_since now since)) (current_work b)"

section \<open>Pacing and retries\<close>

definition OUTBOX_BACKOFF_MIN :: nat where "OUTBOX_BACKOFF_MIN = from_secs 5"
definition OUTBOX_BACKOFF_MAX :: nat where "OUTBOX_BACKOFF_MAX = from_secs 30"

record OutboxPacing =
  resume_at :: "nat option"
  op_next_delay :: nat

definition OutboxPacing_default :: OutboxPacing where
  "OutboxPacing_default = \<lparr>resume_at = None, op_next_delay = OUTBOX_BACKOFF_MIN\<rparr>"

definition may_drain :: "nat \<Rightarrow> OutboxPacing \<Rightarrow> bool" where
  "may_drain now p = (case resume_at p of None \<Rightarrow> True | Some t \<Rightarrow> now \<ge> t)"

definition pacing_reset :: "OutboxPacing \<Rightarrow> OutboxPacing" where
  "pacing_reset p = OutboxPacing_default"

definition pacing_record :: "nat \<Rightarrow> nat \<Rightarrow> nat \<Rightarrow> OutboxPacing \<Rightarrow> nat option \<times> OutboxPacing" where
  "pacing_record confirmed unconfirmed now p =
     (if confirmed > 0 \<or> unconfirmed = 0 then (None, OutboxPacing_default)
      else let delay = op_next_delay p in
        (Some delay, \<lparr>resume_at = Some (now + delay),
           op_next_delay = min (duration_saturating_mul delay 2) OUTBOX_BACKOFF_MAX\<rparr>))"

record RetryBackoff =
  rb_min :: nat
  rb_max :: nat
  rb_next :: nat

definition new_retry :: "nat \<Rightarrow> nat \<Rightarrow> RetryBackoff" where
  "new_retry lo hi = \<lparr>rb_min = lo, rb_max = max hi lo, rb_next = lo\<rparr>"

definition retry_next_delay :: "RetryBackoff \<Rightarrow> nat \<times> RetryBackoff" where
  "retry_next_delay b = (rb_next b, b\<lparr>rb_next := min (duration_saturating_mul (rb_next b) 2) (rb_max b)\<rparr>)"

definition retry_reset :: "RetryBackoff \<Rightarrow> RetryBackoff" where
  "retry_reset b = b\<lparr>rb_next := rb_min b\<rparr>"

datatype BackfillNext = BackfillDone | RerunAfterRecovery | RetryAfter nat

definition overlapped_recovery :: "nat \<Rightarrow> bool \<Rightarrow> nat option \<Rightarrow> bool" where
  "overlapped_recovery lane_started recovering_now last_recovery_end \<longleftrightarrow>
     recovering_now \<or> (case last_recovery_end of None \<Rightarrow> False | Some ended \<Rightarrow> ended \<ge> lane_started)"

definition after_backfill :: "bool \<Rightarrow> bool \<Rightarrow> RetryBackoff \<Rightarrow> BackfillNext \<times> RetryBackoff" where
  "after_backfill complete overlapped b =
     (if complete then (BackfillDone, retry_reset b)
      else if overlapped then (RerunAfterRecovery, b)
      else case retry_next_delay b of (d, b') \<Rightarrow> (RetryAfter d, b'))"

section \<open>Liveness\<close>

record LivenessClock =
  confirmed_at :: nat
  confirmed_unix :: int

definition new_liveness :: "nat \<Rightarrow> int \<Rightarrow> LivenessClock" where
  "new_liveness now unix = \<lparr>confirmed_at = now, confirmed_unix = unix\<rparr>"

definition confirm :: "nat \<Rightarrow> int \<Rightarrow> LivenessClock \<Rightarrow> LivenessClock" where
  "confirm at unix c = (if at \<ge> confirmed_at c then \<lparr>confirmed_at = at, confirmed_unix = unix\<rparr> else c)"

definition unconfirmed_for :: "nat \<Rightarrow> LivenessClock \<Rightarrow> nat" where
  "unconfirmed_for at c = saturating_duration_since at (confirmed_at c)"

definition watchdog_tripped :: "nat \<Rightarrow> nat \<Rightarrow> nat \<Rightarrow> bool" where
  "watchdog_tripped unconfirmed threshold interval \<longleftrightarrow> duration_saturating_add unconfirmed (interval div 2) \<ge> threshold"

section \<open>Shutdown\<close>

definition LANE_SETTLE_GRACE :: nat where "LANE_SETTLE_GRACE = from_secs 3"
definition LANE_SETTLE_MONEY_BOUND :: nat where "LANE_SETTLE_MONEY_BOUND = from_secs 60"
definition SETTLE_REDEEM_POLL :: nat where "SETTLE_REDEEM_POLL = 250000000"

definition lane_settle_bound :: "bool \<Rightarrow> nat" where
  "lane_settle_bound money_critical = (if money_critical then LANE_SETTLE_MONEY_BOUND else LANE_SETTLE_GRACE)"

datatype Settled = Finished nat | Abandoned nat bool

text \<open>One round: the counter of redeems and the clock as the round starts, whether the work finishes
  by the wake time, the clock when the wait is over, and the counter then.\<close>

record settle_round =
  sr_redeems :: nat
  sr_now :: nat
  sr_finished :: bool
  sr_then :: nat
  sr_redeems_then :: nat

definition settle_wake :: "nat \<Rightarrow> nat \<Rightarrow> settle_round \<Rightarrow> nat" where
  "settle_wake money_deadline deadline r =
     (if sr_redeems r > 0 then min (sr_now r + SETTLE_REDEEM_POLL) money_deadline else deadline)"

fun settle_loop :: "nat \<Rightarrow> nat \<Rightarrow> nat \<Rightarrow> settle_round list \<Rightarrow> Settled option" where
  "settle_loop started money_deadline deadline [] = None"
| "settle_loop started money_deadline deadline (r # rs) =
     (let redeeming = sr_redeems r > 0 in
      if sr_finished r then Some (Finished (sr_then r - started))
      else if sr_redeems_then r > 0
      then (if sr_then r \<ge> money_deadline then Some (Abandoned (sr_then r - started) True)
            else settle_loop started money_deadline deadline rs)
      else if redeeming
      then settle_loop started money_deadline (min (max deadline (sr_then r + LANE_SETTLE_GRACE)) money_deadline) rs
      else if sr_then r \<ge> deadline then Some (Abandoned (sr_then r - started) False)
      else settle_loop started money_deadline deadline rs)"

definition settle :: "nat \<Rightarrow> settle_round list \<Rightarrow> Settled option" where
  "settle started rs = settle_loop started (started + LANE_SETTLE_MONEY_BOUND) (started + LANE_SETTLE_GRACE) rs"

section \<open>No work starves\<close>

text \<open>What the node does with the queue, and what is handed out. A due backfill is held while a relay
  recovery runs, which the operation says.\<close>

datatype 'e lane_op = Push 'e | RequestTick | RequestBackfill | TakeNext bool

fun lane_step :: "'e lane_op \<Rightarrow> 'e WorkQueue \<Rightarrow> 'e Work list \<times> 'e WorkQueue" where
  "lane_step (Push e) q = ([], push_event e q)"
| "lane_step RequestTick q = ([], request_tick q)"
| "lane_step RequestBackfill q = ([], request_backfill q)"
| "lane_step (TakeNext allowed) q = (case take_next allowed q of (w, q') \<Rightarrow> (case w of None \<Rightarrow> [] | Some x \<Rightarrow> [x], q'))"

fun lane_run :: "'e lane_op list \<Rightarrow> 'e WorkQueue \<Rightarrow> 'e Work list \<times> 'e WorkQueue" where
  "lane_run [] q = ([], q)"
| "lane_run (op # ops) q = (case lane_step op q of (out, q') \<Rightarrow> (case lane_run ops q' of (out', q'') \<Rightarrow> (out @ out', q'')))"

fun is_take :: "'e lane_op \<Rightarrow> bool" where
  "is_take (TakeNext _) = True"
| "is_take _ = False"

fun backfill_held :: "'e lane_op \<Rightarrow> bool" where
  "backfill_held (TakeNext allowed) = (\<not> allowed)"
| "backfill_held _ = False"

abbreviation takes :: "'e lane_op list \<Rightarrow> nat" where
  "takes ops \<equiv> length (filter is_take ops)"

fun event_of :: "'e Work \<Rightarrow> 'e list" where
  "event_of (Event e) = [e]"
| "event_of _ = []"

fun pushed :: "'e lane_op \<Rightarrow> 'e list" where
  "pushed (Push e) = [e]"
| "pushed _ = []"

lemmas queue_defs = take_next_def push_event_def request_tick_def request_backfill_def Let_def

text \<open>How many calls a piece of work may still have to wait.\<close>

definition tick_wait :: "'e WorkQueue \<Rightarrow> nat" where
  "tick_wait q = (if periodic_turn q then (if backfill_turn q then 3 else 1) else (if backfill_turn q then 4 else 2))"

definition backfill_wait :: "'e WorkQueue \<Rightarrow> nat" where
  "backfill_wait q = (if periodic_turn q then (if backfill_turn q then 1 else 3) else (if backfill_turn q then 2 else 4))"

definition event_wait :: "nat \<Rightarrow> 'e WorkQueue \<Rightarrow> nat" where
  "event_wait k q = 2 * k + (if periodic_turn q then 2 else 1)"

lemma wait_bounds:
  "0 < tick_wait q" "tick_wait q \<le> 4" "0 < backfill_wait q" "backfill_wait q \<le> 4" "0 < event_wait k q" "event_wait k q \<le> 2 * k + 2"
  by (simp_all add: tick_wait_def backfill_wait_def event_wait_def)

lemma tick_step:
  assumes "lane_step op q = (out, q')" and "tick_due q"
  shows "Tick \<in> set out \<or> tick_due q' \<and> tick_wait q' + of_bool (is_take op) \<le> tick_wait q"
  using assms by (cases op) (auto simp: queue_defs tick_wait_def split: if_splits list.splits prod.splits)

lemma backfill_step:
  assumes "lane_step op q = (out, q')" and "backfill_due q" and "\<not> backfill_held op"
  shows "Backfill \<in> set out \<or> backfill_due q' \<and> backfill_wait q' + of_bool (is_take op) \<le> backfill_wait q"
  using assms by (cases op) (auto simp: queue_defs backfill_wait_def split: if_splits list.splits prod.splits)

lemma event_step:
  assumes "lane_step op q = (out, q')" and "k < length (events q)"
  shows "Event (events q ! k) \<in> set out \<or>
    (\<exists>k' < length (events q'). events q' ! k' = events q ! k \<and> event_wait k' q' + of_bool (is_take op) \<le> event_wait k q)"
proof (cases op)
  case (TakeNext allowed)
  obtain e es where es: "events q = e # es" using assms(2) by (cases "events q") auto
  show ?thesis
  proof (cases "(tick_due q \<or> backfill_due q \<and> allowed) \<and> periodic_turn q")
    case True
    then have "events q' = events q" "event_wait k q' + 1 \<le> event_wait k q"
      using assms TakeNext es by (auto simp: queue_defs event_wait_def split: if_splits)
    then show ?thesis using assms(2) TakeNext by auto
  next
    case False
    then have q': "events q' = es" "periodic_turn q'" "out = [Event e]"
      using assms TakeNext es by (auto simp: queue_defs split: if_splits)
    then show ?thesis using assms(2) TakeNext es
      by (cases k) (auto simp: event_wait_def intro!: exI [of _ "k - 1"])
  qed
qed (use assms in \<open>auto simp: queue_defs event_wait_def nth_append intro!: exI [of _ k]\<close>)

text \<open>The general step: a bound that every call lowers, until the work comes out.\<close>

lemma lane_waits:
  assumes step: "\<And>op q out q' n. op \<in> set ops \<Longrightarrow> lane_step op q = (out, q') \<Longrightarrow> R q n \<Longrightarrow>
      w \<in> set out \<or> (\<exists>n'. R q' n' \<and> n' + of_bool (is_take op) \<le> (n :: nat))"
    and "lane_run ops q = (out, q')" and "R q n" and "n \<le> takes ops" and "\<And>q n. R q n \<Longrightarrow> 0 < n"
  shows "w \<in> set out"
  using assms
proof (induction ops arbitrary: q out n)
  case (Cons op ops)
  obtain o1 q1 o2 where s: "lane_step op q = (o1, q1)" "lane_run ops q1 = (o2, q')" "out = o1 @ o2"
    using Cons.prems(2) by (auto split: prod.splits)
  show ?case
  proof (cases "w \<in> set o1")
    case False
    then obtain n' where n': "R q1 n'" "n' + of_bool (is_take op) \<le> n" using Cons.prems(1) [OF _ s(1) Cons.prems(3)] by auto
    then have "n' \<le> takes ops" using Cons.prems(4) by (cases op) auto
    then have "w \<in> set o2" using Cons.IH [OF _ s(2) n'(1)] Cons.prems(1,5) by simp
    then show ?thesis by (simp add: s(3))
  qed (simp add: s(3))
qed force

text \<open>C18. 
  No work starves, \<^verbatim>\<open>WorkQueue::next\<close>: whatever else is pushed or requested, a due tick comes out within
  four calls, a due backfill within four calls in which it is allowed, and the event at position
  \<open>k\<close> of the queue within \<open>2 * k + 2\<close> calls.
\<close>

theorem no_lane_work_starves:
  assumes "lane_run ops q = (out, q')"
  shows "(tick_due q \<and> 4 \<le> takes ops \<longrightarrow> Tick \<in> set out) \<and>
     (backfill_due q \<and> 4 \<le> takes ops \<and> list_all (Not \<circ> backfill_held) ops \<longrightarrow> Backfill \<in> set out) \<and>
     (\<forall>k < length (events q). 2 * k + 2 \<le> takes ops \<longrightarrow> Event (events q ! k) \<in> set out)"
proof (intro conjI allI impI)
  assume "tick_due q \<and> 4 \<le> takes ops"
  then show "Tick \<in> set out"
    by (intro lane_waits [OF _ assms, where R = "\<lambda>q n. tick_due q \<and> n = tick_wait q" and n = "tick_wait q"])
      (auto dest: tick_step intro: wait_bounds le_trans [OF wait_bounds(2)])
next
  assume "backfill_due q \<and> 4 \<le> takes ops \<and> list_all (Not \<circ> backfill_held) ops"
  then show "Backfill \<in> set out"
    by (intro lane_waits [OF _ assms, where R = "\<lambda>q n. backfill_due q \<and> n = backfill_wait q" and n = "backfill_wait q"])
      (auto dest: backfill_step intro: wait_bounds le_trans [OF wait_bounds(4)] simp: list_all_iff)
next
  fix k
  assume "k < length (events q)" "2 * k + 2 \<le> takes ops"
  note k = this
  let ?R = "\<lambda>u n. \<exists>i < length (events u). events u ! i = events q ! k \<and> n = event_wait i u"
  have "Event (events q ! k) \<in> set o1 \<or> (\<exists>n'. ?R u' n' \<and> n' + of_bool (is_take op) \<le> n)"
    if s: "lane_step op u = (o1, u')" and R: "?R u n" for op u o1 u' n
    using R event_step [OF s] by metis
  then show "Event (events q ! k) \<in> set out"
    by (rule lane_waits [OF _ assms, where n = "event_wait k q"]) (use k wait_bounds in \<open>auto intro: le_trans [OF wait_bounds(6)]\<close>)
qed

theorem no_lane_work_starves_witness:
  "Event CHR ''b'' \<in> set (fst (lane_run [RequestTick, TakeNext True, Push CHR ''c'', TakeNext True, RequestBackfill, TakeNext True, RequestTick, TakeNext True]
     ((new_queue 8)\<lparr>events := ''ab''\<rparr>)))"
  using no_lane_work_starves [of "[RequestTick, TakeNext True, Push CHR ''c'', TakeNext True, RequestBackfill, TakeNext True, RequestTick, TakeNext True]"
      "(new_queue 8)\<lparr>events := ''ab''\<rparr>" "fst (lane_run [RequestTick, TakeNext True, Push CHR ''c'', TakeNext True, RequestBackfill, TakeNext True, RequestTick, TakeNext True]
     ((new_queue 8)\<lparr>events := ''ab''\<rparr>))", OF prod.collapse [symmetric]]
  by (auto dest: spec [of _ 1])

text \<open>
  No event is lost, repeated or overtaken, \<^verbatim>\<open>WorkQueue\<close>: the events that come out, followed by the ones that
  still wait, are the ones that waited followed by the ones that were pushed, in that order.
\<close>

theorem lane_keeps_event_order:
  "lane_run ops q = (out, q') \<Longrightarrow> concat (map event_of out) @ events q' = events q @ concat (map pushed ops)"
proof (induction ops arbitrary: q out)
  case (Cons op ops)
  obtain o1 q1 o2 where s: "lane_step op q = (o1, q1)" "lane_run ops q1 = (o2, q')" "out = o1 @ o2"
    using Cons.prems by (auto split: prod.splits)
  have "concat (map event_of o1) @ events q1 = events q @ pushed op"
    using s(1) by (cases op) (auto simp: queue_defs split: if_splits list.splits)
  then show ?case using Cons.IH [OF s(2)] s(3) by (metis append_assoc concat.simps(2) concat_append list.simps(9) map_append)
qed simp

section \<open>Reports, pauses and ticks\<close>

lemma raise_warning_returns:
  assumes "0 < w" and "w \<le> busy" and "busy < DURATION_MAX"
  shows "\<exists>v. raise_warning busy w = Some v \<and> busy < v \<and> v \<le> 2 * busy"
  using assms
proof (induction "busy - w" arbitrary: w rule: less_induct)
  case less
  let ?v = "duration_saturating_mul w 2"
  have v: "?v \<le> 2 * busy" "0 < ?v" "w < ?v" using less.prems by (auto simp: duration_saturating_mul_def)
  show ?case
  proof (cases "?v \<le> busy")
    case True
    then show ?thesis using less.hyps [of ?v] less.prems v by (subst raise_warning.simps) auto
  next
    case False
    then show ?thesis using less.prems v by (subst raise_warning.simps, subst raise_warning.simps) auto
  qed
qed

text \<open>
  Reports of a busy lane back off, \<^verbatim>\<open>LaneBusy::due_warning\<close>: the call returns, it reports exactly when the work
  has run for the threshold, and then the threshold is beyond the time it has run and at most
  twice that time. So each report comes at a later time than the last, and the loop that doubles
  ends, unless the clock shows the longest duration there is.
\<close>

theorem busy_reports_back_off:
  assumes "current_work b = Some (since, l)" and "0 < next_warning b"
    and "saturating_duration_since now since < DURATION_MAX"
  shows "\<exists>out b'. due_warning now b = Some (out, b') \<and>
     (if next_warning b \<le> saturating_duration_since now since
      then out = Some (l, saturating_duration_since now since) \<and> warned b' \<and>
        saturating_duration_since now since < next_warning b' \<and> next_warning b' \<le> 2 * saturating_duration_since now since
      else out = None \<and> b' = b)"
  using raise_warning_returns [of "next_warning b" "saturating_duration_since now since"] assms
  by (auto simp: due_warning_def Let_def)

theorem busy_reports_back_off_witness:
  "\<exists>b'. due_warning (from_secs 45) (lane_start ''the drain tick'' 0 LaneBusy_default) = Some (Some (''the drain tick'', from_secs 45), b') \<and>
     from_secs 45 < next_warning b'"
  using busy_reports_back_off [of "lane_start ''the drain tick'' 0 LaneBusy_default" 0 "''the drain tick''" "from_secs 45"]
  by (auto simp: lane_start_def LANE_BUSY_WARN_AFTER_def duration_defs)

text \<open>What the passes report, one after the other, with the time of each.\<close>

fun pacing_after :: "(nat \<times> nat \<times> nat) list \<Rightarrow> OutboxPacing \<Rightarrow> OutboxPacing" where
  "pacing_after [] p = p"
| "pacing_after ((confirmed, unconfirmed, now) # ps) p = pacing_after ps (snd (pacing_record confirmed unconfirmed now p))"

definition pacing_ok :: "OutboxPacing \<Rightarrow> bool" where
  "pacing_ok p \<longleftrightarrow> OUTBOX_BACKOFF_MIN \<le> op_next_delay p \<and> op_next_delay p \<le> OUTBOX_BACKOFF_MAX"

lemma pacing_ok_record: "pacing_ok p \<Longrightarrow> pacing_ok (snd (pacing_record c u now p))"
  by (auto simp: pacing_ok_def pacing_record_def OutboxPacing_default_def OUTBOX_BACKOFF_MIN_def OUTBOX_BACKOFF_MAX_def duration_defs Let_def)

lemma pacing_ok_after: "pacing_ok p \<Longrightarrow> pacing_ok (pacing_after ps p)"
  by (induction ps p rule: pacing_after.induct) (auto simp: pacing_ok_record)

lemma pacing_after_snoc: "pacing_after (ps @ [(c, u, now)]) p = snd (pacing_record c u now (pacing_after ps p))"
  by (induction ps p rule: pacing_after.induct) auto

text \<open>
  Outbox pauses are bounded, \<^verbatim>\<open>OutboxPacing\<close>: whatever the passes before reported, after a pass at time
  \<open>now\<close> a routine drain may run again thirty seconds later; at once when the pass
  confirmed something or left nothing; and not within five seconds otherwise.
\<close>

theorem outbox_pause_is_bounded:
  "may_drain (now + OUTBOX_BACKOFF_MAX) (pacing_after (ps @ [(c, u, now)]) OutboxPacing_default) \<and>
   (may_drain now (pacing_after (ps @ [(c, u, now)]) OutboxPacing_default) \<longleftrightarrow> 0 < c \<or> u = 0) \<and>
   (may_drain (now + OUTBOX_BACKOFF_MIN - 1) (pacing_after (ps @ [(c, u, now)]) OutboxPacing_default) \<longleftrightarrow> 0 < c \<or> u = 0)"
proof -
  have "pacing_ok (pacing_after ps OutboxPacing_default)"
    by (rule pacing_ok_after) (simp add: pacing_ok_def OutboxPacing_default_def OUTBOX_BACKOFF_MIN_def OUTBOX_BACKOFF_MAX_def duration_defs)
  then show ?thesis
    by (auto simp: pacing_after_snoc pacing_record_def may_drain_def pacing_ok_def OutboxPacing_default_def
        OUTBOX_BACKOFF_MIN_def OUTBOX_BACKOFF_MAX_def duration_defs Let_def)
qed

text \<open>
  The watchdog trips on the tick that completes its threshold, \<^verbatim>\<open>watchdog_tripped\<close>: when the \<open>m\<close>-th tick since
  liveness was confirmed comes less than half an interval off its time, it trips exactly when
  \<open>m\<close> has reached the number of missed intervals that the threshold stands for.
\<close>

theorem watchdog_trips_on_the_completing_tick:
  assumes "m * interval \<le> unconfirmed + interval div 2" and "unconfirmed < m * interval + (interval - interval div 2)"
    and "interval * missed \<le> DURATION_MAX"
  shows "watchdog_tripped unconfirmed (interval * missed) interval \<longleftrightarrow> missed \<le> m"
proof -
  have "interval * missed \<le> unconfirmed + interval div 2 \<longleftrightarrow> missed \<le> m"
  proof (cases "missed \<le> m")
    case True
    then have "interval * missed \<le> m * interval" by (simp add: mult.commute)
    then show ?thesis using True assms(1) by linarith
  next
    case False
    then have "Suc m \<le> missed" by simp
    then have "Suc m * interval \<le> interval * missed" using mult_le_mono1 [of "Suc m" missed interval] by (simp add: mult.commute)
    moreover have "interval div 2 \<le> interval" by simp
    ultimately show ?thesis using False assms(2) by simp
  qed
  then show ?thesis using assms(3) by (auto simp: watchdog_tripped_def duration_saturating_add_def)
qed

theorem watchdog_trips_on_the_completing_tick_witness:
  "watchdog_tripped (from_secs 900 - 5) (from_secs 300 * 3) (from_secs 300) \<and>
   \<not> watchdog_tripped (from_secs 600 + 5) (from_secs 300 * 3) (from_secs 300)"
  using watchdog_trips_on_the_completing_tick [of 3 "from_secs 300" "from_secs 900 - 5" 3]
    watchdog_trips_on_the_completing_tick [of 2 "from_secs 300" "from_secs 600 + 5" 3]
  by (simp add: duration_defs)

section \<open>The wait of a shutdown\<close>

lemma settle_abandons_late:
  assumes "settle_loop started md d rs = Some (Abandoned after redeeming)" and "d \<le> md" and "started \<le> d"
  shows "(if redeeming then md else d) \<le> started + after"
  using assms
proof (induction rs arbitrary: d)
  case (Cons r rs)
  have "d \<le> min (max d (sr_then r + LANE_SETTLE_GRACE)) md" using Cons.prems(2) by simp
  then show ?case
    using Cons.prems Cons.IH [of d] Cons.IH [of "min (max d (sr_then r + LANE_SETTLE_GRACE)) md"]
    by (fastforce simp: Let_def split: if_splits)
qed simp

text \<open>A redeem that is seen to end gives the rest of the work a grace from then, up to the money bound.\<close>

lemma settle_grace_after_redeem:
  assumes "settle_loop started md d rs = Some (Abandoned after False)" and "d \<le> md" and "started \<le> d"
    and "i < length rs" and "settle_loop started md d (take (Suc i) rs) = None"
    and "0 < sr_redeems (rs ! i)" and "sr_redeems_then (rs ! i) = 0"
  shows "min (sr_then (rs ! i) + LANE_SETTLE_GRACE) md \<le> started + after"
  using assms
proof (induction rs arbitrary: d i)
  case (Cons r rs)
  let ?d = "min (max d (sr_then r + LANE_SETTLE_GRACE)) md"
  have d: "?d \<le> md" "started \<le> ?d" using Cons.prems(2,3) by auto
  show ?case
  proof (cases i)
    case 0
    then have "settle_loop started md ?d rs = Some (Abandoned after False)"
      using Cons.prems by (auto simp: Let_def split: if_splits)
    from settle_abandons_late [OF this d] 0 show ?thesis by auto
  next
    case (Suc k)
    then obtain d' where "settle_loop started md d' rs = Some (Abandoned after False)" "d' \<le> md" "started \<le> d'"
        "settle_loop started md d' (take (Suc k) rs) = None"
      using Cons.prems(1,2,3,5) d by (auto simp: Let_def split: if_splits)
    from Cons.IH [OF this(1-3) _ this(4)] Suc Cons.prems(4,6,7) show ?thesis by simp
  qed
qed simp

lemma settle_ends:
  assumes "d \<le> md" and "i < length rs" and "md \<le> sr_then (rs ! i)" and "0 < sr_redeems (rs ! i) \<longleftrightarrow> 0 < sr_redeems_then (rs ! i)"
  shows "settle_loop started md d (take (Suc i) rs) \<noteq> None"
  using assms
proof (induction rs arbitrary: d i)
  case (Cons r rs)
  show ?case
  proof (cases i)
    case 0
    then show ?thesis using Cons.prems by (auto simp: Let_def)
  next
    case (Suc k)
    then show ?thesis
      using Cons.prems Cons.IH [of d k] Cons.IH [of "min (max d (sr_then r + LANE_SETTLE_GRACE)) md" k] by (auto simp: Let_def)
  qed
qed simp

text \<open>C19. 
  What a shutdown waits for, \<^verbatim>\<open>settle\<close>: work is abandoned only after the grace of three seconds, and while a
  redeem is in flight only after a minute; when a redeem was seen to end, the rest of the work had
  another grace from then or the minute was over. And it ends: a round that is past the
  minute, and in which the counter reads the same before and after, is the last.
\<close>

theorem shutdown_spares_a_redeem:
  "(settle started rs = Some (Abandoned after redeeming) \<longrightarrow>
      LANE_SETTLE_GRACE \<le> after \<and> (redeeming \<longrightarrow> LANE_SETTLE_MONEY_BOUND \<le> after) \<and>
      (\<forall>i < length rs. \<not> redeeming \<and> settle started (take (Suc i) rs) = None \<and> 0 < sr_redeems (rs ! i) \<and> sr_redeems_then (rs ! i) = 0 \<longrightarrow>
         min (sr_then (rs ! i) + LANE_SETTLE_GRACE) (started + LANE_SETTLE_MONEY_BOUND) \<le> started + after)) \<and>
   (\<forall>i < length rs. started + LANE_SETTLE_MONEY_BOUND \<le> sr_then (rs ! i) \<and>
      (0 < sr_redeems (rs ! i) \<longleftrightarrow> 0 < sr_redeems_then (rs ! i)) \<longrightarrow> settle started (take (Suc i) rs) \<noteq> None)"
proof -
  have b: "started + LANE_SETTLE_GRACE \<le> started + LANE_SETTLE_MONEY_BOUND" "started \<le> started + LANE_SETTLE_GRACE"
    by (simp_all add: LANE_SETTLE_GRACE_def LANE_SETTLE_MONEY_BOUND_def duration_defs)
  show ?thesis
    unfolding settle_def using settle_abandons_late [OF _ b, of rs after redeeming] settle_grace_after_redeem [OF _ b, of rs after]
      settle_ends [OF b(1), of _ rs started] b(1) by (auto split: if_splits)
qed

text \<open>A redeem ends after a second; the work that remains is abandoned three seconds later.\<close>

definition sample_rounds :: "settle_round list" where
  "sample_rounds =
     [\<lparr>sr_redeems = 1, sr_now = 0, sr_finished = False, sr_then = from_secs 1, sr_redeems_then = 0\<rparr>,
      \<lparr>sr_redeems = 0, sr_now = from_secs 1, sr_finished = False, sr_then = from_secs 4, sr_redeems_then = 0\<rparr>]"

theorem shutdown_spares_a_redeem_witness:
  "settle 0 sample_rounds = Some (Abandoned (from_secs 4) False) \<and> LANE_SETTLE_GRACE \<le> from_secs 4"
proof -
  have "settle 0 sample_rounds = Some (Abandoned (from_secs 4) False)"
    by (simp add: settle_def sample_rounds_def LANE_SETTLE_GRACE_def LANE_SETTLE_MONEY_BOUND_def duration_defs)
  then show ?thesis using shutdown_spares_a_redeem [of 0 sample_rounds "from_secs 4" False] by blast
qed

end
