(* ===== verification/Spec2Isabelle.thy ===== *)
theory Spec2Isabelle
  imports Platform_Fee Pay_Runs Reconcile Remit_Reads Remit_Pacing Seller_Outbox Lane_Schedule
begin

text \<open>
  This development models the money and job core of a marketplace in which buyers pay sellers, which
  run agents, in ecash over Nostr relays and Cashu mints: the crate
  \<^verbatim>\<open>crates/maxplayer-core\<close>. All file names below are relative to its directory
  \<^verbatim>\<open>src\<close>.

  \<^bold>\<open>The program and how its parts interact.\<close> A buyer awards a claim: it reserves the price in its
  ledger, records the attempt with the bytes of the award event, sends it and folds the verdict of the
  relay back into the database; sweeps and a reconcile pass settle what a crash left open. When the
  seller has delivered, the buyer pays: the delivery, the seller's signature and the sentinel are
  checked, the spend budget is charged, the payment state machine locks
  a token, sends it, publishes the receipt and closes, each step journaled before it counts. The
  buyer's mint need not be one the seller takes; then a hop melts at the buyer's mint and mints at the
  seller's before the payment, with a journal of its own. The
  seller keeps its own database of offers, claims, awards, jobs, deliveries, sessions and receipts;
  each state change that must be announced puts its event into an outbox in the same transaction, and
  passes of the outbox publisher hand the events to the relay. From the receipts a platform fee accrues,
  which remit attempts pay to the platform through a Lightning melt, fenced by a row of the database
  and paced by a backoff. A job can be a session, in which the buyer sends follow-ups.

  \<^bold>\<open>Theories.\<close>
  \<^item> \<open>Prelude\<close>: machine integers of Rust (saturating, checked, wrapping), results with early return,
    the state-and-result monad and its triples, decimal printing and parsing, keyed SQLite tables.
  \<^item> \<open>Processes\<close>: programs as trees of atomic actions, their interleaving, and the locale
    \<open>token_protocol\<close>, the proof rule for them; a program alone that may be cut off at any action. It is
    interpreted for the remit path in \<open>Remit_Safety\<close>, for the outbox in \<open>Seller_Outbox\<close>, and for hops
    and payments in \<open>Pay_Safety\<close>.
  \<^item> \<open>Platform_Fee\<close> (\<^verbatim>\<open>platform_fee.rs\<close>), \<open>Budget\<close> (\<^verbatim>\<open>budget.rs\<close>: \<open>BudgetGate\<close> as a record, its file as an
    append-only list of lines, several processes on one file), \<open>Receipt\<close> (\<^verbatim>\<open>receipt.rs\<close>).
  \<^item> \<open>Payment\<close>, \<open>Payment_Safety\<close> (\<^verbatim>\<open>payment.rs\<close>): keys and attempt ids, the reducer \<open>decide\<close> and
    \<open>fold_records\<close>, the file and memory journals with faults, \<open>advance\<close>, \<open>drive_settlement_legs\<close>,
    \<open>complete_recovered_locked\<close>; then the safety of every sequence of runs with faults.
  \<^item> \<open>Crossmint\<close>, \<open>Crossmint_Hop\<close>, \<open>Hop_Safety\<close> (\<^verbatim>\<open>crossmint.rs\<close>, \<^verbatim>\<open>crossmint_hop.rs\<close>): the plan of a
    payment, the hop as a program over its journal and the two mints, the sweep; then every sequence of
    runs that are cut off anywhere, and two runs at once.
  \<^item> \<open>Contribution\<close> (\<^verbatim>\<open>delivery.rs\<close>, \<^verbatim>\<open>delivery_sentinel.rs\<close>, \<^verbatim>\<open>contribution.rs\<close>): deliveries, the execution
    sentinel, contribution offers with their tags, authorship tuple and content policy.
  \<^item> \<open>Authorize_Pay\<close>, \<open>Pay_Safety\<close>, \<open>Pay_Runs\<close> (\<^verbatim>\<open>authorize_pay.rs\<close>): the pay path, which puts the budget, the
    hop, the payment state machine and the delivery rules together, and the operator's completion, as
    programs over the files of the home; then any interleaving of payments, completions and hop sweeps
    of several processes, the run of one payment from its checks to its end, and a concrete home.
  \<^item> \<open>Buyer_Ledger\<close>, \<open>Buyer_Store\<close> (\<^verbatim>\<open>buyer/reservations.rs\<close>, \<^verbatim>\<open>buyer/store.rs\<close>): the buyer's
    database as a record of tables; one definition per method of \<open>BuyerStore\<close>.
  \<^item> \<open>Award\<close>, \<open>Award_Safety\<close>, \<open>Reconcile\<close> (\<^verbatim>\<open>buyer/lifecycle.rs\<close>, \<^verbatim>\<open>buyer/mod.rs\<close>,
    \<^verbatim>\<open>job_lifecycle.rs\<close>): the award chokepoint \<open>award_with_reservation\<close>, \<open>drive_send\<close>, the sweep, the
    journal scan and the reconcile pass, and the invariant over any sequence of them.
  \<^item> \<open>Melt_Bound\<close> (\<^verbatim>\<open>wallet_ops.rs\<close>, \<^verbatim>\<open>fee_remit.rs\<close>): the fee of proofs, the split into denominations, the
    bound on what a melt takes and the search for the largest invoice that fits.
  \<^item> \<open>Remit_Store\<close>, \<open>Remit_Books\<close>, \<open>Fee_Remit\<close>, \<open>Remit_Safety\<close>, \<open>Remit_Reads\<close>, \<open>Remit_Pacing\<close>
    (\<^verbatim>\<open>seller_node/store.rs\<close>, \<^verbatim>\<open>fee_remit.rs\<close>): receipts and remittances, the abstract ledger
    they refine, the remit attempt as a program, its safety beside other attempts and the
    environment, what readers see, and the backoff.
  \<^item> \<open>Session\<close> (\<^verbatim>\<open>session.rs\<close>): the pure rules of session jobs, one definition per function.
  \<^item> \<open>Seller_Jobs\<close>, \<open>Seller_Sessions\<close>, \<open>Seller_Lifecycle\<close> (\<^verbatim>\<open>seller_node/store.rs\<close>): the seller's database
    as a record of tables that extends the one of \<open>Remit_Store\<close>; one definition per method of
    \<open>SellerStore\<close>; the locale \<open>store_invariant\<close>, interpreted for the invariant of the database and for
    the columns of the outbox that never change; the invariant over any sequence of operations.
  \<^item> \<open>Seller_Outbox\<close> (\<^verbatim>\<open>seller_node/outbox.rs\<close>): the passes as programs beside the rest of the node.
  \<^item> \<open>Durations\<close>, \<open>Lane_Schedule\<close> (\<^verbatim>\<open>seller_node/schedule.rs\<close>): the queue that feeds the lane of the node,
    its pacing, clocks and shutdown.

  \<^bold>\<open>What the lemmas show.\<close> A payment is sent at most once across crashes and lost appends, a success is
  durably closed, a run without faults closes, and recovery touches only a lock the mint reports
  unspent. A hop melts a second quote only after the mint said that the first failed, and a settled hop
  is final. No melt is sent and no journal is written for an attempt that the spend ledger does not
  count, a payment that succeeds was checked in full, and a refusal before the charge changes nothing.
  Reservations never exceed a balance; one award event per job leaves the buyer, and an
  award that may be public stays funded. The budget counts an attempt once across processes and
  restarts. Remittances never exceed the fees that accrued, an admitted one is never
  released, and the database refines an abstract ledger. Committed work has its event, every
  state column can be read, everything published under one key is one event, passes are fair and an
  unhindered pass gets everything out. No work of the lane starves, and a shutdown spares a redeem
  in flight. Parsers read what printers write, the arithmetic is exact or
  wraps exactly where stated, and bounded contexts drop only what does not fit. Some theorems
  state behaviour that comments describe differently: a torn payment journal, the fee that wraps,
  the release of an admitted remittance, unestimated fees, the marker of a question, two runs of one
  hop at once, a torn hop journal before a sweep, a mint URL that panics the plan, a retried hop that
  escapes the cap, and the lock of a session turn, which cannot be completed.

  \<^bold>\<open>Conventions.\<close> A \<open>u64\<close> or \<open>u32\<close> is a word; an \<open>i64\<close> column is an integer that \<open>as_i64\<close> produced;
  counters that are bounded by the length of a list are naturals. A fallible function returns
  \<open>'e + 'a\<close>; messages that interpolate values are cut before the interpolation. Every call of a
  database draws from a schedule of SQLite failures, and a call that fails changes no
  table; a journal append may fail before, within or after the write. The outside world (wallet,
  mint, relay, clock, random source, JSON and hashes) is a record of functions on an
  unspecified state, or an argument, with what is relied on as named hypotheses. There is no
  fuel: loops are structural, over a finite range, or recursive with a measure.

  \<^bold>\<open>Not modelled.\<close> Schema creation, migration and the health rows of both databases. The asynchronous
  loops that call these parts (\<^verbatim>\<open>seller_node/run.rs\<close> and its neighbours, the RPC handlers of the
  buyer daemon), whose behaviour is the order of calls that the theorems quantify over. The execution
  of agents, containers, namespaces and git (\<^verbatim>\<open>seller_exec.rs\<close>, \<^verbatim>\<open>sandbox_*.rs\<close>, \<^verbatim>\<open>delivery_git.rs\<close> and the
  delivery executors), which is effects on the operating system. The private protocol
  (\<^verbatim>\<open>private_content\<close>), of which the pay path sees the validated receipt. Transport to wallets, mints, LNURL hosts and relays. The load
  generator, the command line, the desktop and chat tools, and the relay server under
  \<^verbatim>\<open>crates/buzz\<close>, a system of its own.
\<close>

end
